(* ===== verification/Go_Prelude.thy ===== *)
theory Go_Prelude
  imports Main "HOL-Library.Word" "HOL-Library.List_Lexorder" "HOL-Library.Char_ord"
    "HOL-Library.Product_Lexorder" "HOL-Library.Code_Target_Nat"
begin

text \<open>
  The prelude of the Corelay Code development: the Go language and the parts of its
  standard library that several components use. A Go string is a byte sequence, so a
  \<^typ>\<open>string\<close> here is a list of bytes and \<^const>\<open>length\<close> is Go's
  \<^verbatim>\<open>len\<close>; literals of the source are written as ASCII literals. Unicode
  aware functions are modelled on the UTF-8 bytes. A time is the number of nanoseconds
  since Go's zero time, so the zero time is 0; a duration is a number of nanoseconds.
  A fallible Go function returns a value of the sum type \<^verbatim>\<open>'e + 'a\<close>,
  \<^const>\<open>Inl\<close> being the error.
\<close>

named_theorems go_string \<open>facts on the string functions of the Go library\<close>
named_theorems go_list \<open>facts on lists and maps shared by the components\<close>

type_synonym gotime = int
type_synonym goduration = int
type_synonym uint64 = "64 word"

abbreviation zero_time :: gotime where
  "zero_time \<equiv> 0"

abbreviation nanosecond_per_second :: goduration where
  "nanosecond_per_second \<equiv> 1000000000"

abbreviation nanosecond_per_minute :: goduration where
  "nanosecond_per_minute \<equiv> 60000000000"

abbreviation nanosecond_per_hour :: goduration where
  "nanosecond_per_hour \<equiv> 3600000000000"

section \<open>Strings\<close>

definition byte :: "char \<Rightarrow> nat" where
  "byte c = of_char c"

definition has_prefix :: "string \<Rightarrow> string \<Rightarrow> bool" where
  "has_prefix s p \<longleftrightarrow> take (length p) s = p"

definition has_suffix :: "string \<Rightarrow> string \<Rightarrow> bool" where
  "has_suffix s p \<longleftrightarrow> length p \<le> length s \<and> drop (length s - length p) s = p"

definition trim_prefix :: "string \<Rightarrow> string \<Rightarrow> string" where
  "trim_prefix s p = (if has_prefix s p then drop (length p) s else s)"

definition trim_suffix :: "string \<Rightarrow> string \<Rightarrow> string" where
  "trim_suffix s p = (if has_suffix s p then take (length s - length p) s else s)"

fun str_contains :: "string \<Rightarrow> string \<Rightarrow> bool" where
  "str_contains [] sub = (sub = [])"
| "str_contains (c # cs) sub = (has_prefix (c # cs) sub \<or> str_contains cs sub)"

text \<open>
  The UTF-8 encodings of the runes of \<^verbatim>\<open>unicode.IsSpace\<close>. The first byte of
  each is no continuation byte, so a scanner that decodes rune by rune meets one of these
  runes exactly where the bytes of its encoding stand, in ill-formed input too.
\<close>

definition space_encodings :: "string list" where
  "space_encodings =
     [[CHR 0x09], [CHR 0x0A], [CHR 0x0B], [CHR 0x0C], [CHR 0x0D], [CHR 0x20],
      [CHR 0xC2, CHR 0x85], [CHR 0xC2, CHR 0xA0], [CHR 0xE1, CHR 0x9A, CHR 0x80],
      [CHR 0xE2, CHR 0x80, CHR 0x80], [CHR 0xE2, CHR 0x80, CHR 0x81],
      [CHR 0xE2, CHR 0x80, CHR 0x82], [CHR 0xE2, CHR 0x80, CHR 0x83],
      [CHR 0xE2, CHR 0x80, CHR 0x84], [CHR 0xE2, CHR 0x80, CHR 0x85],
      [CHR 0xE2, CHR 0x80, CHR 0x86], [CHR 0xE2, CHR 0x80, CHR 0x87],
      [CHR 0xE2, CHR 0x80, CHR 0x88], [CHR 0xE2, CHR 0x80, CHR 0x89],
      [CHR 0xE2, CHR 0x80, CHR 0x8A], [CHR 0xE2, CHR 0x80, CHR 0xA8],
      [CHR 0xE2, CHR 0x80, CHR 0xA9], [CHR 0xE2, CHR 0x80, CHR 0xAF],
      [CHR 0xE2, CHR 0x81, CHR 0x9F], [CHR 0xE3, CHR 0x80, CHR 0x80]]"

definition match_len :: "string list \<Rightarrow> string \<Rightarrow> nat" where
  "match_len encs s = (case find (has_prefix s) encs of None \<Rightarrow> 0 | Some e \<Rightarrow> length e)"

definition space_len :: "string \<Rightarrow> nat" where
  "space_len s = match_len space_encodings s"

function strip_heads :: "string list \<Rightarrow> string \<Rightarrow> string" where
  "strip_heads encs s =
     (if s = [] \<or> match_len encs s = 0 then s else strip_heads encs (drop (match_len encs s) s))"
  by pat_completeness auto
termination
  by (relation "measure (\<lambda>(_, s). length s)") auto

declare strip_heads.simps [simp del]

definition trim_left_space :: "string \<Rightarrow> string" where
  "trim_left_space s = strip_heads space_encodings s"

definition trim_right_space :: "string \<Rightarrow> string" where
  "trim_right_space s = rev (strip_heads (map rev space_encodings) (rev s))"

definition trim_space :: "string \<Rightarrow> string" where
  "trim_space s = trim_right_space (trim_left_space s)"

definition blank :: "string \<Rightarrow> bool" where
  "blank s \<longleftrightarrow> trim_space s = []"

text \<open>\<^verbatim>\<open>strings.Fields\<close>: the maximal runs of bytes between white space.\<close>

function fields_from :: "string \<Rightarrow> string \<Rightarrow> string list" where
  "fields_from cur s =
     (if s = [] then (if cur = [] then [] else [cur])
      else if space_len s = 0 then fields_from (cur @ [hd s]) (tl s)
      else (if cur = [] then [] else [cur]) @ fields_from [] (drop (space_len s) s))"
  by pat_completeness auto
termination
  by (relation "measure (\<lambda>(_, s). length s)") (auto simp: neq_Nil_conv)

declare fields_from.simps [simp del]

definition go_fields :: "string \<Rightarrow> string list" where
  "go_fields s = fields_from [] s"

fun join :: "string \<Rightarrow> string list \<Rightarrow> string" where
  "join sep [] = []"
| "join sep [x] = x"
| "join sep (x # y # zs) = x @ sep @ join sep (y # zs)"

text \<open>
  \<^verbatim>\<open>strings.ToLower\<close> as the components observe it, by comparison with ASCII
  text: the ASCII letters, and the two further runes whose lower case is an ASCII letter,
  U+0130 (i) and U+212A (k). Any other rune keeps a non-ASCII encoding.
\<close>

definition is_upper :: "char \<Rightarrow> bool" where
  "is_upper c \<longleftrightarrow> 65 \<le> byte c \<and> byte c \<le> 90"

definition lower_char :: "char \<Rightarrow> char" where
  "lower_char c = (case c of Char b0 b1 b2 b3 b4 b5 b6 b7 \<Rightarrow>
     if is_upper c then Char b0 b1 b2 b3 b4 True b6 b7 else c)"

fun to_lower :: "string \<Rightarrow> string" where
  "to_lower [] = []"
| "to_lower (a # s) =
     (case s of
        [] \<Rightarrow> [lower_char a]
      | b # t \<Rightarrow>
          (if a = CHR 0xC4 \<and> b = CHR 0xB0 then CHR ''i'' # to_lower t
           else (case t of
                   [] \<Rightarrow> lower_char a # to_lower s
                 | c # u \<Rightarrow>
                     (if a = CHR 0xE2 \<and> b = CHR 0x84 \<and> c = CHR 0xAA then CHR ''k'' # to_lower u
                      else lower_char a # to_lower s))))"

definition trim_right_chars :: "char list \<Rightarrow> string \<Rightarrow> string" where
  "trim_right_chars cutset s = rev (dropWhile (\<lambda>c. c \<in> set cutset) (rev s))"

definition trim_left_chars :: "char list \<Rightarrow> string \<Rightarrow> string" where
  "trim_left_chars cutset s = dropWhile (\<lambda>c. c \<in> set cutset) s"

definition contains_any_char :: "string \<Rightarrow> char list \<Rightarrow> bool" where
  "contains_any_char s cs \<longleftrightarrow> list_ex (\<lambda>c. c \<in> set cs) s"

definition contains_any :: "string \<Rightarrow> string list \<Rightarrow> bool" where
  "contains_any s needles \<longleftrightarrow> list_ex (str_contains s) needles"

text \<open>\<^verbatim>\<open>utf8.ValidString\<close> by the byte ranges of well-formed UTF-8.\<close>

definition cont :: "nat \<Rightarrow> bool" where
  "cont b \<longleftrightarrow> 128 \<le> b \<and> b \<le> 191"

fun valid_utf8_bytes :: "nat list \<Rightarrow> bool" where
  "valid_utf8_bytes [] = True"
| "valid_utf8_bytes (a # s) =
     (if a < 128 then valid_utf8_bytes s
      else case s of
        [] \<Rightarrow> False
      | b # t \<Rightarrow>
          (if 194 \<le> a \<and> a \<le> 223 then cont b \<and> valid_utf8_bytes t
           else case t of
             [] \<Rightarrow> False
           | c # u \<Rightarrow>
               (if 224 \<le> a \<and> a \<le> 239 then
                  (if a = 224 then 160 \<le> b \<and> b \<le> 191
                   else if a = 237 then 128 \<le> b \<and> b \<le> 159 else cont b)
                  \<and> cont c \<and> valid_utf8_bytes u
                else case u of
                  [] \<Rightarrow> False
                | d # v \<Rightarrow>
                    240 \<le> a \<and> a \<le> 244
                    \<and> (if a = 240 then 144 \<le> b \<and> b \<le> 191
                       else if a = 244 then 128 \<le> b \<and> b \<le> 143 else cont b)
                    \<and> cont c \<and> cont d \<and> valid_utf8_bytes v)))"

definition valid_utf8 :: "string \<Rightarrow> bool" where
  "valid_utf8 s = valid_utf8_bytes (map byte s)"

text \<open>\<^verbatim>\<open>strings.IndexFunc(s, unicode.IsControl) >= 0\<close>: C0, DEL and C1.\<close>

fun contains_control :: "string \<Rightarrow> bool" where
  "contains_control [] = False"
| "contains_control (a # s) =
     (byte a < 32 \<or> byte a = 127
      \<or> (a = CHR 0xC2 \<and> (case s of [] \<Rightarrow> False | b # _ \<Rightarrow> 128 \<le> byte b \<and> byte b \<le> 159))
      \<or> contains_control s)"

definition lower_hex_digit :: "char \<Rightarrow> bool" where
  "lower_hex_digit c \<longleftrightarrow> (48 \<le> byte c \<and> byte c \<le> 57) \<or> (97 \<le> byte c \<and> byte c \<le> 102)"

definition hex_digit :: "char \<Rightarrow> bool" where
  "hex_digit c \<longleftrightarrow> lower_hex_digit c \<or> (65 \<le> byte c \<and> byte c \<le> 70)"

text \<open>\<^verbatim>\<open>hex.DecodeString\<close> returns no error.\<close>

definition hex_decodable :: "string \<Rightarrow> bool" where
  "hex_decodable s \<longleftrightarrow> even (length s) \<and> list_all hex_digit s"

text \<open>
  The longest valid prefix of at most \<^verbatim>\<open>limit\<close> bytes, found by dropping one
  byte at a time, as the truncation loops of the source do.
\<close>

fun shrink_to_valid :: "string \<Rightarrow> nat \<Rightarrow> string" where
  "shrink_to_valid s 0 = []"
| "shrink_to_valid s (Suc n) = (if valid_utf8 (take (Suc n) s) then take (Suc n) s else shrink_to_valid s n)"

text \<open>Go's \<^verbatim>\<open>int\<close> has 64 bits and wraps around.\<close>

definition wrap_int :: "int \<Rightarrow> int" where
  "wrap_int i = signed_take_bit 63 i"

abbreviation max_int :: int where
  "max_int \<equiv> 9223372036854775807"

text \<open>Decimal notation, as \<^verbatim>\<open>%d\<close> prints it.\<close>

definition digit_char :: "nat \<Rightarrow> char" where
  "digit_char n = ''0123456789'' ! (n mod 10)"

fun show_nat :: "nat \<Rightarrow> string" where
  "show_nat n = (if n < 10 then [digit_char n] else show_nat (n div 10) @ [digit_char n])"

declare show_nat.simps [simp del]

definition show_int :: "int \<Rightarrow> string" where
  "show_int i = (if i < 0 then ''-'' @ show_nat (nat (- i)) else show_nat (nat i))"

section \<open>Lemmas on strings\<close>

lemma find_Some_set [go_list]: "find P xs = Some x \<Longrightarrow> x \<in> set xs \<and> P x"
  by (induction xs) (auto split: if_splits)

lemma has_prefix_iff: "has_prefix s p \<longleftrightarrow> (\<exists>t. s = p @ t)"
  unfolding has_prefix_def by (metis append_eq_conv_conj)

lemma trim_space_Nil [simp]: "trim_space [] = []"
  by (simp add: trim_space_def trim_left_space_def trim_right_space_def strip_heads.simps)

lemma strip_heads_stop: "strip_heads encs s = [] \<or> match_len encs (strip_heads encs s) = 0"
  by (induction encs s rule: strip_heads.induct) (subst (1 2) strip_heads.simps, auto)

lemma strip_heads_fix: "s = [] \<or> match_len encs s = 0 \<Longrightarrow> strip_heads encs s = s"
  by (subst strip_heads.simps) auto

lemma strip_heads_idem [simp]: "strip_heads encs (strip_heads encs s) = strip_heads encs s"
  using strip_heads_stop by (rule strip_heads_fix)

lemma strip_heads_suffix: "\<exists>p. s = p @ strip_heads encs s"
proof (induction encs s rule: strip_heads.induct)
  case (1 encs s)
  show ?case
  proof (cases "s = [] \<or> match_len encs s = 0")
    case True
    then show ?thesis by (simp add: strip_heads_fix)
  next
    case False
    with 1 obtain p where "drop (match_len encs s) s = p @ strip_heads encs (drop (match_len encs s) s)"
      by blast
    moreover from False have "strip_heads encs s = strip_heads encs (drop (match_len encs s) s)"
      by (subst strip_heads.simps) simp
    ultimately have "s = (take (match_len encs s) s @ p) @ strip_heads encs s"
      by (metis append.assoc append_take_drop_id)
    then show ?thesis by blast
  qed
qed

lemma length_strip_heads: "length (strip_heads encs s) \<le> length s"
  using strip_heads_suffix [of s encs] by (metis le_add2 length_append)

lemma length_trim_space [go_string]: "length (trim_space s) \<le> length s"
  unfolding trim_space_def trim_left_space_def trim_right_space_def
  using length_strip_heads [of space_encodings s]
    length_strip_heads [of "map rev space_encodings" "rev (strip_heads space_encodings s)"]
  by simp

lemma trim_space_idem_right: "trim_right_space (trim_right_space s) = trim_right_space s"
  by (simp add: trim_right_space_def)

lemma match_len_0_iff: "[] \<notin> set encs \<Longrightarrow> match_len encs s = 0 \<longleftrightarrow> (\<forall>e \<in> set encs. \<not> has_prefix s e)"
  unfolding match_len_def
  by (auto split: option.splits dest: find_Some_set simp: find_None_iff)

lemma match_len_append: "[] \<notin> set encs \<Longrightarrow> match_len encs (p @ q) = 0 \<Longrightarrow> match_len encs p = 0"
  by (auto simp: match_len_0_iff has_prefix_iff)

lemma space_encodings_nonempty [simp]: "[] \<notin> set space_encodings" "[] \<notin> set (map rev space_encodings)"
  by (simp_all add: space_encodings_def)

lemma trim_right_space_prefix: "\<exists>q. s = trim_right_space s @ q"
proof -
  obtain p where "rev s = p @ strip_heads (map rev space_encodings) (rev s)"
    using strip_heads_suffix by blast
  then have "s = rev (strip_heads (map rev space_encodings) (rev s)) @ rev p"
    by (metis rev_append rev_rev_ident)
  then show ?thesis by (auto simp: trim_right_space_def)
qed

lemma trim_space_idem [simp, go_string]: "trim_space (trim_space s) = trim_space s"
proof -
  define l where "l = trim_left_space s"
  obtain q where q: "l = trim_right_space l @ q"
    using trim_right_space_prefix by blast
  have "l = [] \<or> match_len space_encodings l = 0"
    unfolding l_def trim_left_space_def by (rule strip_heads_stop)
  with q have "trim_right_space l = [] \<or> match_len space_encodings (trim_right_space l) = 0"
    by (metis append_is_Nil_conv match_len_append space_encodings_nonempty(1))
  then have "trim_left_space (trim_right_space l) = trim_right_space l"
    by (simp add: trim_left_space_def strip_heads_fix)
  then show ?thesis
    by (simp add: trim_space_def l_def [symmetric] trim_space_idem_right)
qed

lemma has_prefix_append [go_string, simp]: "has_prefix (p @ s) p"
  by (simp add: has_prefix_def)

lemma has_suffix_iff: "has_suffix s p \<longleftrightarrow> (\<exists>t. s = t @ p)"
  unfolding has_suffix_def
  by (metis append_take_drop_id diff_diff_cancel diff_le_self length_append length_drop
      append_eq_conv_conj add_diff_cancel_right' le_add2)

lemma str_contains_iff: "str_contains s sub \<longleftrightarrow> (\<exists>a b. s = a @ sub @ b)"
proof (induction s)
  case Nil
  then show ?case by auto
next
  case (Cons c cs)
  have "(\<exists>a b. c # cs = a @ sub @ b) \<longleftrightarrow> (\<exists>b. c # cs = sub @ b) \<or> (\<exists>a b. cs = a @ sub @ b)"
    by (metis append_Cons append_Nil list.exhaust list.inject)
  with Cons show ?case by (simp add: has_prefix_iff)
qed

lemma str_contains_self [simp]: "str_contains s s"
  by (auto simp: str_contains_iff intro: exI [of _ "[]"])

subsection \<open>Fields\<close>

text \<open>
  \<^verbatim>\<open>spaceless cur s\<close>: no white space starts inside \<^verbatim>\<open>cur\<close> when
  \<^verbatim>\<open>s\<close> follows it, which is what the scanner knows of the field it collects.
\<close>

definition spaceless :: "string \<Rightarrow> string \<Rightarrow> bool" where
  "spaceless cur s \<longleftrightarrow> (\<forall>i < length cur. space_len (drop i cur @ s) = 0)"

lemma space_len_0_iff: "space_len s = 0 \<longleftrightarrow> (\<forall>e \<in> set space_encodings. \<not> has_prefix s e)"
  by (simp add: space_len_def match_len_0_iff)

lemma space_len_append: "space_len (p @ q) = 0 \<Longrightarrow> space_len p = 0"
  unfolding space_len_def by (rule match_len_append) simp_all

lemma space_enc_blank: "e \<in> set space_encodings \<Longrightarrow> CHR '' '' \<in> set (tl e) \<Longrightarrow> False"
  by (auto simp: space_encodings_def)

lemma space_len_blank: "u \<noteq> [] \<Longrightarrow> space_len u = 0 \<Longrightarrow> space_len (u @ CHR '' '' # r) = 0"
proof -
  assume u: "u \<noteq> []" "space_len u = 0"
  have "\<not> has_prefix (u @ CHR '' '' # r) e" if e: "e \<in> set space_encodings" for e
  proof
    assume "has_prefix (u @ CHR '' '' # r) e"
    then obtain t where t: "u @ CHR '' '' # r = e @ t" by (auto simp: has_prefix_iff)
    consider "\<exists>v. u = e @ v" | v where "e = u @ CHR '' '' # v"
      using t by (auto simp: append_eq_append_conv2 Cons_eq_append_conv)
    then show False
    proof cases
      case 1
      with u e show ?thesis by (auto simp: space_len_0_iff has_prefix_iff)
    next
      case 2
      with u have "CHR '' '' \<in> set (tl e)" by (cases u) auto
      with e show ?thesis by (rule space_enc_blank)
    qed
  qed
  then show ?thesis by (simp add: space_len_0_iff)
qed

lemma spaceless_Nil [simp]: "spaceless [] s"
  by (simp add: spaceless_def)

lemma spaceless_tl: "spaceless (c # t) s \<Longrightarrow> spaceless t s"
  by (force simp: spaceless_def)

lemma spaceless_cut: "spaceless cur s \<Longrightarrow> spaceless cur []"
  by (auto simp: spaceless_def intro: space_len_append)

lemma spaceless_snoc:
  assumes "spaceless cur (c # s)" and "space_len (c # s) = 0"
  shows "spaceless (cur @ [c]) s"
  unfolding spaceless_def
proof (intro allI impI)
  fix i
  assume "i < length (cur @ [c])"
  then show "space_len (drop i (cur @ [c]) @ s) = 0"
    using assms by (cases "i < length cur") (auto simp: spaceless_def not_less less_Suc_eq)
qed

lemma fields_from_tokens:
  "spaceless cur s \<Longrightarrow> \<forall>t \<in> set (fields_from cur s). t \<noteq> [] \<and> spaceless t []"
proof (induction cur s rule: fields_from.induct)
  case (1 cur s)
  show ?case
  proof (cases "s = []")
    case True
    with 1 show ?thesis by (auto simp: fields_from.simps [of cur "[]"])
  next
    case False
    then obtain c r where s: "s = c # r" by (cases s) auto
    show ?thesis
    proof (cases "space_len s = 0")
      case True
      with False "1.IH"(1) "1.prems" s show ?thesis
        by (simp add: fields_from.simps [of cur "c # r"] spaceless_snoc)
    next
      case no: False
      with False "1.IH"(2) "1.prems" show ?thesis
        by (auto simp: fields_from.simps [of cur s] dest: spaceless_cut)
    qed
  qed
qed

lemma fields_tokens: "t \<in> set (go_fields s) \<Longrightarrow> t \<noteq> [] \<and> spaceless t []"
  using fields_from_tokens [of "[]" s] by (simp add: go_fields_def)

lemma fields_from_token:
  "spaceless t [] \<Longrightarrow> fields_from cur t = (if cur @ t = [] then [] else [cur @ t])"
proof (induction t arbitrary: cur)
  case Nil
  then show ?case by (simp add: fields_from.simps)
next
  case (Cons c t)
  then have "space_len (c # t) = 0" by (auto simp: spaceless_def)
  with Cons show ?case
    by (simp add: fields_from.simps [of cur "c # t"] spaceless_tl)
qed

lemma space_len_blank_head: "space_len (CHR '' '' # r) = 1"
  by (simp add: space_len_def match_len_def space_encodings_def has_prefix_def)

lemma fields_from_token_blank:
  "spaceless t [] \<Longrightarrow>
     fields_from cur (t @ CHR '' '' # r) = (if cur @ t = [] then [] else [cur @ t]) @ fields_from [] r"
proof (induction t arbitrary: cur)
  case Nil
  then show ?case by (simp add: fields_from.simps [of cur] space_len_blank_head)
next
  case (Cons c t)
  then have "space_len (c # t) = 0" by (auto simp: spaceless_def)
  then have "space_len (c # t @ CHR '' '' # r) = 0"
    using space_len_blank [of "c # t" r] by simp
  with Cons show ?case
    by (simp add: fields_from.simps [of cur "c # t @ CHR '' '' # r"] spaceless_tl)
qed

lemma fields_join_tokens:
  "\<forall>t \<in> set ts. t \<noteq> [] \<and> spaceless t [] \<Longrightarrow> go_fields (join '' '' ts) = ts"
  unfolding go_fields_def
  by (induction ts rule: induct_list012)
    (simp_all add: fields_from_token fields_from_token_blank fields_from.simps [of "[]" "[]"])

lemma fields_join_fields [go_string]: "go_fields (join '' '' (go_fields s)) = go_fields s"
  using fields_tokens by (intro fields_join_tokens) blast

lemma join_Nil_iff: "\<forall>t \<in> set ts. t \<noteq> [] \<Longrightarrow> join sep ts = [] \<longleftrightarrow> ts = []"
  by (cases ts rule: remdups_adj.cases) auto

lemma set_join: "set (join sep ts) \<subseteq> (\<Union>t \<in> set ts. set t) \<union> set sep"
  by (induction sep ts rule: join.induct) auto

lemma wrap_int_id [simp]: "- max_int - 1 \<le> i \<Longrightarrow> i \<le> max_int \<Longrightarrow> wrap_int i = i"
  unfolding wrap_int_def by (rule signed_take_bit_int_eq_self) simp_all

lemma wrap_int_overflow: "wrap_int (max_int + 1) = - max_int - 1"
  by (simp add: wrap_int_def)

lemma wrap_int_range: "- max_int - 1 \<le> wrap_int i \<and> wrap_int i \<le> max_int"
  unfolding wrap_int_def
  using signed_take_bit_int_greater_eq_minus_exp [of 63 i] signed_take_bit_int_less_exp [of 63 i] by simp

lemma digit_char_digit: "48 \<le> byte (digit_char n) \<and> byte (digit_char n) \<le> 57"
proof -
  have "list_all (\<lambda>m. 48 \<le> byte (''0123456789'' ! m) \<and> byte (''0123456789'' ! m) \<le> 57) [0..<10]"
    by code_simp
  then show ?thesis by (simp only: list_all_iff digit_char_def) simp
qed

lemma show_nat_digits: "c \<in> set (show_nat n) \<Longrightarrow> 48 \<le> byte c \<and> byte c \<le> 57"
proof (induction n rule: show_nat.induct)
  case (1 n)
  then show ?case
    using digit_char_digit [of n] by (auto simp: show_nat.simps [of n] split: if_splits)
qed

lemma shrink_to_valid_prefix: "n \<le> length s \<Longrightarrow> \<exists>k \<le> n. shrink_to_valid s n = take k s"
  by (induction n) (auto intro: le_SucI)

lemma length_shrink_to_valid [go_string]: "length (shrink_to_valid s n) \<le> n"
  by (induction n) auto

lemma valid_shrink_to_valid [go_string]: "valid_utf8 (shrink_to_valid s n)"
  by (induction n) (auto simp: valid_utf8_def)

section \<open>Lemmas on words, lists and maps\<close>

lemma uint64_Suc: "w \<noteq> - 1 \<Longrightarrow> unat (w + 1) = Suc (unat w)" for w :: uint64
  by (metis add.commute add_eq_0_iff unatSuc)

lemma nth_update_read [go_list]: "j < length xs \<Longrightarrow> xs[i := x] ! j = (if i = j then x else xs ! j)"
  by (cases "i = j") auto

lemma find_key_unique: "distinct (map f xs) \<Longrightarrow> x \<in> set xs \<Longrightarrow> find (\<lambda>y. f y = f x) xs = Some x"
  by (induction xs) force+

lemma map_upd_None_iff [go_list]: "(m(k := None)) x = Some v \<longleftrightarrow> x \<noteq> k \<and> m x = Some v"
  by auto

end
