(* ===== verification/Exec_Policy.thy ===== *)
theory Exec_Policy
  imports Go_Prelude
begin

text \<open>
  The run-scoped authority contract of \<^verbatim>\<open>internal/executionpolicy/policy.go\<close>:
  how a requested mode becomes a policy snapshot, how a child run derives its snapshot
  from its parent, and what a snapshot must satisfy to be accepted. A mode and a source are
  Go strings, the empty string being the unset mode. The lemmas show that resolution
  produces only accepted snapshots, that a chain of children never gains authority, and
  that full mode always rests on an explicit selection.
\<close>

type_synonym mode = string
type_synonym policy_source = string

abbreviation ModeReadOnly :: mode where "ModeReadOnly \<equiv> ''read-only''"
abbreviation ModeWorkspace :: mode where "ModeWorkspace \<equiv> ''workspace''"
abbreviation ModeFull :: mode where "ModeFull \<equiv> ''full''"

abbreviation SourceDefault :: policy_source where "SourceDefault \<equiv> ''default-workspace''"
abbreviation SourceLegacyMigration :: policy_source where
  "SourceLegacyMigration \<equiv> ''legacy-workspace-migration''"
abbreviation SourceUserSelected :: policy_source where "SourceUserSelected \<equiv> ''user-selected''"
abbreviation SourceInherited :: policy_source where "SourceInherited \<equiv> ''inherited''"
abbreviation SourceChildRestriction :: policy_source where
  "SourceChildRestriction \<equiv> ''child-restriction''"

record capabilities =
  FilesystemIsolation :: bool
  NetworkIsolation :: bool
  ProcessIsolation :: bool
  EnvironmentIsolation :: bool
  ProcessLimits :: bool
  MemoryLimits :: bool
  ProcessTreeKill :: bool
  EnvironmentFiltering :: bool
  Timeouts :: bool

definition HasIsolation :: "capabilities \<Rightarrow> bool" where
  "HasIsolation c \<longleftrightarrow>
     FilesystemIsolation c \<or> NetworkIsolation c \<or> ProcessIsolation c \<or> EnvironmentIsolation c"

definition zero_capabilities :: capabilities where
  "zero_capabilities = \<lparr>FilesystemIsolation = False, NetworkIsolation = False,
     ProcessIsolation = False, EnvironmentIsolation = False, ProcessLimits = False,
     MemoryLimits = False, ProcessTreeKill = False, EnvironmentFiltering = False,
     Timeouts = False\<rparr>"

record policy_request =
  rq_Mode :: mode
  rq_Revision :: uint64

record snapshot =
  sn_Mode :: mode
  sn_Revision :: uint64
  sn_Capabilities :: capabilities
  sn_ParentRevision :: uint64
  sn_FullSelectionRevision :: uint64
  sn_Source :: policy_source

definition zero_snapshot :: snapshot where
  "zero_snapshot = \<lparr>sn_Mode = [], sn_Revision = 0, sn_Capabilities = zero_capabilities,
     sn_ParentRevision = 0, sn_FullSelectionRevision = 0, sn_Source = []\<rparr>"

datatype policy_error =
    InvalidMode mode
  | InvalidChildMode mode
  | ChildExceedsParent mode mode
  | InvalidParent policy_error
  | ModeAndRevisionRequired
  | RootClaimsParent
  | ChildMustBindParent
  | InvalidSource policy_source
  | FullNeedsProvenance
  | FullRevisionMismatch
  | NonFullCarriesFullAuthority
  | UnsupportedLegacyAutoApprove string

definition validMode :: "mode \<Rightarrow> bool" where
  "validMode m \<longleftrightarrow> m = ModeReadOnly \<or> m = ModeWorkspace \<or> m = ModeFull"

definition modeRank :: "mode \<Rightarrow> int" where
  "modeRank m =
     (if m = ModeReadOnly then 0 else if m = ModeWorkspace then 1 else if m = ModeFull then 2 else - 1)"

definition validateLegacyAutoApprove :: "string \<Rightarrow> policy_error + unit" where
  "validateLegacyAutoApprove v =
     (if to_lower (trim_space v) \<in> {[], ''safe'', ''moderate'', ''all'', ''none''} then Inr ()
      else Inl (UnsupportedLegacyAutoApprove v))"

definition ValidateSnapshot :: "snapshot \<Rightarrow> policy_error + unit" where
  "ValidateSnapshot s =
     (if \<not> validMode (sn_Mode s) \<or> sn_Revision s = 0 then Inl ModeAndRevisionRequired
      else
        let finish =
          (if sn_Mode s = ModeFull \<and> sn_FullSelectionRevision s = 0 then Inl FullNeedsProvenance
           else if sn_Mode s = ModeFull \<and> sn_Source s = SourceUserSelected
                \<and> sn_FullSelectionRevision s \<noteq> sn_Revision s then Inl FullRevisionMismatch
           else if sn_Source s = SourceUserSelected \<and> sn_Mode s \<noteq> ModeFull
                \<and> sn_FullSelectionRevision s \<noteq> 0 then Inl NonFullCarriesFullAuthority
           else Inr ())
        in if sn_Source s = SourceDefault \<or> sn_Source s = SourceLegacyMigration
              \<or> sn_Source s = SourceUserSelected then
             (if sn_ParentRevision s \<noteq> 0 then Inl RootClaimsParent else finish)
           else if sn_Source s = SourceInherited \<or> sn_Source s = SourceChildRestriction then
             (if sn_ParentRevision s = 0 \<or> sn_ParentRevision s \<noteq> sn_Revision s
              then Inl ChildMustBindParent else finish)
           else Inl (InvalidSource (sn_Source s)))"

definition Resolve :: "policy_request \<Rightarrow> string \<Rightarrow> capabilities \<Rightarrow> policy_error + snapshot" where
  "Resolve request legacy caps =
     (let build = (\<lambda>m src.
        if \<not> validMode m then Inl (InvalidMode m)
        else
          let rev = (if rq_Revision request = 0 then 1 else rq_Revision request) in
          Inr \<lparr>sn_Mode = m, sn_Revision = rev, sn_Capabilities = caps, sn_ParentRevision = 0,
            sn_FullSelectionRevision =
              (if m = ModeFull \<and> src = SourceUserSelected then rev else 0),
            sn_Source = src\<rparr>)
      in if rq_Mode request = [] then
           (case validateLegacyAutoApprove legacy of
              Inl e \<Rightarrow> Inl e
            | Inr _ \<Rightarrow> build ModeWorkspace
                (if trim_space legacy \<noteq> [] then SourceLegacyMigration else SourceDefault))
         else build (rq_Mode request) SourceUserSelected)"

definition ResolveChild :: "snapshot \<Rightarrow> mode \<Rightarrow> capabilities \<Rightarrow> policy_error + snapshot" where
  "ResolveChild parent requested caps =
     (case ValidateSnapshot parent of
        Inl e \<Rightarrow> Inl (InvalidParent e)
      | Inr _ \<Rightarrow>
          let m = (if requested = [] then sn_Mode parent else requested);
              src = (if requested = [] then SourceInherited else SourceChildRestriction)
          in if \<not> validMode m then Inl (InvalidChildMode m)
             else if modeRank m > modeRank (sn_Mode parent)
             then Inl (ChildExceedsParent m (sn_Mode parent))
             else Inr \<lparr>sn_Mode = m, sn_Revision = sn_Revision parent, sn_Capabilities = caps,
                    sn_ParentRevision = sn_Revision parent,
                    sn_FullSelectionRevision = sn_FullSelectionRevision parent,
                    sn_Source = src\<rparr>)"

text \<open>
  \<^verbatim>\<open>deriveChildExecutionPolicy\<close> of \<^verbatim>\<open>internal/agent/execution_policy.go\<close>:
  a nil pointer is \<^const>\<open>None\<close>, a failed derivation is the zero snapshot (which no
  boundary accepts), and the runner's capabilities are an argument, \<^const>\<open>None\<close>
  for a nil runner.
\<close>

definition deriveChildExecutionPolicy ::
  "snapshot option \<Rightarrow> mode \<Rightarrow> capabilities option \<Rightarrow> snapshot option" where
  "deriveChildExecutionPolicy parent requested runner =
     (let caps = (case runner of None \<Rightarrow> zero_capabilities | Some c \<Rightarrow> c) in
      case parent of
        None \<Rightarrow>
          if requested = [] then None
          else (case Resolve \<lparr>rq_Mode = requested, rq_Revision = 0\<rparr> [] caps of
                  Inl _ \<Rightarrow> Some zero_snapshot
                | Inr child \<Rightarrow> Some child)
      | Some p \<Rightarrow>
          (case ResolveChild p requested caps of
             Inl _ \<Rightarrow> Some zero_snapshot
           | Inr child \<Rightarrow> Some child))"

text \<open>A chain of nested children: each level restricts the snapshot of the one above.\<close>

fun resolve_chain :: "snapshot \<Rightarrow> (mode \<times> capabilities) list \<Rightarrow> policy_error + snapshot" where
  "resolve_chain s [] = Inr s"
| "resolve_chain s ((m, c) # ms) =
     (case ResolveChild s m c of Inl e \<Rightarrow> Inl e | Inr t \<Rightarrow> resolve_chain t ms)"

section \<open>Lemmas\<close>

definition accepted :: "snapshot \<Rightarrow> bool" where
  "accepted s \<longleftrightarrow> ValidateSnapshot s = Inr ()"

lemma accepted_iff:
  "accepted s \<longleftrightarrow>
     validMode (sn_Mode s) \<and> sn_Revision s \<noteq> 0
     \<and> (if sn_Source s \<in> {SourceDefault, SourceLegacyMigration, SourceUserSelected}
        then sn_ParentRevision s = 0
        else sn_Source s \<in> {SourceInherited, SourceChildRestriction}
          \<and> sn_ParentRevision s = sn_Revision s)
     \<and> (sn_Mode s = ModeFull \<longrightarrow> sn_FullSelectionRevision s \<noteq> 0
          \<and> (sn_Source s = SourceUserSelected \<longrightarrow> sn_FullSelectionRevision s = sn_Revision s))
     \<and> (sn_Source s = SourceUserSelected \<longrightarrow> sn_Mode s \<noteq> ModeFull \<longrightarrow> sn_FullSelectionRevision s = 0)"
  unfolding accepted_def ValidateSnapshot_def Let_def by auto

lemma modeRank_le_2: "modeRank m \<le> 2"
  by (simp add: modeRank_def)

lemma full_rank: "validMode m \<Longrightarrow> modeRank m = 2 \<longleftrightarrow> m = ModeFull"
  by (auto simp: validMode_def modeRank_def)

lemma Resolve_accepted: "Resolve rq legacy caps = Inr s \<Longrightarrow> accepted s"
  by (auto simp: Resolve_def Let_def accepted_iff validMode_def split: if_splits sum.splits)

lemma Resolve_mode:
  assumes "Resolve rq legacy caps = Inr s"
  shows "sn_Mode s = (if rq_Mode rq = [] then ModeWorkspace else rq_Mode rq)"
    and "sn_FullSelectionRevision s \<noteq> 0 \<longleftrightarrow> rq_Mode rq = ModeFull"
  using assms by (auto simp: Resolve_def Let_def split: if_splits sum.splits)

lemma ResolveChild_facts:
  assumes "ResolveChild p m caps = Inr c"
  shows "accepted p" "accepted c" "modeRank (sn_Mode c) \<le> modeRank (sn_Mode p)"
    and "sn_Revision c = sn_Revision p" "sn_ParentRevision c = sn_Revision p"
    and "sn_FullSelectionRevision c = sn_FullSelectionRevision p"
    and "sn_Source c \<in> {SourceInherited, SourceChildRestriction}"
proof -
  from assms have p: "accepted p"
    by (auto simp: ResolveChild_def accepted_def split: sum.splits)
  from assms have c: "validMode (sn_Mode c) \<and> modeRank (sn_Mode c) \<le> modeRank (sn_Mode p)
      \<and> sn_Revision c = sn_Revision p \<and> sn_ParentRevision c = sn_Revision p
      \<and> sn_FullSelectionRevision c = sn_FullSelectionRevision p
      \<and> sn_Source c \<in> {SourceInherited, SourceChildRestriction}"
    by (auto simp: ResolveChild_def Let_def split: sum.splits if_splits)
  have "sn_Mode c = ModeFull \<Longrightarrow> sn_Mode p = ModeFull"
    using c p modeRank_le_2 [of "sn_Mode p"] full_rank [of "sn_Mode p"] full_rank [of "sn_Mode c"]
    by (auto simp: accepted_iff)
  with c p show "accepted c"
    by (auto simp: accepted_iff)
  from p c show "accepted p" "modeRank (sn_Mode c) \<le> modeRank (sn_Mode p)"
    "sn_Revision c = sn_Revision p" "sn_ParentRevision c = sn_Revision p"
    "sn_FullSelectionRevision c = sn_FullSelectionRevision p"
    "sn_Source c \<in> {SourceInherited, SourceChildRestriction}"
    by blast+
qed

lemma resolve_chain_facts:
  "accepted s \<Longrightarrow> resolve_chain s ms = Inr t \<Longrightarrow>
     accepted t \<and> modeRank (sn_Mode t) \<le> modeRank (sn_Mode s) \<and> sn_Revision t = sn_Revision s
     \<and> sn_FullSelectionRevision t = sn_FullSelectionRevision s"
proof (induction ms arbitrary: s)
  case (Cons a ms)
  obtain m c where a: "a = (m, c)" by force
  with Cons.prems obtain u where u: "ResolveChild s m c = Inr u" "resolve_chain u ms = Inr t"
    by (auto split: sum.splits)
  show ?case
    using ResolveChild_facts [OF u(1)] Cons.IH [OF ResolveChild_facts(2) [OF u(1)] u(2)] by auto
qed simp

section \<open>Properties\<close>

text \<open>
  C1. Authority never grows along a chain of nested child runs: whatever the request and the
  legacy setting were and whatever modes the children ask for, a snapshot obtained by
  resolving a request and then any number of child derivations is accepted by
  ValidateSnapshot, keeps the revision, ranks no higher than the root's mode, and is in
  full mode only if the user's request named full mode itself.
\<close>

theorem child_chain_never_escalates:
  assumes "Resolve rq legacy caps = Inr root" and "resolve_chain root ms = Inr leaf"
  shows "ValidateSnapshot leaf = Inr ()
    \<and> modeRank (sn_Mode leaf) \<le> modeRank (sn_Mode root)
    \<and> sn_Revision leaf = sn_Revision root
    \<and> (sn_Mode leaf = ModeFull \<longrightarrow> rq_Mode rq = ModeFull)"
proof -
  have root: "accepted root"
    using assms(1) by (rule Resolve_accepted)
  note leaf = resolve_chain_facts [OF root assms(2)]
  have "sn_Mode leaf = ModeFull \<Longrightarrow> sn_FullSelectionRevision root \<noteq> 0"
    using leaf by (auto simp: accepted_iff)
  then show ?thesis
    using leaf Resolve_mode(2) [OF assms(1)] by (auto simp: accepted_def)
qed

theorem child_chain_never_escalates_witness:
  "\<exists>root leaf. Resolve \<lparr>rq_Mode = ModeFull, rq_Revision = 7\<rparr> [] zero_capabilities = Inr root
     \<and> resolve_chain root [([], zero_capabilities), (ModeReadOnly, zero_capabilities)] = Inr leaf
     \<and> ValidateSnapshot leaf = Inr () \<and> modeRank (sn_Mode leaf) \<le> modeRank (sn_Mode root)"
proof -
  let ?root = "\<lparr>sn_Mode = ModeFull, sn_Revision = 7, sn_Capabilities = zero_capabilities,
    sn_ParentRevision = 0, sn_FullSelectionRevision = 7, sn_Source = SourceUserSelected\<rparr>"
  let ?leaf = "\<lparr>sn_Mode = ModeReadOnly, sn_Revision = 7, sn_Capabilities = zero_capabilities,
    sn_ParentRevision = 7, sn_FullSelectionRevision = 7, sn_Source = SourceChildRestriction\<rparr>"
  have r: "Resolve \<lparr>rq_Mode = ModeFull, rq_Revision = 7\<rparr> [] zero_capabilities = Inr ?root"
    by (simp add: Resolve_def validMode_def)
  have l: "resolve_chain ?root [([], zero_capabilities), (ModeReadOnly, zero_capabilities)] = Inr ?leaf"
    by (simp add: ResolveChild_def ValidateSnapshot_def validMode_def modeRank_def Let_def)
  show ?thesis
    using child_chain_never_escalates [OF r l] r l by blast
qed

text \<open>
  C2. The optional derivation used by the agent fails closed: with a parent, the derived
  policy is either a snapshot that validates, is bound to the parent's revision and ranks
  no higher than the parent, or the zero snapshot, which ValidateSnapshot rejects; without
  a parent, an absent request stays absent and an explicit one never yields an accepted
  snapshot of another mode.
\<close>

theorem derive_child_fails_closed:
  "case deriveChildExecutionPolicy parent requested runner of
     None \<Rightarrow> parent = None \<and> requested = []
   | Some c \<Rightarrow>
       (c = zero_snapshot \<and> ValidateSnapshot c = Inl ModeAndRevisionRequired)
       \<or> (ValidateSnapshot c = Inr ()
          \<and> (case parent of
               None \<Rightarrow> sn_Mode c = requested
             | Some p \<Rightarrow> ValidateSnapshot p = Inr () \<and> sn_ParentRevision c = sn_Revision p
                 \<and> modeRank (sn_Mode c) \<le> modeRank (sn_Mode p)))"
proof -
  have zero: "ValidateSnapshot zero_snapshot = Inl ModeAndRevisionRequired"
    by (simp add: ValidateSnapshot_def zero_snapshot_def validMode_def)
  have root: "ValidateSnapshot c = Inr () \<and> sn_Mode c = requested"
    if "requested \<noteq> []" "Resolve \<lparr>rq_Mode = requested, rq_Revision = 0\<rparr> [] caps = Inr c" for caps c
    using that Resolve_accepted [OF that(2)] Resolve_mode(1) [OF that(2)] by (simp add: accepted_def)
  have child: "ValidateSnapshot c = Inr () \<and> ValidateSnapshot p = Inr ()
      \<and> sn_ParentRevision c = sn_Revision p \<and> modeRank (sn_Mode c) \<le> modeRank (sn_Mode p)"
    if "ResolveChild p requested caps = Inr c" for p caps c
    using ResolveChild_facts [OF that] by (simp add: accepted_def)
  show ?thesis
    unfolding deriveChildExecutionPolicy_def Let_def
    using zero root child by (auto split: option.split sum.split)
qed

end
