(* ===== verification/Approval_Broker.thy ===== *)
theory Approval_Broker
  imports Exec_Policy
begin

text \<open>
  The approval handshake of \<^verbatim>\<open>internal/approval\<close>: the data of
  \<^verbatim>\<open>approval.go\<close> and every operation of the \<^verbatim>\<open>Broker\<close> of
  \<^verbatim>\<open>broker.go\<close>. Each operation holds the broker's mutex, so it is one step
  of a state \<^verbatim>\<open>broker\<close>; the reading of the clock, the random identifiers and
  the caller's arguments are its inputs. \<^verbatim>\<open>Await\<close> releases the mutex while it
  waits, so it is three steps: its locked prologue, and one of the two arms of its select.

  A request is shared by pointer between the map, its timers and the waiting callers, so
  requests live in a store: \<^verbatim>\<open>b_heap\<close> lists every request ever opened, a
  pointer is an index into it, and \<^verbatim>\<open>b_requests\<close> maps identifiers to
  pointers. A grant's pointer is only ever compared, so a grant carries its own as
  \<^verbatim>\<open>g_ref\<close>. Go maps are association lists with distinct keys. Closing a
  closed channel panics in Go; the model records it in \<^verbatim>\<open>b_panic\<close>.
\<close>

type_synonym outcome = string
type_synonym resolution_reason = string
type_synonym ref = nat

abbreviation OutcomeAllowOnce :: outcome where "OutcomeAllowOnce \<equiv> ''allow_once''"
abbreviation OutcomeDeny :: outcome where "OutcomeDeny \<equiv> ''deny''"

abbreviation ReasonUser :: resolution_reason where "ReasonUser \<equiv> ''user''"
abbreviation ReasonExpired :: resolution_reason where "ReasonExpired \<equiv> ''expired''"
abbreviation ReasonContextCanceled :: resolution_reason where
  "ReasonContextCanceled \<equiv> ''context_canceled''"
abbreviation ReasonSessionCanceled :: resolution_reason where
  "ReasonSessionCanceled \<equiv> ''session_canceled''"
abbreviation ReasonBrokerShutdown :: resolution_reason where
  "ReasonBrokerShutdown \<equiv> ''broker_shutdown''"

abbreviation ApprovalSourceUser :: string where "ApprovalSourceUser \<equiv> ''user-prompt''"
abbreviation ApprovalSourceUserSelectedFull :: string where
  "ApprovalSourceUserSelectedFull \<equiv> ''user-selected-full''"

record draft =
  d_SessionID :: string
  d_SessionRevision :: uint64
  d_RunID :: string
  d_ToolCallID :: string
  d_ToolName :: string
  d_ExecutorID :: string
  d_RedactedInput :: string
  d_InputDigest :: string
  d_ExecutionPolicyRevision :: uint64
  d_FullSelectionRevision :: uint64
  d_DangerLevel :: string
  d_Scope :: string
  d_RememberAllowed :: bool

record pending =
  p_ID :: string
  p_SessionID :: string
  p_SessionRevision :: uint64
  p_RunID :: string
  p_ToolCallID :: string
  p_ToolName :: string
  p_ExecutorID :: string
  p_RedactedInput :: string
  p_InputDigest :: string
  p_ExecutionPolicyRevision :: uint64
  p_FullSelectionRevision :: uint64
  p_ApprovalSource :: string
  p_DangerLevel :: string
  p_Scope :: string
  p_RememberAllowed :: bool
  p_CreatedAt :: gotime
  p_ExpiresAt :: gotime

record decision =
  dc_ApprovalID :: string
  dc_SessionID :: string
  dc_Outcome :: outcome

record resolution =
  rs_ApprovalID :: string
  rs_Outcome :: outcome
  rs_Reason :: resolution_reason
  rs_ResolvedAt :: gotime

definition zero_resolution :: resolution where
  "zero_resolution = \<lparr>rs_ApprovalID = [], rs_Outcome = [], rs_Reason = [], rs_ResolvedAt = zero_time\<rparr>"

definition Allowed :: "resolution \<Rightarrow> bool" where
  "Allowed r \<longleftrightarrow> rs_Outcome r = OutcomeAllowOnce \<and> rs_Reason r = ReasonUser"

datatype approval_error =
    ErrInvalidDraft string
  | ErrInvalidDecision
  | ErrApprovalNotFound
  | ErrAlreadyResolved
  | ErrApprovalExpired
  | ErrSessionCanceled
  | ErrBrokerClosed
  | ErrIDCollision
  | ErrInvalidFullModeGrant
  | ErrGenerator
  | ErrEmptyID
  | ContextCanceled
  | ContextDeadlineExceeded

text \<open>What the timer of an entry will run: the expiry callback or the later removal.\<close>

datatype timer = ExpireTimer goduration | PurgeTimer goduration

record request =
  re_pending :: pending
  re_done_closed :: bool
  re_resolved :: bool
  re_resolution :: resolution
  re_timer :: "timer option"

record full_mode_grant =
  g_ref :: ref
  g_pending :: pending
  g_policy :: snapshot
  g_timer :: "timer option"

record broker =
  b_ttl :: goduration
  b_requests :: "(string \<times> ref) list"
  b_heap :: "request list"
  b_grants :: "(string \<times> full_mode_grant) list"
  b_next_ref :: ref
  b_canceled :: "string list"
  b_closed :: bool
  b_panic :: bool

definition DefaultTTL :: goduration where
  "DefaultTTL = 5 * nanosecond_per_minute"

definition maxIDAttempts :: nat where "maxIDAttempts = 16"
definition maxRedactedInputBytes :: nat where "maxRedactedInputBytes = 4096"

definition NewBroker :: "goduration \<Rightarrow> broker" where
  "NewBroker ttl = \<lparr>b_ttl = (if ttl \<le> 0 then DefaultTTL else ttl), b_requests = [], b_heap = [],
     b_grants = [], b_next_ref = 0, b_canceled = [], b_closed = False, b_panic = False\<rparr>"

section \<open>Validation\<close>

definition validateDraft :: "draft \<Rightarrow> approval_error + unit" where
  "validateDraft d =
     (if trim_space (d_SessionID d) = [] then Inl (ErrInvalidDraft ''session id is required'')
      else if trim_space (d_RunID d) = [] then Inl (ErrInvalidDraft ''run id is required'')
      else if trim_space (d_ToolName d) = [] then Inl (ErrInvalidDraft ''tool name is required'')
      else if length (d_ToolCallID d) > 512 then Inl (ErrInvalidDraft ''tool call id is too large'')
      else if length (d_RedactedInput d) > maxRedactedInputBytes
      then Inl (ErrInvalidDraft ''redacted input exceeds 4096 bytes'')
      else Inr ())"

definition validFullModeInputDigest :: "string \<Rightarrow> bool" where
  "validFullModeInputDigest v \<longleftrightarrow>
     has_prefix v ''sha256:'' \<and>
     (let encoded = trim_prefix v ''sha256:'' in
      length encoded = 64 \<and> to_lower encoded = encoded \<and> hex_decodable encoded)"

definition validateFullModePolicy :: "snapshot \<Rightarrow> approval_error + unit" where
  "validateFullModePolicy policy =
     (if ValidateSnapshot policy \<noteq> Inr () \<or> sn_Mode policy \<noteq> ModeFull
         \<or> sn_FullSelectionRevision policy = 0 then Inl ErrInvalidFullModeGrant
      else if sn_Source policy = SourceUserSelected then
        (if sn_FullSelectionRevision policy \<noteq> sn_Revision policy then Inl ErrInvalidFullModeGrant else Inr ())
      else if sn_Source policy = SourceInherited \<or> sn_Source policy = SourceChildRestriction then
        (if sn_ParentRevision policy \<noteq> sn_Revision policy then Inl ErrInvalidFullModeGrant else Inr ())
      else Inl ErrInvalidFullModeGrant)"

definition validateFullModeDraft :: "draft \<Rightarrow> snapshot \<Rightarrow> approval_error + unit" where
  "validateFullModeDraft d policy =
     (if validateDraft d \<noteq> Inr () \<or> trim_space (d_ToolCallID d) = [] \<or> trim_space (d_ExecutorID d) = []
         \<or> \<not> validFullModeInputDigest (d_InputDigest d)
         \<or> d_ExecutionPolicyRevision d \<noteq> sn_Revision policy
         \<or> d_FullSelectionRevision d \<noteq> sn_FullSelectionRevision policy
         \<or> d_RememberAllowed d
      then Inl ErrInvalidFullModeGrant else Inr ())"

definition fullModeDraftMatchesPending :: "draft \<Rightarrow> pending \<Rightarrow> bool" where
  "fullModeDraftMatchesPending d p \<longleftrightarrow>
     d_SessionID d = p_SessionID p \<and> d_SessionRevision d = p_SessionRevision p
     \<and> d_RunID d = p_RunID p \<and> d_ToolCallID d = p_ToolCallID p \<and> d_ToolName d = p_ToolName p
     \<and> d_ExecutorID d = p_ExecutorID p \<and> d_RedactedInput d = p_RedactedInput p
     \<and> d_InputDigest d = p_InputDigest p
     \<and> d_ExecutionPolicyRevision d = p_ExecutionPolicyRevision p
     \<and> d_FullSelectionRevision d = p_FullSelectionRevision p
     \<and> d_DangerLevel d = p_DangerLevel p \<and> d_Scope d = p_Scope p
     \<and> \<not> d_RememberAllowed d \<and> \<not> p_RememberAllowed p"

definition sameFullModePending :: "pending \<Rightarrow> pending \<Rightarrow> bool" where
  "sameFullModePending l r \<longleftrightarrow>
     (l\<lparr>p_CreatedAt := zero_time, p_ExpiresAt := zero_time\<rparr>
        = r\<lparr>p_CreatedAt := zero_time, p_ExpiresAt := zero_time\<rparr>)
     \<and> p_CreatedAt l = p_CreatedAt r \<and> p_ExpiresAt l = p_ExpiresAt r"

section \<open>Identifiers\<close>

text \<open>
  \<^verbatim>\<open>allocateIDLocked\<close>: the generator is called once per attempt;
  \<^verbatim>\<open>gen i\<close> is what its call number \<^verbatim>\<open>i\<close> returns,
  \<^const>\<open>None\<close> for an error of the random source.
\<close>

fun allocate_from :: "broker \<Rightarrow> (nat \<Rightarrow> string option) \<Rightarrow> nat \<Rightarrow> nat \<Rightarrow> approval_error + string" where
  "allocate_from b gen attempt 0 = Inl ErrIDCollision"
| "allocate_from b gen attempt (Suc left) =
     (case gen attempt of
        None \<Rightarrow> Inl ErrGenerator
      | Some newid \<Rightarrow>
          if newid = [] then Inl ErrEmptyID
          else if map_of (b_requests b) newid = None \<and> map_of (b_grants b) newid = None then Inr newid
          else allocate_from b gen (Suc attempt) left)"

definition allocateIDLocked :: "broker \<Rightarrow> (nat \<Rightarrow> string option) \<Rightarrow> approval_error + string" where
  "allocateIDLocked b gen = allocate_from b gen 0 maxIDAttempts"

section \<open>Resolving an entry\<close>

definition resolveLocked :: "gotime \<Rightarrow> outcome \<Rightarrow> resolution_reason \<Rightarrow> request \<Rightarrow> request" where
  "resolveLocked now out reason e =
     e\<lparr>re_resolution := \<lparr>rs_ApprovalID = p_ID (re_pending e), rs_Outcome = out, rs_Reason = reason,
          rs_ResolvedAt = now\<rparr>,
       re_resolved := True, re_done_closed := True\<rparr>"

text \<open>The same through the pointer, with the panic of a double close.\<close>

definition resolve_at :: "gotime \<Rightarrow> outcome \<Rightarrow> resolution_reason \<Rightarrow> ref \<Rightarrow> broker \<Rightarrow> broker" where
  "resolve_at now out reason r b =
     b\<lparr>b_heap := (b_heap b)[r := resolveLocked now out reason (b_heap b ! r)],
       b_panic := (b_panic b \<or> length (b_heap b) \<le> r \<or> re_done_closed (b_heap b ! r))\<rparr>"

definition deniedResolution :: "gotime \<Rightarrow> string \<Rightarrow> resolution_reason \<Rightarrow> resolution" where
  "deniedResolution now aid reason =
     \<lparr>rs_ApprovalID = aid, rs_Outcome = OutcomeDeny, rs_Reason = reason, rs_ResolvedAt = now\<rparr>"

definition resolutionError :: "resolution \<Rightarrow> approval_error option" where
  "resolutionError r =
     (if rs_Reason r = ReasonExpired then Some ErrApprovalExpired
      else if rs_Reason r = ReasonContextCanceled then Some ContextCanceled
      else if rs_Reason r = ReasonSessionCanceled then Some ErrSessionCanceled
      else if rs_Reason r = ReasonBrokerShutdown then Some ErrBrokerClosed
      else None)"

text \<open>The pointer of the request an identifier names, if it belongs to the session.\<close>

definition lookup_owned :: "broker \<Rightarrow> string \<Rightarrow> string \<Rightarrow> ref option" where
  "lookup_owned b sid aid =
     (case map_of (b_requests b) aid of
        None \<Rightarrow> None
      | Some r \<Rightarrow> if p_SessionID (re_pending (b_heap b ! r)) = sid then Some r else None)"

section \<open>Operations\<close>

definition pending_of_draft :: "string \<Rightarrow> draft \<Rightarrow> gotime \<Rightarrow> goduration \<Rightarrow> pending" where
  "pending_of_draft newid d now ttl =
     \<lparr>p_ID = newid, p_SessionID = d_SessionID d, p_SessionRevision = d_SessionRevision d,
      p_RunID = d_RunID d, p_ToolCallID = d_ToolCallID d, p_ToolName = d_ToolName d,
      p_ExecutorID = d_ExecutorID d, p_RedactedInput = d_RedactedInput d,
      p_InputDigest = d_InputDigest d, p_ExecutionPolicyRevision = d_ExecutionPolicyRevision d,
      p_FullSelectionRevision = d_FullSelectionRevision d, p_ApprovalSource = ApprovalSourceUser,
      p_DangerLevel = d_DangerLevel d, p_Scope = d_Scope d, p_RememberAllowed = d_RememberAllowed d,
      p_CreatedAt = now, p_ExpiresAt = now + ttl\<rparr>"

definition Open :: "gotime \<Rightarrow> (nat \<Rightarrow> string option) \<Rightarrow> draft \<Rightarrow> broker \<Rightarrow> broker \<times> (approval_error + pending)" where
  "Open now gen d b =
     (case validateDraft d of
        Inl e \<Rightarrow> (b, Inl e)
      | Inr _ \<Rightarrow>
          if b_closed b then (b, Inl ErrBrokerClosed)
          else if d_SessionID d \<in> set (b_canceled b) then (b, Inl ErrSessionCanceled)
          else (case allocateIDLocked b gen of
                  Inl e \<Rightarrow> (b, Inl e)
                | Inr newid \<Rightarrow>
                    let p = pending_of_draft newid d now (b_ttl b);
                        entry = \<lparr>re_pending = p, re_done_closed = False, re_resolved = False,
                          re_resolution = zero_resolution, re_timer = Some (ExpireTimer (b_ttl b))\<rparr>
                    in (b\<lparr>b_heap := b_heap b @ [entry],
                          b_requests := (newid, length (b_heap b)) # b_requests b\<rparr>, Inr p)))"

definition IssueFullModeGrant ::
  "gotime \<Rightarrow> (nat \<Rightarrow> string option) \<Rightarrow> draft \<Rightarrow> snapshot \<Rightarrow> broker \<Rightarrow> broker \<times> (approval_error + pending)" where
  "IssueFullModeGrant now gen d policy b =
     (case validateFullModePolicy policy of
        Inl e \<Rightarrow> (b, Inl e)
      | Inr _ \<Rightarrow>
     (case validateFullModeDraft d policy of
        Inl e \<Rightarrow> (b, Inl e)
      | Inr _ \<Rightarrow>
          if b_closed b then (b, Inl ErrBrokerClosed)
          else if d_SessionID d \<in> set (b_canceled b) then (b, Inl ErrSessionCanceled)
          else (case allocateIDLocked b gen of
                  Inl e \<Rightarrow> (b, Inl e)
                | Inr newid \<Rightarrow>
                    let p = (pending_of_draft newid d now (b_ttl b))
                          \<lparr>p_ExecutionPolicyRevision := sn_Revision policy,
                           p_FullSelectionRevision := sn_FullSelectionRevision policy,
                           p_ApprovalSource := ApprovalSourceUserSelectedFull,
                           p_RememberAllowed := False\<rparr>;
                        entry = \<lparr>g_ref = b_next_ref b, g_pending = p, g_policy = policy,
                          g_timer = Some (ExpireTimer (b_ttl b))\<rparr>
                    in (b\<lparr>b_grants := (newid, entry) # b_grants b,
                          b_next_ref := Suc (b_next_ref b)\<rparr>, Inr p))))"

definition delete_grant :: "string \<Rightarrow> broker \<Rightarrow> broker" where
  "delete_grant gid b = b\<lparr>b_grants := filter (\<lambda>(k, _). k \<noteq> gid) (b_grants b)\<rparr>"

definition ConsumeFullModeGrant ::
  "gotime \<Rightarrow> pending \<Rightarrow> draft \<Rightarrow> snapshot \<Rightarrow> broker \<Rightarrow> broker \<times> approval_error option" where
  "ConsumeFullModeGrant now grant expected policy b =
     (case validateFullModePolicy policy of
        Inl e \<Rightarrow> (b, Some e)
      | Inr _ \<Rightarrow>
     (case validateFullModeDraft expected policy of
        Inl e \<Rightarrow> (b, Some e)
      | Inr _ \<Rightarrow>
          if b_closed b then (b, Some ErrBrokerClosed)
          else (case map_of (b_grants b) (p_ID grant) of
                  None \<Rightarrow> (b, Some ErrApprovalNotFound)
                | Some entry \<Rightarrow>
                    if p_ID grant = [] then (b, Some ErrApprovalNotFound)
                    else if d_SessionID expected \<in> set (b_canceled b)
                    then (delete_grant (p_ID grant) b, Some ErrSessionCanceled)
                    else if \<not> now < p_ExpiresAt (g_pending entry)
                    then (delete_grant (p_ID grant) b, Some ErrApprovalExpired)
                    else if \<not> sameFullModePending grant (g_pending entry)
                         \<or> \<not> fullModeDraftMatchesPending expected (g_pending entry)
                         \<or> policy \<noteq> g_policy entry
                    then (b, Some ErrInvalidFullModeGrant)
                    else (delete_grant (p_ID grant) b, None))))"

definition Resolve_decision :: "gotime \<Rightarrow> decision \<Rightarrow> broker \<Rightarrow> broker \<times> resolution \<times> approval_error option" where
  "Resolve_decision now dec b =
     (if dc_Outcome dec \<noteq> OutcomeAllowOnce \<and> dc_Outcome dec \<noteq> OutcomeDeny
      then (b, zero_resolution, Some ErrInvalidDecision)
      else if b_closed b
      then (b, deniedResolution now (dc_ApprovalID dec) ReasonBrokerShutdown, Some ErrBrokerClosed)
      else (case lookup_owned b (dc_SessionID dec) (dc_ApprovalID dec) of
              None \<Rightarrow> (b, zero_resolution, Some ErrApprovalNotFound)
            | Some r \<Rightarrow>
                let e = b_heap b ! r in
                if \<not> re_resolved e \<and> \<not> now < p_ExpiresAt (re_pending e) then
                  (let b' = resolve_at now OutcomeDeny ReasonExpired r b
                   in (b', re_resolution (b_heap b' ! r), Some ErrApprovalExpired))
                else if re_resolved e then (b, re_resolution e, Some ErrAlreadyResolved)
                else (let b' = resolve_at now (dc_Outcome dec) ReasonUser r b
                      in (b', re_resolution (b_heap b' ! r), None))))"

text \<open>\<^verbatim>\<open>Await\<close>: the locked prologue, which returns or leaves the caller blocked on a request.\<close>

datatype await_outcome = AwaitReturn resolution "approval_error option" | AwaitBlocked ref

definition Await_begin :: "gotime \<Rightarrow> string \<Rightarrow> string \<Rightarrow> broker \<Rightarrow> broker \<times> await_outcome" where
  "Await_begin now sid aid b =
     (if b_closed b then (b, AwaitReturn (deniedResolution now aid ReasonBrokerShutdown) (Some ErrBrokerClosed))
      else (case lookup_owned b sid aid of
              None \<Rightarrow> (b, AwaitReturn zero_resolution (Some ErrApprovalNotFound))
            | Some r \<Rightarrow>
                let e = b_heap b ! r;
                    b' = (if \<not> re_resolved e \<and> \<not> now < p_ExpiresAt (re_pending e)
                          then resolve_at now OutcomeDeny ReasonExpired r b else b);
                    e' = b_heap b' ! r
                in if re_resolved e' then (b', AwaitReturn (re_resolution e') (resolutionError (re_resolution e')))
                   else (b', AwaitBlocked r)))"

text \<open>The arm of the select that waits for the channel: \<^verbatim>\<open>readResolution\<close>.\<close>

definition readResolution :: "ref \<Rightarrow> broker \<Rightarrow> resolution \<times> approval_error option" where
  "readResolution r b =
     (let res = re_resolution (b_heap b ! r) in (res, resolutionError res))"

definition resolveSystem ::
  "gotime \<Rightarrow> string \<Rightarrow> string \<Rightarrow> resolution_reason \<Rightarrow> broker \<Rightarrow> broker \<times> resolution \<times> approval_error option" where
  "resolveSystem now sid aid reason b =
     (if b_closed b then (b, deniedResolution now aid ReasonBrokerShutdown, Some ErrBrokerClosed)
      else (case lookup_owned b sid aid of
              None \<Rightarrow> (b, zero_resolution, Some ErrApprovalNotFound)
            | Some r \<Rightarrow>
                if re_resolved (b_heap b ! r) then (b, re_resolution (b_heap b ! r), Some ErrAlreadyResolved)
                else (let b' = resolve_at now OutcomeDeny reason r b
                      in (b', re_resolution (b_heap b' ! r), None))))"

text \<open>The arm of the select that sees the context end; \<^verbatim>\<open>ctx_err\<close> is \<^verbatim>\<open>ctx.Err()\<close>.\<close>

definition Await_context_done ::
  "gotime \<Rightarrow> approval_error \<Rightarrow> string \<Rightarrow> string \<Rightarrow> broker \<Rightarrow> broker \<times> resolution \<times> approval_error option" where
  "Await_context_done now ctx_err sid aid b =
     (case resolveSystem now sid aid ReasonContextCanceled b of
        (b', res, Some ErrAlreadyResolved) \<Rightarrow> (b', res, resolutionError res)
      | (b', res, Some e) \<Rightarrow> (b', res, Some e)
      | (b', res, None) \<Rightarrow> (b', res, Some ctx_err))"

fun resolve_refs :: "gotime \<Rightarrow> (request \<Rightarrow> bool) \<Rightarrow> resolution_reason \<Rightarrow> ref list \<Rightarrow> broker \<Rightarrow> broker" where
  "resolve_refs now P reason [] b = b"
| "resolve_refs now P reason (r # rs) b =
     resolve_refs now P reason rs
       (if \<not> re_resolved (b_heap b ! r) \<and> P (b_heap b ! r) then resolve_at now OutcomeDeny reason r b else b)"

definition CancelSession :: "gotime \<Rightarrow> string \<Rightarrow> broker \<Rightarrow> broker" where
  "CancelSession now sid b =
     (if b_closed b \<or> trim_space sid = [] then b
      else
        let b1 = b\<lparr>b_canceled := List.insert sid (b_canceled b)\<rparr>;
            b2 = resolve_refs now (\<lambda>e. p_SessionID (re_pending e) = sid) ReasonSessionCanceled
                   (map snd (b_requests b1)) b1
        in b2\<lparr>b_grants := filter (\<lambda>(_, g). p_SessionID (g_pending g) \<noteq> sid) (b_grants b2)\<rparr>)"

definition stop_timers :: "ref list \<Rightarrow> request list \<Rightarrow> request list" where
  "stop_timers rs heap =
     map (\<lambda>(i, e). if i \<in> set rs then e\<lparr>re_timer := None\<rparr> else e) (enumerate 0 heap)"

definition Shutdown :: "gotime \<Rightarrow> broker \<Rightarrow> broker" where
  "Shutdown now b =
     (if b_closed b then b
      else
        let rs = map snd (b_requests b);
            b1 = b\<lparr>b_heap := stop_timers rs (b_heap b), b_closed := True\<rparr>;
            b2 = resolve_refs now (\<lambda>_. True) ReasonBrokerShutdown rs b1
        in b2\<lparr>b_requests := [], b_grants := []\<rparr>)"

section \<open>Timer callbacks\<close>

definition delete_request :: "string \<Rightarrow> broker \<Rightarrow> broker" where
  "delete_request aid b = b\<lparr>b_requests := filter (\<lambda>(k, _). k \<noteq> aid) (b_requests b)\<rparr>"

definition set_timer :: "ref \<Rightarrow> timer option \<Rightarrow> broker \<Rightarrow> broker" where
  "set_timer r t b = b\<lparr>b_heap := (b_heap b)[r := (b_heap b ! r)\<lparr>re_timer := t\<rparr>]\<rparr>"

definition expire :: "gotime \<Rightarrow> string \<Rightarrow> ref \<Rightarrow> broker \<Rightarrow> broker" where
  "expire now aid expected b =
     (case map_of (b_requests b) aid of
        None \<Rightarrow> b
      | Some r \<Rightarrow>
          if r \<noteq> expected then b
          else if re_resolved (b_heap b ! r) then delete_request aid b
          else set_timer r (Some (PurgeTimer (b_ttl b))) (resolve_at now OutcomeDeny ReasonExpired r b))"

text \<open>The closure that \<^verbatim>\<open>expire\<close> arms to drop the resolved entry later.\<close>

definition purge :: "string \<Rightarrow> ref \<Rightarrow> broker \<Rightarrow> broker" where
  "purge aid entry b = (if map_of (b_requests b) aid = Some entry then delete_request aid b else b)"

definition expireFullModeGrant :: "string \<Rightarrow> ref \<Rightarrow> broker \<Rightarrow> broker" where
  "expireFullModeGrant gid expected b =
     (if b_closed b then b
      else (case map_of (b_grants b) gid of
              None \<Rightarrow> b
            | Some g \<Rightarrow> if g_ref g = expected then delete_grant gid b else b))"

end
