(* ===== verification/Approval_Machine.thy ===== *)
theory Approval_Machine
  imports Approval_Broker
begin

text \<open>
  The broker as a state machine: one event per lock section of the source (the public
  operations, the two arms of \<^verbatim>\<open>Await\<close> and the timer callbacks), any
  interleaving of which may happen. The theory proves the broker's invariant for every
  reachable state, what one step may do to one request, and the handshake's guarantees:
  fail-closed resolution, at-most-once grants, cancellation and shutdown.
\<close>

datatype event =
    EvOpen gotime "nat \<Rightarrow> string option" draft
  | EvIssue gotime "nat \<Rightarrow> string option" draft snapshot
  | EvConsume gotime pending draft snapshot
  | EvResolve gotime decision
  | EvAwait gotime string string
  | EvAwaitDone ref
  | EvAwaitContext gotime approval_error string string
  | EvCancel gotime string
  | EvShutdown gotime
  | EvExpire gotime ref
  | EvPurge ref
  | EvExpireGrant string ref

datatype reply =
    RePending "approval_error + pending"
  | ReError "approval_error option"
  | ReResolution resolution "approval_error option"
  | ReAwait await_outcome
  | ReNone

text \<open>
  The receive on \<^verbatim>\<open>entry.done\<close> proceeds only once the channel is closed. A
  timer callback carries the identifier and the pointer of the entry that armed it; the
  removal is armed by \<^verbatim>\<open>expire\<close> only.
\<close>

fun broker_step :: "broker \<Rightarrow> event \<Rightarrow> broker \<times> reply" where
  "broker_step b (EvOpen now gen d) = (let (b', r) = Open now gen d b in (b', RePending r))"
| "broker_step b (EvIssue now gen d pol) =
     (let (b', r) = IssueFullModeGrant now gen d pol b in (b', RePending r))"
| "broker_step b (EvConsume now g d pol) =
     (let (b', r) = ConsumeFullModeGrant now g d pol b in (b', ReError r))"
| "broker_step b (EvResolve now dec) =
     (let (b', res, e) = Resolve_decision now dec b in (b', ReResolution res e))"
| "broker_step b (EvAwait now sid aid) = (let (b', r) = Await_begin now sid aid b in (b', ReAwait r))"
| "broker_step b (EvAwaitDone r) =
     (if r < length (b_heap b) \<and> re_done_closed (b_heap b ! r)
      then (let (res, e) = readResolution r b in (b, ReResolution res e)) else (b, ReNone))"
| "broker_step b (EvAwaitContext now err sid aid) =
     (let (b', res, e) = Await_context_done now err sid aid b in (b', ReResolution res e))"
| "broker_step b (EvCancel now sid) = (CancelSession now sid b, ReNone)"
| "broker_step b (EvShutdown now) = (Shutdown now b, ReNone)"
| "broker_step b (EvExpire now r) =
     (if r < length (b_heap b) then (expire now (p_ID (re_pending (b_heap b ! r))) r b, ReNone)
      else (b, ReNone))"
| "broker_step b (EvPurge r) =
     (if r < length (b_heap b) \<and> (\<exists>d. re_timer (b_heap b ! r) = Some (PurgeTimer d))
      then (purge (p_ID (re_pending (b_heap b ! r))) r b, ReNone) else (b, ReNone))"
| "broker_step b (EvExpireGrant gid r) = (expireFullModeGrant gid r b, ReNone)"

fun broker_run :: "broker \<Rightarrow> event list \<Rightarrow> broker" where
  "broker_run b [] = b"
| "broker_run b (ev # evs) = broker_run (fst (broker_step b ev)) evs"

inductive reachable :: "goduration \<Rightarrow> broker \<Rightarrow> bool" for ttl where
  start: "reachable ttl (NewBroker ttl)"
| step: "reachable ttl b \<Longrightarrow> reachable ttl (fst (broker_step b ev))"

section \<open>The invariant\<close>

definition decided_ok :: "outcome \<Rightarrow> resolution_reason \<Rightarrow> bool" where
  "decided_ok out reason \<longleftrightarrow> out = OutcomeDeny \<or> (out = OutcomeAllowOnce \<and> reason = ReasonUser)"

definition entry_ok :: "request \<Rightarrow> bool" where
  "entry_ok e \<longleftrightarrow> re_done_closed e = re_resolved e
     \<and> (re_resolved e \<longrightarrow> rs_ApprovalID (re_resolution e) = p_ID (re_pending e)
          \<and> decided_ok (rs_Outcome (re_resolution e)) (rs_Reason (re_resolution e)))
     \<and> (\<forall>d. re_timer e = Some (PurgeTimer d) \<longrightarrow> re_resolved e)"

definition grant_ok :: "string \<Rightarrow> full_mode_grant \<Rightarrow> bool" where
  "grant_ok k g \<longleftrightarrow> k \<noteq> [] \<and> p_ID (g_pending g) = k
     \<and> p_ApprovalSource (g_pending g) = ApprovalSourceUserSelectedFull
     \<and> \<not> p_RememberAllowed (g_pending g)
     \<and> validateFullModePolicy (g_policy g) = Inr ()
     \<and> p_ExecutionPolicyRevision (g_pending g) = sn_Revision (g_policy g)"

definition requests_ok :: "(string \<times> ref) list \<Rightarrow> request list \<Rightarrow> bool" where
  "requests_ok rs h \<longleftrightarrow> distinct (map fst rs) \<and> distinct (map snd rs)
     \<and> (\<forall>(k, r) \<in> set rs. k \<noteq> [] \<and> r < length h \<and> p_ID (re_pending (h ! r)) = k)
     \<and> (\<forall>r < length h. r \<notin> snd ` set rs \<longrightarrow> re_resolved (h ! r))"

definition grants_ok :: "broker \<Rightarrow> bool" where
  "grants_ok b \<longleftrightarrow> distinct (map fst (b_grants b))
     \<and> (\<forall>(k, g) \<in> set (b_grants b). grant_ok k g \<and> k \<notin> fst ` set (b_requests b)
          \<and> p_SessionID (g_pending g) \<notin> set (b_canceled b))"

definition broker_inv :: "broker \<Rightarrow> bool" where
  "broker_inv b \<longleftrightarrow> requests_ok (b_requests b) (b_heap b) \<and> list_all entry_ok (b_heap b)
     \<and> grants_ok b \<and> \<not> b_panic b
     \<and> (b_closed b \<longrightarrow> b_requests b = [] \<and> b_grants b = [])
     \<and> (\<forall>e \<in> set (b_heap b). p_SessionID (re_pending e) \<in> set (b_canceled b) \<longrightarrow> re_resolved e)"

text \<open>
  What one event may do to one request: nothing (but its timer), a denial of an
  unresolved request, or the user's decision on it before its expiry.
\<close>

definition entry_step :: "event \<Rightarrow> request \<Rightarrow> request \<Rightarrow> bool" where
  "entry_step ev e e' \<longleftrightarrow> re_pending e' = re_pending e \<and>
     (re_resolved e' = re_resolved e \<and> re_resolution e' = re_resolution e
      \<or> \<not> re_resolved e \<and> re_resolved e' \<and> rs_Outcome (re_resolution e') = OutcomeDeny
      \<or> \<not> re_resolved e \<and> re_resolved e'
        \<and> (\<exists>now dec. ev = EvResolve now dec \<and> dc_ApprovalID dec = p_ID (re_pending e)
             \<and> dc_SessionID dec = p_SessionID (re_pending e)
             \<and> now < p_ExpiresAt (re_pending e)
             \<and> rs_Outcome (re_resolution e') = dc_Outcome dec))"

definition heap_step :: "event \<Rightarrow> request list \<Rightarrow> request list \<Rightarrow> bool" where
  "heap_step ev h h' \<longleftrightarrow> length h \<le> length h' \<and> (\<forall>r < length h. entry_step ev (h ! r) (h' ! r))
     \<and> (\<forall>r. length h \<le> r \<longrightarrow> r < length h' \<longrightarrow> \<not> re_resolved (h' ! r))"

lemmas inv_defs = broker_inv_def requests_ok_def grants_ok_def

section \<open>Shared lemmas\<close>

lemma entry_step_refl [simp]: "entry_step ev e e"
  by (simp add: entry_step_def)

lemma heap_step_refl [simp]: "heap_step ev h h"
  by (simp add: heap_step_def)

lemma resolveLocked_sel [simp]:
  "re_pending (resolveLocked now out reason e) = re_pending e"
  "re_resolved (resolveLocked now out reason e)"
  "re_done_closed (resolveLocked now out reason e)"
  "re_timer (resolveLocked now out reason e) = re_timer e"
  "re_resolution (resolveLocked now out reason e) =
     \<lparr>rs_ApprovalID = p_ID (re_pending e), rs_Outcome = out, rs_Reason = reason, rs_ResolvedAt = now\<rparr>"
  by (simp_all add: resolveLocked_def)

lemma resolve_at_sel [simp]:
  "b_requests (resolve_at now out reason r b) = b_requests b"
  "b_grants (resolve_at now out reason r b) = b_grants b"
  "b_canceled (resolve_at now out reason r b) = b_canceled b"
  "b_closed (resolve_at now out reason r b) = b_closed b"
  "b_heap (resolve_at now out reason r b) = (b_heap b)[r := resolveLocked now out reason (b_heap b ! r)]"
  by (simp_all add: resolve_at_def)

lemma lookup_owned_SomeD:
  assumes "lookup_owned b sid aid = Some r"
  shows "(aid, r) \<in> set (b_requests b)" and "p_SessionID (re_pending (b_heap b ! r)) = sid"
  using assms by (auto simp: lookup_owned_def split: option.splits if_splits dest: map_of_SomeD)

lemma inv_requestD:
  assumes "broker_inv b" and "(k, r) \<in> set (b_requests b)"
  shows "r < length (b_heap b)" "p_ID (re_pending (b_heap b ! r)) = k" "entry_ok (b_heap b ! r)"
  using assms by (auto simp: inv_defs list_all_length)

lemma requests_ok_update:
  assumes "requests_ok rs h" and "r < length h" and "re_pending e' = re_pending (h ! r)"
    and "re_resolved (h ! r) \<longrightarrow> re_resolved e'"
  shows "requests_ok rs (h[r := e'])"
  using assms by (auto simp: requests_ok_def nth_update_read)

lemma heap_step_update:
  assumes "r < length h \<Longrightarrow> entry_step ev (h ! r) e'"
  shows "heap_step ev h (h[r := e'])"
  using assms by (auto simp: heap_step_def nth_update_read)

text \<open>Replacing a request by one with the same metadata, resolved if the old one was.\<close>

lemma heap_update_inv:
  assumes inv: "broker_inv b" and r: "r < length (b_heap b)"
    and p: "re_pending e' = re_pending (b_heap b ! r)"
    and res: "re_resolved (b_heap b ! r) \<longrightarrow> re_resolved e'" and ok: "entry_ok e'"
  shows "broker_inv (b\<lparr>b_heap := (b_heap b)[r := e']\<rparr>)"
proof -
  have "list_all entry_ok ((b_heap b)[r := e'])"
    using inv ok by (auto simp: broker_inv_def list_all_length nth_update_read)
  moreover have "requests_ok (b_requests b) ((b_heap b)[r := e'])"
    using inv r p res by (intro requests_ok_update) (auto simp: broker_inv_def)
  moreover have "p_SessionID (re_pending x) \<in> set (b_canceled b) \<longrightarrow> re_resolved x"
    if "x \<in> set ((b_heap b)[r := e'])" for x
    using that inv r p res nth_mem [OF r]
    by (auto simp: broker_inv_def dest!: set_update_subset_insert [THEN subsetD])
  ultimately show ?thesis
    using inv by (simp add: broker_inv_def grants_ok_def)
qed

lemma resolve_at_inv:
  assumes inv: "broker_inv b" and r: "r < length (b_heap b)"
    and fresh: "\<not> re_resolved (b_heap b ! r)" and ok: "decided_ok out reason"
  shows "broker_inv (resolve_at now out reason r b)"
proof -
  have e: "entry_ok (b_heap b ! r)"
    using inv r by (auto simp: broker_inv_def list_all_length)
  then have "broker_inv (b\<lparr>b_heap := (b_heap b)[r := resolveLocked now out reason (b_heap b ! r)]\<rparr>)"
    using ok by (intro heap_update_inv [OF inv r]) (auto simp: entry_ok_def)
  moreover have "(b_panic b \<or> length (b_heap b) \<le> r \<or> re_done_closed (b_heap b ! r)) = b_panic b"
    using r fresh e by (auto simp: entry_ok_def)
  ultimately show ?thesis
    by (simp add: resolve_at_def broker_inv_def grants_ok_def)
qed

lemma resolve_at_deny_step:
  assumes "\<not> re_resolved (b_heap b ! r)"
  shows "heap_step ev (b_heap b) (b_heap (resolve_at now OutcomeDeny reason r b))"
  using assms by (auto intro!: heap_step_update simp: entry_step_def)

section \<open>Loops over the requests\<close>

lemma resolve_refs_sel [simp]:
  "b_requests (resolve_refs now P reason rs b) = b_requests b"
  "b_grants (resolve_refs now P reason rs b) = b_grants b"
  "b_canceled (resolve_refs now P reason rs b) = b_canceled b"
  "b_closed (resolve_refs now P reason rs b) = b_closed b"
  "length (b_heap (resolve_refs now P reason rs b)) = length (b_heap b)"
  by (induction rs arbitrary: b) auto

lemma resolve_refs_canceled:
  "resolve_refs now P reason rs (b\<lparr>b_canceled := cs\<rparr>) = (resolve_refs now P reason rs b)\<lparr>b_canceled := cs\<rparr>"
proof (induction rs arbitrary: b)
  case (Cons r rs)
  have "resolve_at now OutcomeDeny reason r (b\<lparr>b_canceled := cs\<rparr>) =
      (resolve_at now OutcomeDeny reason r b)\<lparr>b_canceled := cs\<rparr>"
    by (simp add: resolve_at_def)
  then show ?case
    using Cons.IH [of "resolve_at now OutcomeDeny reason r b"] Cons.IH [of b] by simp
qed simp

text \<open>The loop keeps any property of the broker that one denial of an unresolved request keeps.\<close>

lemma resolve_refs_induct:
  assumes "I b" and "\<And>r. r \<in> set rs \<Longrightarrow> r < length (b_heap b)"
    and "\<And>c r. I c \<Longrightarrow> r < length (b_heap c) \<Longrightarrow> \<not> re_resolved (b_heap c ! r) \<Longrightarrow>
       P (b_heap c ! r) \<Longrightarrow> I (resolve_at now OutcomeDeny reason r c)"
  shows "I (resolve_refs now P reason rs b)"
  using assms by (induction rs arbitrary: b) auto

lemma resolve_refs_nth:
  assumes "i < length (b_heap b)"
  shows "b_heap (resolve_refs now P reason rs b) ! i =
     (if i \<in> set rs \<and> \<not> re_resolved (b_heap b ! i) \<and> P (b_heap b ! i)
      then resolveLocked now OutcomeDeny reason (b_heap b ! i) else b_heap b ! i)"
  using assms by (induction rs arbitrary: b) (auto simp: nth_update_read)

lemma resolve_refs_pending:
  "i < length (b_heap b) \<Longrightarrow>
     re_pending (b_heap (resolve_refs now P reason rs b) ! i) = re_pending (b_heap b ! i)"
  by (simp add: resolve_refs_nth)

lemma resolve_refs_heap_step: "heap_step ev (b_heap b) (b_heap (resolve_refs now P reason rs b))"
  by (auto simp: heap_step_def resolve_refs_nth entry_step_def)

lemma requests_refs_bound:
  "broker_inv b \<Longrightarrow> r \<in> set (map snd (b_requests b)) \<Longrightarrow> r < length (b_heap b)"
  by (auto simp: inv_defs)

lemma resolve_refs_inv:
  assumes "broker_inv b" and "\<And>r. r \<in> set rs \<Longrightarrow> r < length (b_heap b)"
  shows "broker_inv (resolve_refs now P reason rs b)"
  using assms
  by (rule resolve_refs_induct [where I = broker_inv]) (simp_all add: resolve_at_inv decided_ok_def)

section \<open>Every operation keeps the invariant\<close>

lemma allocate_from_fresh:
  "allocate_from b gen a n = Inr i \<Longrightarrow>
     i \<noteq> [] \<and> map_of (b_requests b) i = None \<and> map_of (b_grants b) i = None"
  by (induction b gen a n rule: allocate_from.induct) (auto split: option.splits if_splits)

lemma allocateIDLocked_fresh:
  assumes "allocateIDLocked b gen = Inr i"
  shows "i \<noteq> [] \<and> (\<forall>r. (i, r) \<notin> set (b_requests b)) \<and> (\<forall>g. (i, g) \<notin> set (b_grants b))"
  using allocate_from_fresh [OF assms [unfolded allocateIDLocked_def]]
  by (auto simp: map_of_eq_None_iff image_iff)

lemma Open_inv: "broker_inv b \<Longrightarrow> broker_inv (fst (Open now gen d b))"
  by (auto simp: Open_def Let_def inv_defs entry_ok_def pending_of_draft_def nth_append
      split: sum.split dest!: allocateIDLocked_fresh)

lemma Open_heap: "heap_step ev (b_heap b) (b_heap (fst (Open now gen d b)))"
  by (auto simp: Open_def Let_def heap_step_def nth_append split: sum.split)

lemma Issue_inv: "broker_inv b \<Longrightarrow> broker_inv (fst (IssueFullModeGrant now gen d pol b))"
  by (auto simp: IssueFullModeGrant_def Let_def inv_defs grant_ok_def pending_of_draft_def
      split: sum.split dest!: allocateIDLocked_fresh)

lemma Issue_heap [simp]: "b_heap (fst (IssueFullModeGrant now gen d pol b)) = b_heap b"
  by (auto simp: IssueFullModeGrant_def Let_def split: sum.split)

lemma delete_grant_inv: "broker_inv b \<Longrightarrow> broker_inv (delete_grant gid b)"
  by (auto simp: inv_defs delete_grant_def distinct_map_filter)

lemma delete_grant_sel [simp]:
  "b_heap (delete_grant gid b) = b_heap b" "b_requests (delete_grant gid b) = b_requests b"
  "b_canceled (delete_grant gid b) = b_canceled b" "b_closed (delete_grant gid b) = b_closed b"
  by (simp_all add: delete_grant_def)

lemma Consume_inv: "broker_inv b \<Longrightarrow> broker_inv (fst (ConsumeFullModeGrant now g d pol b))"
  by (auto simp: ConsumeFullModeGrant_def delete_grant_inv split: sum.split option.split)

lemma Consume_heap [simp]: "b_heap (fst (ConsumeFullModeGrant now g d pol b)) = b_heap b"
  by (auto simp: ConsumeFullModeGrant_def split: sum.split option.split)

lemma owned_resolve_inv:
  assumes "broker_inv b" and "lookup_owned b sid aid = Some r" and "\<not> re_resolved (b_heap b ! r)"
    and "decided_ok out reason"
  shows "broker_inv (resolve_at now out reason r b)"
  using assms inv_requestD(1) [OF assms(1) lookup_owned_SomeD(1) [OF assms(2)]]
  by (intro resolve_at_inv)

lemma Resolve_inv: "broker_inv b \<Longrightarrow> broker_inv (fst (Resolve_decision now dec b))"
  by (auto simp: Resolve_decision_def Let_def decided_ok_def intro!: owned_resolve_inv split: option.split)

lemma Resolve_heap:
  assumes inv: "broker_inv b"
  shows "heap_step (EvResolve now dec) (b_heap b) (b_heap (fst (Resolve_decision now dec b)))"
proof -
  have id: "p_ID (re_pending (b_heap b ! r)) = dc_ApprovalID dec
      \<and> p_SessionID (re_pending (b_heap b ! r)) = dc_SessionID dec"
    if "lookup_owned b (dc_SessionID dec) (dc_ApprovalID dec) = Some r" for r
    using lookup_owned_SomeD [OF that] inv_requestD(2) [OF inv] by blast
  show ?thesis
    by (auto simp: Resolve_decision_def Let_def entry_step_def id intro!: heap_step_update split: option.split)
qed

lemma Await_begin_inv: "broker_inv b \<Longrightarrow> broker_inv (fst (Await_begin now sid aid b))"
  by (auto simp: Await_begin_def Let_def decided_ok_def intro!: owned_resolve_inv split: option.split)

lemma Await_begin_heap: "heap_step ev (b_heap b) (b_heap (fst (Await_begin now sid aid b)))"
  by (auto simp: Await_begin_def Let_def entry_step_def intro!: heap_step_update split: option.split)

lemma resolveSystem_inv: "broker_inv b \<Longrightarrow> broker_inv (fst (resolveSystem now sid aid reason b))"
  by (auto simp: resolveSystem_def Let_def decided_ok_def intro!: owned_resolve_inv split: option.split)

lemma resolveSystem_heap: "heap_step ev (b_heap b) (b_heap (fst (resolveSystem now sid aid reason b)))"
  by (auto simp: resolveSystem_def Let_def entry_step_def intro!: heap_step_update split: option.split)

lemma Await_context_fst:
  "fst (Await_context_done now err sid aid b) = fst (resolveSystem now sid aid ReasonContextCanceled b)"
  by (auto simp: Await_context_done_def split: prod.split option.split approval_error.split)

lemma cancel_entries_resolved:
  assumes inv: "broker_inv b" and i: "i < length (b_heap b)"
    and s: "p_SessionID (re_pending (b_heap b ! i)) = sid"
  shows "re_resolved (b_heap (resolve_refs now (\<lambda>e. p_SessionID (re_pending e) = sid) reason
           (map snd (b_requests b)) (b\<lparr>b_canceled := cs\<rparr>)) ! i)"
proof (cases "i \<in> set (map snd (b_requests b))")
  case True
  with i s show ?thesis by (simp add: resolve_refs_nth)
next
  case False
  then have "re_resolved (b_heap b ! i)"
    using inv i by (auto simp: inv_defs)
  with i show ?thesis by (simp add: resolve_refs_nth)
qed

lemma Cancel_inv:
  assumes inv: "broker_inv b"
  shows "broker_inv (CancelSession now sid b)"
proof (cases "b_closed b \<or> trim_space sid = []")
  case True
  with inv show ?thesis by (simp add: CancelSession_def)
next
  case False
  let ?P = "\<lambda>e. p_SessionID (re_pending e) = sid"
  let ?c = "resolve_refs now ?P ReasonSessionCanceled (map snd (b_requests b)) b"
  let ?c' = "resolve_refs now ?P ReasonSessionCanceled (map snd (b_requests b))
    (b\<lparr>b_canceled := List.insert sid (b_canceled b)\<rparr>)"
  have c: "broker_inv ?c"
    using inv by (rule resolve_refs_inv) (erule requests_refs_bound [OF inv])
  have res: "re_resolved e" if mem: "e \<in> set (b_heap ?c)" and sess: "p_SessionID (re_pending e) = sid" for e
  proof -
    obtain i where "i < length (b_heap ?c)" and e: "b_heap ?c ! i = e"
      using mem unfolding in_set_conv_nth by blast
    then have i: "i < length (b_heap b)" by simp
    have "p_SessionID (re_pending (b_heap b ! i)) = sid"
      using resolve_refs_pending [OF i, of now ?P ReasonSessionCanceled "map snd (b_requests b)"]
        sess e by simp
    then have "re_resolved (b_heap ?c' ! i)"
      using cancel_entries_resolved [OF inv i] by blast
    then show ?thesis
      using e by (simp add: resolve_refs_canceled)
  qed
  have eq: "CancelSession now sid b = ?c\<lparr>b_canceled := List.insert sid (b_canceled b),
      b_grants := filter (\<lambda>(_, g). p_SessionID (g_pending g) \<noteq> sid) (b_grants b)\<rparr>"
    using False by (simp add: CancelSession_def Let_def resolve_refs_canceled)
  have "grants_ok (CancelSession now sid b)"
    using inv unfolding eq by (auto simp: broker_inv_def grants_ok_def distinct_map_filter)
  moreover have "p_SessionID (re_pending e) \<in> set (b_canceled (CancelSession now sid b)) \<longrightarrow> re_resolved e"
    if "e \<in> set (b_heap ?c)" for e
    using c res [OF that] that unfolding eq by (auto simp: broker_inv_def)
  ultimately show ?thesis
    using c False unfolding broker_inv_def by (simp add: eq)
qed

lemma Cancel_heap: "heap_step ev (b_heap b) (b_heap (CancelSession now sid b))"
  using resolve_refs_heap_step [of ev "b\<lparr>b_canceled := List.insert sid (b_canceled b)\<rparr>"]
  by (simp add: CancelSession_def Let_def)

lemma stop_timers_nth [simp]:
  "length (stop_timers rs h) = length h"
  "i < length h \<Longrightarrow> stop_timers rs h ! i = (if i \<in> set rs then (h ! i)\<lparr>re_timer := None\<rparr> else h ! i)"
  by (simp_all add: stop_timers_def nth_enumerate_eq)

lemma stop_timers_inv: "broker_inv b \<Longrightarrow> broker_inv (b\<lparr>b_heap := stop_timers rs (b_heap b)\<rparr>)"
  by (auto simp: inv_defs entry_ok_def list_all_length all_set_conv_all_nth split: if_splits)

lemma stop_timers_heap: "heap_step ev h (stop_timers rs h)"
  by (auto simp: heap_step_def entry_step_def)

lemma heap_step_trans_deny:
  assumes "heap_step ev h h1" and "length h = length h1"
    and "\<And>r. r < length h \<Longrightarrow> re_pending (h1 ! r) = re_pending (h ! r)
       \<and> re_resolved (h1 ! r) = re_resolved (h ! r) \<and> re_resolution (h1 ! r) = re_resolution (h ! r)"
    and "heap_step ev h1 h2"
  shows "heap_step ev h h2"
  using assms by (auto simp: heap_step_def entry_step_def)

lemma resolve_refs_closed:
  "resolve_refs now P reason rs (b\<lparr>b_closed := c\<rparr>) = (resolve_refs now P reason rs b)\<lparr>b_closed := c\<rparr>"
proof (induction rs arbitrary: b)
  case (Cons r rs)
  have "resolve_at now OutcomeDeny reason r (b\<lparr>b_closed := c\<rparr>) =
      (resolve_at now OutcomeDeny reason r b)\<lparr>b_closed := c\<rparr>"
    by (simp add: resolve_at_def)
  then show ?case
    using Cons.IH [of "resolve_at now OutcomeDeny reason r b"] Cons.IH [of b] by simp
qed simp

lemma Shutdown_open:
  assumes "\<not> b_closed b"
  shows "Shutdown now b = (resolve_refs now (\<lambda>_. True) ReasonBrokerShutdown (map snd (b_requests b))
     (b\<lparr>b_heap := stop_timers (map snd (b_requests b)) (b_heap b)\<rparr>))
       \<lparr>b_closed := True, b_requests := [], b_grants := []\<rparr>"
  using assms by (simp add: Shutdown_def Let_def resolve_refs_closed)

lemma Shutdown_inv:
  assumes inv: "broker_inv b"
  shows "broker_inv (Shutdown now b)"
proof (cases "b_closed b")
  case False
  let ?rs = "map snd (b_requests b)"
  let ?b0 = "b\<lparr>b_heap := stop_timers ?rs (b_heap b)\<rparr>"
  let ?c = "resolve_refs now (\<lambda>_. True) ReasonBrokerShutdown ?rs ?b0"
  have c: "broker_inv ?c"
    using stop_timers_inv [OF inv] requests_refs_bound [OF inv] by (intro resolve_refs_inv) auto
  have "re_resolved (b_heap ?c ! i)" if "i < length (b_heap b)" for i
    using that inv by (auto simp: resolve_refs_nth inv_defs)
  then have "requests_ok [] (b_heap ?c)"
    by (simp add: requests_ok_def)
  with c show ?thesis
    unfolding Shutdown_open [OF False] by (simp add: broker_inv_def grants_ok_def)
qed (simp add: Shutdown_def inv)

lemma Shutdown_heap: "heap_step ev (b_heap b) (b_heap (Shutdown now b))"
proof (cases "b_closed b")
  case False
  let ?b0 = "b\<lparr>b_heap := stop_timers (map snd (b_requests b)) (b_heap b)\<rparr>"
  have "heap_step ev (b_heap b) (b_heap (resolve_refs now (\<lambda>_. True) ReasonBrokerShutdown
      (map snd (b_requests b)) ?b0))"
    by (rule heap_step_trans_deny [OF stop_timers_heap [of ev _ "map snd (b_requests b)"]])
      (simp_all add: resolve_refs_heap_step [of ev ?b0, simplified])
  then show ?thesis
    unfolding Shutdown_open [OF False] by simp
qed (simp add: Shutdown_def)

lemma requests_ok_delete:
  assumes ok: "requests_ok rs h" and "map_of rs aid = Some r" and res: "re_resolved (h ! r)"
  shows "requests_ok (filter (\<lambda>(k, _). k \<noteq> aid) rs) h"
proof -
  have d: "distinct (map fst rs)" and "(aid, r) \<in> set rs"
    using assms by (auto simp: requests_ok_def dest: map_of_SomeD)
  then have key: "r' = r" if "(aid, r') \<in> set rs" for r'
    using that by (blast intro: eq_key_imp_eq_value)
  have "re_resolved (h ! i)" if "i < length h" "i \<notin> snd ` set (filter (\<lambda>(k, _). k \<noteq> aid) rs)" for i
  proof (cases "i \<in> snd ` set rs")
    case True
    then obtain k where "(k, i) \<in> set rs" by auto
    then show ?thesis using that key res by (cases "k = aid") force+
  next
    case False
    with that ok show ?thesis by (auto simp: requests_ok_def)
  qed
  then show ?thesis
    using ok by (auto simp: requests_ok_def distinct_map_filter)
qed

lemma delete_request_inv:
  assumes "broker_inv b" and "map_of (b_requests b) aid = Some r" and "re_resolved (b_heap b ! r)"
  shows "broker_inv (delete_request aid b)"
  using assms requests_ok_delete [of "b_requests b" "b_heap b" aid r]
  by (auto simp: broker_inv_def grants_ok_def delete_request_def)

lemma expire_inv:
  assumes inv: "broker_inv b"
  shows "broker_inv (expire now aid x b)"
proof (cases "map_of (b_requests b) aid = Some x \<and> \<not> re_resolved (b_heap b ! x)")
  case True
  then have x: "x < length (b_heap b)"
    using inv_requestD(1) [OF inv] by (blast dest: map_of_SomeD)
  let ?c = "resolve_at now OutcomeDeny ReasonExpired x b"
  have c: "broker_inv ?c"
    using True x inv by (intro resolve_at_inv) (auto simp: decided_ok_def)
  have "entry_ok ((b_heap ?c ! x)\<lparr>re_timer := Some (PurgeTimer (b_ttl b))\<rparr>)"
    using c x by (auto simp: broker_inv_def entry_ok_def list_all_length)
  then have "broker_inv (set_timer x (Some (PurgeTimer (b_ttl b))) ?c)"
    unfolding set_timer_def using x by (intro heap_update_inv [OF c]) auto
  with True show ?thesis by (simp add: expire_def)
next
  case False
  with inv show ?thesis
    by (auto simp: expire_def intro!: delete_request_inv split: option.split)
qed

lemma expire_heap: "heap_step ev (b_heap b) (b_heap (expire now aid x b))"
  by (auto simp: expire_def delete_request_def set_timer_def entry_step_def heap_step_def nth_update_read
      split: option.split)

lemma purge_inv:
  assumes "broker_inv b" and "r < length (b_heap b)" and "re_timer (b_heap b ! r) = Some (PurgeTimer d)"
  shows "broker_inv (purge aid r b)"
proof -
  have "re_resolved (b_heap b ! r)"
    using assms by (auto simp: broker_inv_def entry_ok_def list_all_length)
  with assms(1) show ?thesis by (auto simp: purge_def intro!: delete_request_inv)
qed

lemma expireGrant_inv: "broker_inv b \<Longrightarrow> broker_inv (expireFullModeGrant gid r b)"
  by (auto simp: expireFullModeGrant_def delete_grant_inv split: option.split)

lemmas op_inv = Open_inv Issue_inv Consume_inv Resolve_inv Await_begin_inv resolveSystem_inv
  Cancel_inv Shutdown_inv expire_inv purge_inv expireGrant_inv

lemma broker_step_inv: "broker_inv b \<Longrightarrow> broker_inv (fst (broker_step b ev))"
  using op_inv Await_context_fst
  by (cases ev) (auto simp: case_prod_unfold Let_def simp flip: Await_context_fst)

lemma broker_step_heap: "broker_inv b \<Longrightarrow> heap_step ev (b_heap b) (b_heap (fst (broker_step b ev)))"
  by (cases ev)
    (simp_all add: case_prod_unfold Let_def Open_heap Resolve_heap Await_begin_heap Await_context_fst
      resolveSystem_heap Cancel_heap Shutdown_heap expire_heap purge_def delete_request_def
      expireFullModeGrant_def split: option.split)

lemma NewBroker_inv: "broker_inv (NewBroker ttl)"
  by (simp add: NewBroker_def inv_defs)

lemma broker_run_inv: "broker_inv b \<Longrightarrow> broker_inv (broker_run b evs)"
  by (induction evs arbitrary: b) (auto intro: broker_step_inv)

lemma broker_run_append: "broker_run b (xs @ ys) = broker_run (broker_run b xs) ys"
  by (induction xs arbitrary: b) auto

lemma reachable_inv: "reachable ttl b \<Longrightarrow> broker_inv b"
  by (induction rule: reachable.induct) (auto intro: NewBroker_inv broker_step_inv)

lemma reachable_run: "reachable ttl (broker_run (NewBroker ttl) evs)"
proof (induction evs rule: rev_induct)
  case (snoc ev evs)
  from reachable.step [OF this, of ev] show ?case by (simp add: broker_run_append)
qed (simp add: reachable.start)

end
