(* ===== verification/Interfaces.thy ===== *)
theory Interfaces
  imports Go_Prelude
begin

text \<open>
  The contracts the components of Corelay Code promise one another, as locales over a
  state machine \<^verbatim>\<open>step\<close>. A component's theory interprets the contracts it
  provides on its own definitions; the lemmas proved here once then hold for it.

  \<^item> \<^verbatim>\<open>invariant_machine\<close>: a predicate every step keeps;
  \<^item> \<^verbatim>\<open>write_once\<close>: a cell that is empty or keeps its first value
    (an approval's resolution, the outcome of a run, the run an evidence ledger is bound to);
  \<^item> \<^verbatim>\<open>one_shot\<close>: a token that is issued and consumed (a full-mode grant);
  \<^item> \<^verbatim>\<open>revision_counter\<close>: optimistic concurrency by a revision number;
  \<^item> \<^verbatim>\<open>evidence_store\<close>: a store whose positive answers are never taken back
    (the evidence ledger, as the completion contract relies on it).
\<close>

text \<open>How many steps of a run satisfy a predicate of the state before and the event.\<close>

fun tally :: "('s \<Rightarrow> 'e \<Rightarrow> 's) \<Rightarrow> ('s \<Rightarrow> 'e \<Rightarrow> bool) \<Rightarrow> 's \<Rightarrow> 'e list \<Rightarrow> nat" where
  "tally step P s [] = 0"
| "tally step P s (e # es) = (if P s e then 1 else 0) + tally step P (step s e) es"

locale invariant_machine =
  fixes step :: "'s \<Rightarrow> 'e \<Rightarrow> 's"
    and inv :: "'s \<Rightarrow> bool"
  assumes inv_step: "inv s \<Longrightarrow> inv (step s e)"
begin

lemma inv_run: "inv s \<Longrightarrow> inv (foldl step s es)"
  by (induction es arbitrary: s) (auto intro: inv_step)

end

locale write_once = invariant_machine step inv
  for step :: "'s \<Rightarrow> 'e \<Rightarrow> 's" and inv :: "'s \<Rightarrow> bool" +
  fixes cell :: "'s \<Rightarrow> 'k \<Rightarrow> 'v option"
  assumes cell_step: "inv s \<Longrightarrow> cell s k = Some v \<Longrightarrow> cell (step s e) k = Some v"
begin

lemma cell_run: "inv s \<Longrightarrow> cell s k = Some v \<Longrightarrow> cell (foldl step s es) k = Some v"
  by (induction es arbitrary: s) (auto intro: cell_step inv_step)

text \<open>Two observations of one cell in one run agree.\<close>

lemma cell_agree:
  assumes "inv s" and "cell (foldl step s es) k = Some v" and "cell (foldl step s (es @ fs)) k = Some w"
  shows "v = w"
  using cell_run [OF inv_run [OF assms(1), of es] assms(2), of fs] assms(3) by simp

end

locale one_shot = invariant_machine step inv
  for step :: "'s \<Rightarrow> 'e \<Rightarrow> 's" and inv :: "'s \<Rightarrow> bool" +
  fixes held :: "'s \<Rightarrow> 'k \<Rightarrow> bool"
    and issue :: "'s \<Rightarrow> 'e \<Rightarrow> 'k \<Rightarrow> bool"
    and consume :: "'s \<Rightarrow> 'e \<Rightarrow> 'k \<Rightarrow> bool"
  assumes consume_held: "inv s \<Longrightarrow> consume s e k \<Longrightarrow> held s k \<and> \<not> held (step s e) k"
    and held_step: "inv s \<Longrightarrow> held (step s e) k \<Longrightarrow> held s k \<or> issue s e k"
begin

lemma consumed_le_issued:
  "inv s \<Longrightarrow> tally step (\<lambda>s e. consume s e k) s es
     \<le> tally step (\<lambda>s e. issue s e k) s es + (if held s k then 1 else 0)"
proof (induction es arbitrary: s)
  case (Cons e es)
  from Cons.IH [OF inv_step [OF Cons.prems], of e] consume_held [OF Cons.prems, of e k]
    held_step [OF Cons.prems, of e k]
  show ?case by (auto split: if_splits)
qed simp

end

text \<open>
  Optimistic concurrency: an update names the revision it read; it commits only against
  that revision and then moves the revision on.
\<close>

locale revision_counter =
  fixes rev_of :: "'s \<Rightarrow> uint64"
    and update :: "uint64 \<Rightarrow> 'c \<Rightarrow> 's \<Rightarrow> 'x + 's"
  assumes commit: "update r c s = Inr s' \<Longrightarrow> rev_of s = r \<and> rev_of s' = r + 1 \<and> r + 1 \<noteq> 0"
begin

lemma commit_unsigned: "update r c s = Inr s' \<Longrightarrow> unat (rev_of s') = Suc (unat (rev_of s))"
  using commit [of r c s s'] by (metis add.commute unatSuc)

text \<open>Of two updates prepared against the same revision at most one commits.\<close>

lemma lost_update_refused:
  assumes "update r c s = Inr s'"
  shows "\<exists>e. update r d s' = Inl e"
proof (cases "update r d s'")
  case (Inr t)
  with commit [OF assms] commit [OF Inr] show ?thesis by simp
qed auto

end

text \<open>A store that answers questions about a run, and keeps every answer that was yes.\<close>

locale evidence_store = invariant_machine step inv
  for step :: "'s \<Rightarrow> 'e \<Rightarrow> 's" and inv :: "'s \<Rightarrow> bool" +
  fixes look :: "'s \<Rightarrow> string \<Rightarrow> string \<Rightarrow> bool"
  assumes look_step: "inv s \<Longrightarrow> look s r d \<Longrightarrow> look (step s e) r d"
begin

lemma look_run: "inv s \<Longrightarrow> look s r d \<Longrightarrow> look (foldl step s es) r d"
  by (induction es arbitrary: s) (auto intro: look_step inv_step)

end

end
