(* ===== verification/Approval_Props.thy ===== *)
theory Approval_Props
  imports Approval_Machine Interfaces
begin

text \<open>
  The guarantees of the approval handshake over every interleaving of its events: the
  broker interprets the contracts of a write-once resolution and of a one-shot grant, and
  the properties read them off.
\<close>

abbreviation bstep :: "broker \<Rightarrow> event \<Rightarrow> broker" where
  "bstep b ev \<equiv> fst (broker_step b ev)"

definition resolution_cell :: "broker \<Rightarrow> ref \<Rightarrow> resolution option" where
  "resolution_cell b r =
     (if r < length (b_heap b) \<and> re_resolved (b_heap b ! r) then Some (re_resolution (b_heap b ! r)) else None)"

definition grant_held :: "broker \<Rightarrow> string \<Rightarrow> bool" where
  "grant_held b gid \<longleftrightarrow> gid \<in> set (map fst (b_grants b))"

definition grant_issued :: "broker \<Rightarrow> event \<Rightarrow> string \<Rightarrow> bool" where
  "grant_issued b ev gid \<longleftrightarrow>
     (case ev of
        EvIssue now gen d pol \<Rightarrow>
          (case snd (IssueFullModeGrant now gen d pol b) of Inl _ \<Rightarrow> False | Inr p \<Rightarrow> p_ID p = gid)
      | _ \<Rightarrow> False)"

definition grant_consumed :: "broker \<Rightarrow> event \<Rightarrow> string \<Rightarrow> bool" where
  "grant_consumed b ev gid \<longleftrightarrow>
     (case ev of
        EvConsume now g d pol \<Rightarrow> p_ID g = gid \<and> snd (ConsumeFullModeGrant now g d pol b) = None
      | _ \<Rightarrow> False)"

section \<open>The broker provides the contracts\<close>

lemma broker_run_foldl: "broker_run b evs = foldl bstep b evs"
  by (induction evs arbitrary: b) auto

lemma resolution_cell_step:
  assumes "broker_inv b" and "resolution_cell b r = Some v"
  shows "resolution_cell (bstep b ev) r = Some v"
proof -
  have "r < length (b_heap b)" "re_resolved (b_heap b ! r)" "v = re_resolution (b_heap b ! r)"
    using assms(2) by (auto simp: resolution_cell_def split: if_splits)
  moreover have "entry_step ev (b_heap b ! r) (b_heap (bstep b ev) ! r)
      \<and> length (b_heap b) \<le> length (b_heap (bstep b ev))"
    using broker_step_heap [OF assms(1), of ev] calculation by (simp add: heap_step_def)
  ultimately show ?thesis
    by (auto simp: resolution_cell_def entry_step_def)
qed

lemma Consume_success_iff:
  "snd (ConsumeFullModeGrant now g d pol b) = None \<longleftrightarrow>
     validateFullModePolicy pol = Inr () \<and> validateFullModeDraft d pol = Inr () \<and> \<not> b_closed b
     \<and> p_ID g \<noteq> [] \<and> d_SessionID d \<notin> set (b_canceled b)
     \<and> (\<exists>entry. map_of (b_grants b) (p_ID g) = Some entry \<and> now < p_ExpiresAt (g_pending entry)
          \<and> sameFullModePending g (g_pending entry) \<and> fullModeDraftMatchesPending d (g_pending entry)
          \<and> pol = g_policy entry)"
  by (auto simp: ConsumeFullModeGrant_def split: sum.split option.split)

lemma Consume_success_deletes:
  "snd (ConsumeFullModeGrant now g d pol b) = None \<Longrightarrow>
     fst (ConsumeFullModeGrant now g d pol b) = delete_grant (p_ID g) b"
  by (auto simp: ConsumeFullModeGrant_def split: sum.splits option.splits if_splits)

lemma delete_grant_held [simp]: "grant_held (delete_grant gid b) k \<longleftrightarrow> k \<noteq> gid \<and> grant_held b k"
  by (force simp: grant_held_def delete_grant_def)

lemma grant_consumed_held:
  assumes "grant_consumed b ev gid"
  shows "grant_held b gid \<and> \<not> grant_held (bstep b ev) gid"
proof -
  obtain now g d pol where ev: "ev = EvConsume now g d pol" "p_ID g = gid"
    and ok: "snd (ConsumeFullModeGrant now g d pol b) = None"
    using assms by (auto simp: grant_consumed_def split: event.splits)
  from ok have "map_of (b_grants b) gid \<noteq> None"
    using ev(2) by (auto simp: Consume_success_iff)
  then have "grant_held b gid"
    by (auto simp: grant_held_def map_of_eq_None_iff)
  then show ?thesis
    using ev Consume_success_deletes [OF ok] by (simp add: case_prod_unfold Let_def)
qed

lemma grants_subset_simps:
  "b_grants (fst (Open now gen d b)) = b_grants b"
  "b_grants (fst (Resolve_decision now dec b)) = b_grants b"
  "b_grants (fst (Await_begin now sid aid b)) = b_grants b"
  "b_grants (fst (resolveSystem now sid aid reason b)) = b_grants b"
  "b_grants (expire now aid r b) = b_grants b"
  "b_grants (purge aid r b) = b_grants b"
  by (auto simp: Open_def Resolve_decision_def Await_begin_def resolveSystem_def expire_def purge_def
      delete_request_def set_timer_def Let_def split: sum.split option.split)

lemma grant_held_step:
  "grant_held (bstep b ev) gid \<Longrightarrow> grant_held b gid \<or> grant_issued b ev gid"
proof (cases ev)
  case (EvIssue now gen d pol)
  then show "grant_held (bstep b ev) gid \<Longrightarrow> grant_held b gid \<or> grant_issued b ev gid"
    by (auto simp: grant_held_def grant_issued_def IssueFullModeGrant_def Let_def case_prod_unfold
        pending_of_draft_def split: sum.splits if_splits)
next
  case (EvConsume now g d pol)
  then show "grant_held (bstep b ev) gid \<Longrightarrow> grant_held b gid \<or> grant_issued b ev gid"
    by (auto simp: ConsumeFullModeGrant_def Let_def case_prod_unfold split: sum.splits option.splits if_splits)
next
  case (EvCancel now sid)
  then show "grant_held (bstep b ev) gid \<Longrightarrow> grant_held b gid \<or> grant_issued b ev gid"
    by (auto simp: grant_held_def CancelSession_def Let_def intro: rev_image_eqI split: if_splits)
next
  case (EvShutdown now)
  then show "grant_held (bstep b ev) gid \<Longrightarrow> grant_held b gid \<or> grant_issued b ev gid"
    by (auto simp: grant_held_def Shutdown_def Let_def split: if_splits)
next
  case (EvExpireGrant k r)
  then show "grant_held (bstep b ev) gid \<Longrightarrow> grant_held b gid \<or> grant_issued b ev gid"
    by (auto simp: expireFullModeGrant_def split: option.splits if_splits)
qed (auto simp: grant_held_def grants_subset_simps Await_context_fst case_prod_unfold Let_def split: if_splits)

interpretation brk: invariant_machine bstep broker_inv
  by unfold_locales (rule broker_step_inv)

interpretation resolutions: write_once bstep broker_inv resolution_cell
  by unfold_locales (rule resolution_cell_step)

interpretation grants: one_shot bstep broker_inv grant_held grant_issued grant_consumed
  by unfold_locales (use grant_consumed_held grant_held_step in blast)+

section \<open>Properties\<close>

text \<open>An approval that was allowed is traced back to the decision that allowed it.\<close>

definition justified :: "event list \<Rightarrow> request \<Rightarrow> bool" where
  "justified evs e \<longleftrightarrow> (\<exists>now dec. EvResolve now dec \<in> set evs \<and> dc_ApprovalID dec = p_ID (re_pending e)
     \<and> dc_SessionID dec = p_SessionID (re_pending e) \<and> dc_Outcome dec = OutcomeAllowOnce
     \<and> now < p_ExpiresAt (re_pending e))"

lemma justified_mono: "justified evs e \<Longrightarrow> re_pending e' = re_pending e \<Longrightarrow> set evs \<subseteq> set evs' \<Longrightarrow> justified evs' e'"
  by (auto simp: justified_def)

lemma entry_step_allow:
  assumes "entry_step ev e e'" and "\<not> re_resolved e" and "re_resolved e'"
    and "rs_Outcome (re_resolution e') = OutcomeAllowOnce"
  shows "justified [ev] e'"
proof -
  from assms obtain now dec where "ev = EvResolve now dec" "dc_ApprovalID dec = p_ID (re_pending e)"
    "dc_SessionID dec = p_SessionID (re_pending e)" "now < p_ExpiresAt (re_pending e)"
    "dc_Outcome dec = OutcomeAllowOnce" "re_pending e' = re_pending e"
    by (auto simp: entry_step_def)
  then show ?thesis
    unfolding justified_def by (intro exI [of _ now] exI [of _ dec]) simp
qed

lemma allowed_justified:
  "r < length (b_heap (broker_run (NewBroker ttl) evs)) \<Longrightarrow>
   re_resolved (b_heap (broker_run (NewBroker ttl) evs) ! r) \<Longrightarrow>
   rs_Outcome (re_resolution (b_heap (broker_run (NewBroker ttl) evs) ! r)) = OutcomeAllowOnce \<Longrightarrow>
   justified evs (b_heap (broker_run (NewBroker ttl) evs) ! r)"
proof (induction evs rule: rev_induct)
  case Nil
  then show ?case by (simp add: NewBroker_def)
next
  case (snoc ev evs)
  let ?b = "broker_run (NewBroker ttl) evs"
  have run: "broker_run (NewBroker ttl) (evs @ [ev]) = bstep ?b ev"
    by (simp add: broker_run_append)
  have step: "heap_step ev (b_heap ?b) (b_heap (bstep ?b ev))"
    using broker_run_inv [OF NewBroker_inv] by (rule broker_step_heap)
  have r: "r < length (b_heap ?b)"
    using snoc.prems step unfolding run by (meson heap_step_def leI)
  have es: "entry_step ev (b_heap ?b ! r) (b_heap (bstep ?b ev) ! r)"
    using step r by (simp add: heap_step_def)
  show ?case
  proof (cases "re_resolved (b_heap ?b ! r)")
    case True
    have "justified evs (b_heap ?b ! r)"
      using es snoc.IH [OF r True] snoc.prems(3) True unfolding run entry_step_def by metis
    moreover have "re_pending (b_heap (bstep ?b ev) ! r) = re_pending (b_heap ?b ! r)"
      using es by (simp add: entry_step_def)
    ultimately show ?thesis
      unfolding run by (rule justified_mono) auto
  next
    case False
    have "justified [ev] (b_heap (bstep ?b ev) ! r)"
      using es False snoc.prems(2,3) unfolding run by (rule entry_step_allow)
    then show ?thesis
      unfolding run by (rule justified_mono [OF _ refl]) auto
  qed
qed

text \<open>
  C3. The broker never panics and never leaves a waiter behind, whatever the interleaving of
  calls and timers: in every reachable state no channel has been closed twice, and a
  request's done channel is closed exactly if the request is resolved.
\<close>

theorem broker_never_panics:
  assumes "reachable ttl b"
  shows "\<not> b_panic b \<and> (\<forall>e. e \<in> set (b_heap b) \<longrightarrow> re_done_closed e = re_resolved e)"
  using reachable_inv [OF assms] by (auto simp: broker_inv_def entry_ok_def list_all_iff)

definition sample_draft :: draft where
  "sample_draft = \<lparr>d_SessionID = ''s1'', d_SessionRevision = 1, d_RunID = ''run'', d_ToolCallID = ''call'',
     d_ToolName = ''Bash'', d_ExecutorID = ''exec'', d_RedactedInput = ''ls'', d_InputDigest = [],
     d_ExecutionPolicyRevision = 0, d_FullSelectionRevision = 0, d_DangerLevel = ''safe'',
     d_Scope = [], d_RememberAllowed = False\<rparr>"

definition sample_events :: "event list" where
  "sample_events = [EvOpen 10 (\<lambda>_. Some ''apr_1'') sample_draft,
     EvResolve 20 \<lparr>dc_ApprovalID = ''apr_1'', dc_SessionID = ''s1'', dc_Outcome = OutcomeAllowOnce\<rparr>]"

definition sample_broker :: broker where
  "sample_broker = broker_run (NewBroker 100) sample_events"

lemma sample_trims:
  "trim_space ''s1'' = ''s1''" "trim_space ''run'' = ''run''" "trim_space ''Bash'' = ''Bash''"
  by code_simp+

lemma sample_allocate: "allocateIDLocked (NewBroker 100) (\<lambda>_. Some ''apr_1'') = Inr ''apr_1''"
  by (simp add: allocateIDLocked_def maxIDAttempts_def numeral_eq_Suc NewBroker_def)

lemma sample_run:
  "b_heap sample_broker =
     [resolveLocked 20 OutcomeAllowOnce ReasonUser
       \<lparr>re_pending = pending_of_draft ''apr_1'' sample_draft 10 100, re_done_closed = False,
        re_resolved = False, re_resolution = zero_resolution, re_timer = Some (ExpireTimer 100)\<rparr>]"
  by (simp add: sample_broker_def sample_events_def Open_def validateDraft_def sample_draft_def sample_trims
      maxRedactedInputBytes_def sample_allocate [unfolded NewBroker_def, simplified] NewBroker_def Let_def
      Resolve_decision_def lookup_owned_def pending_of_draft_def resolve_at_def)

lemma sample_requests: "b_requests sample_broker = [(''apr_1'', 0)]" "\<not> b_closed sample_broker"
  by (simp_all add: sample_broker_def sample_events_def Open_def validateDraft_def sample_draft_def sample_trims
      maxRedactedInputBytes_def sample_allocate [unfolded NewBroker_def, simplified] NewBroker_def Let_def
      Resolve_decision_def lookup_owned_def pending_of_draft_def resolve_at_def)

theorem broker_never_panics_witness:
  "reachable 100 sample_broker \<and> \<not> b_panic sample_broker"
  using broker_never_panics [OF reachable_run [of 100 sample_events]] reachable_run [of 100 sample_events]
  by (simp add: sample_broker_def)

text \<open>
  C4. Approvals fail closed: in any run of the broker, if a request is resolved with a
  resolution that grants execution, then some client submitted a decision naming that
  approval and its own session with the outcome allow_once before the request's expiry.
  No timeout, cancellation, context end or shutdown produces a grant.
\<close>

theorem approval_fails_closed:
  assumes "b = broker_run (NewBroker ttl) evs" and "r < length (b_heap b)"
    and "re_resolved (b_heap b ! r)" and "Allowed (re_resolution (b_heap b ! r))"
  shows "\<exists>now dec. EvResolve now dec \<in> set evs \<and> dc_ApprovalID dec = p_ID (re_pending (b_heap b ! r))
    \<and> dc_SessionID dec = p_SessionID (re_pending (b_heap b ! r)) \<and> dc_Outcome dec = OutcomeAllowOnce
    \<and> now < p_ExpiresAt (re_pending (b_heap b ! r))"
  using allowed_justified [of r ttl evs] assms by (simp add: justified_def Allowed_def)

theorem approval_fails_closed_witness:
  "\<exists>now dec. EvResolve now dec \<in> set sample_events \<and> dc_ApprovalID dec = ''apr_1'' \<and> dc_SessionID dec = ''s1''
     \<and> dc_Outcome dec = OutcomeAllowOnce \<and> now < 110"
proof -
  have "Allowed (re_resolution (b_heap sample_broker ! 0))"
    by (simp add: sample_run Allowed_def)
  from approval_fails_closed [OF sample_broker_def _ _ this]
  show ?thesis by (simp add: sample_run pending_of_draft_def sample_draft_def)
qed

text \<open>
  C5. A resolution is final: once a request is resolved in a reachable state, then after any
  further events it is still resolved with the same resolution, and every caller that
  waited on it reads exactly that resolution.
\<close>

theorem resolution_is_final:
  assumes "reachable ttl b" and "r < length (b_heap b)" and "re_resolved (b_heap b ! r)"
  shows "re_resolved (b_heap (broker_run b evs) ! r)
    \<and> re_resolution (b_heap (broker_run b evs) ! r) = re_resolution (b_heap b ! r)
    \<and> snd (broker_step (broker_run b evs) (EvAwaitDone r))
      = ReResolution (re_resolution (b_heap b ! r)) (resolutionError (re_resolution (b_heap b ! r)))"
proof -
  have inv: "broker_inv b"
    using assms(1) by (rule reachable_inv)
  have "resolution_cell (broker_run b evs) r = Some (re_resolution (b_heap b ! r))"
    unfolding broker_run_foldl
    using assms by (intro resolutions.cell_run [OF inv]) (simp add: resolution_cell_def)
  then have "r < length (b_heap (broker_run b evs))" "re_resolved (b_heap (broker_run b evs) ! r)"
    "re_resolution (b_heap (broker_run b evs) ! r) = re_resolution (b_heap b ! r)"
    by (auto simp: resolution_cell_def split: if_splits)
  moreover have "entry_ok (b_heap (broker_run b evs) ! r)"
    using broker_run_inv [OF inv, of evs] calculation(1) by (simp add: broker_inv_def list_all_length)
  ultimately show ?thesis
    by (auto simp: entry_ok_def readResolution_def Let_def)
qed

theorem resolution_is_final_witness:
  "re_resolution (b_heap (broker_run sample_broker [EvCancel 30 ''s1'', EvShutdown 40]) ! 0)
     = \<lparr>rs_ApprovalID = ''apr_1'', rs_Outcome = OutcomeAllowOnce, rs_Reason = ReasonUser, rs_ResolvedAt = 20\<rparr>"
  using resolution_is_final [of 100 sample_broker 0 "[EvCancel 30 ''s1'', EvShutdown 40]"]
    reachable_run [of 100 sample_events]
  by (simp add: sample_run sample_broker_def [symmetric] pending_of_draft_def)

text \<open>
  C6. A full-mode grant is used at most once per issue: in any run, the number of successful
  consumptions of a grant identifier is at most the number of times a grant with that
  identifier was issued.
\<close>

theorem grant_consumed_at_most_once:
  "tally bstep (\<lambda>b ev. grant_consumed b ev gid) (NewBroker ttl) evs
     \<le> tally bstep (\<lambda>b ev. grant_issued b ev gid) (NewBroker ttl) evs"
  using grants.consumed_le_issued [OF NewBroker_inv, of gid ttl evs]
  by (simp add: grant_held_def NewBroker_def)

lemma sameFullModePending_iff: "sameFullModePending l r \<longleftrightarrow> l = r"
  by (cases l; cases r) (auto simp: sameFullModePending_def)

text \<open>
  C7. A grant authorises exactly the call it was issued for: a consumption succeeds only
  with the stored pending record unchanged, a draft that matches it field by field, the
  stored policy in full mode, before expiry and outside a canceled session, and it removes
  the grant. A mismatch is refused and leaves the broker unchanged.
\<close>

theorem consume_is_exact:
  assumes "ConsumeFullModeGrant now grant expected policy b = (b', out)"
  shows "(out = None \<longrightarrow>
      (\<exists>entry. map_of (b_grants b) (p_ID grant) = Some entry \<and> grant = g_pending entry
         \<and> policy = g_policy entry \<and> sn_Mode policy = ModeFull
         \<and> fullModeDraftMatchesPending expected grant
         \<and> now < p_ExpiresAt grant \<and> d_SessionID expected \<notin> set (b_canceled b))
      \<and> map_of (b_grants b') (p_ID grant) = None)
    \<and> (out = Some ErrInvalidFullModeGrant \<longrightarrow> b' = b)"
proof -
  have "map_of (b_grants (delete_grant (p_ID grant) b)) (p_ID grant) = None"
    by (auto simp: delete_grant_def map_of_eq_None_iff)
  then show ?thesis
    using assms Consume_success_iff [of now grant expected policy b]
      Consume_success_deletes [of now grant expected policy b]
    by (auto simp: sameFullModePending_iff validateFullModePolicy_def ConsumeFullModeGrant_def
        split: sum.splits option.splits if_splits)
qed

definition sample_policy :: snapshot where
  "sample_policy = \<lparr>sn_Mode = ModeFull, sn_Revision = 3, sn_Capabilities = zero_capabilities,
     sn_ParentRevision = 0, sn_FullSelectionRevision = 3, sn_Source = SourceUserSelected\<rparr>"

definition sample_full_draft :: draft where
  "sample_full_draft = sample_draft\<lparr>d_InputDigest :=
     ''sha256:0123456789abcdef0123456789abcdef0123456789abcdef0123456789abcdef'',
     d_ExecutionPolicyRevision := 3, d_FullSelectionRevision := 3\<rparr>"

definition sample_grant :: pending where
  "sample_grant = (pending_of_draft ''g1'' sample_full_draft 10 100)
     \<lparr>p_ApprovalSource := ApprovalSourceUserSelectedFull\<rparr>"

definition sample_grant_broker :: broker where
  "sample_grant_broker = (NewBroker 100)\<lparr>b_grants :=
     [(''g1'', \<lparr>g_ref = 0, g_pending = sample_grant, g_policy = sample_policy, g_timer = None\<rparr>)]\<rparr>"

lemma sample_grant_valid:
  "validateFullModePolicy sample_policy = Inr ()"
  "validateFullModeDraft sample_full_draft sample_policy = Inr ()"
  by code_simp+

theorem consume_is_exact_witness:
  "\<exists>b'. ConsumeFullModeGrant 50 sample_grant sample_full_draft sample_policy sample_grant_broker = (b', None)
     \<and> map_of (b_grants b') ''g1'' = None"
proof -
  have sel: "p_ID sample_grant = ''g1''" "p_ExpiresAt sample_grant = 110"
    "fullModeDraftMatchesPending sample_full_draft sample_grant"
    by (simp_all add: sample_grant_def pending_of_draft_def fullModeDraftMatchesPending_def
        sample_full_draft_def sample_draft_def)
  have "snd (ConsumeFullModeGrant 50 sample_grant sample_full_draft sample_policy sample_grant_broker) = None"
    by (simp add: Consume_success_iff sample_grant_valid sel sameFullModePending_iff sample_grant_broker_def
        NewBroker_def)
  then obtain b' where b': "ConsumeFullModeGrant 50 sample_grant sample_full_draft sample_policy sample_grant_broker
      = (b', None)"
    by (metis prod.collapse)
  show ?thesis
    using consume_is_exact [OF b'] b' by (simp add: sel)
qed

lemma canceled_step: "set (b_canceled b) \<subseteq> set (b_canceled (bstep b ev))"
  by (cases ev)
    (auto simp: Open_def IssueFullModeGrant_def ConsumeFullModeGrant_def Resolve_decision_def Await_begin_def
      Await_context_fst resolveSystem_def CancelSession_def Shutdown_def expire_def purge_def
      delete_request_def set_timer_def expireFullModeGrant_def case_prod_unfold Let_def
      split: sum.split option.split)

lemma canceled_run: "sid \<in> set (b_canceled b) \<Longrightarrow> sid \<in> set (b_canceled (broker_run b evs))"
  by (induction evs arbitrary: b) (use canceled_step in auto)

lemma canceled_refuses:
  assumes inv: "broker_inv b" and sid: "sid \<in> set (b_canceled b)"
  shows "\<And>t gen d. d_SessionID d = sid \<Longrightarrow> \<exists>e. snd (Open t gen d b) = Inl e"
    and "\<And>t dec. dc_SessionID dec = sid \<Longrightarrow> snd (snd (Resolve_decision t dec b)) \<noteq> None"
    and "\<And>t g d pol. d_SessionID d = sid \<Longrightarrow> snd (ConsumeFullModeGrant t g d pol b) \<noteq> None"
proof -
  show "\<exists>e. snd (Open t gen d b) = Inl e" if "d_SessionID d = sid" for t gen d
    using that sid by (auto simp: Open_def split: sum.split)
  show "snd (ConsumeFullModeGrant t g d pol b) \<noteq> None" if "d_SessionID d = sid" for t g d pol
    using that sid by (simp add: Consume_success_iff)
  show "snd (snd (Resolve_decision t dec b)) \<noteq> None" if dec: "dc_SessionID dec = sid" for t dec
  proof -
    have "re_resolved (b_heap b ! r)" if "lookup_owned b (dc_SessionID dec) (dc_ApprovalID dec) = Some r" for r
      using lookup_owned_SomeD [OF that] inv_requestD(1) [OF inv] inv sid dec
      by (auto simp: broker_inv_def)
    then show ?thesis
      by (auto simp: Resolve_decision_def Let_def split: option.split)
  qed
qed

text \<open>
  C8. Cancellation is permanent: after a session is canceled on an open broker, then in every
  later state no request can be opened for it, no decision of it is accepted and no
  full-mode grant of it is consumed.
\<close>

theorem cancel_is_permanent:
  assumes "reachable ttl b" and "\<not> b_closed b" and "trim_space sid \<noteq> []"
    and "b' = broker_run (CancelSession now sid b) evs"
  shows "(d_SessionID d = sid \<longrightarrow> (\<exists>e. snd (Open t gen d b') = Inl e))
    \<and> (dc_SessionID dec = sid \<longrightarrow> snd (snd (Resolve_decision t dec b')) \<noteq> None)
    \<and> (d_SessionID d = sid \<longrightarrow> snd (ConsumeFullModeGrant t g d pol b') \<noteq> None)"
proof -
  have "broker_inv b'"
    unfolding assms(4) using reachable_inv [OF assms(1)] by (intro broker_run_inv Cancel_inv)
  moreover have "sid \<in> set (b_canceled b')"
    unfolding assms(4) using assms(2,3) by (intro canceled_run) (simp add: CancelSession_def Let_def)
  ultimately show ?thesis
    using canceled_refuses by blast
qed

theorem cancel_is_permanent_witness:
  "\<exists>e. snd (Open 50 (\<lambda>_. Some ''apr_2'') sample_draft
      (broker_run (CancelSession 30 ''s1'' sample_broker) [EvExpire 40 0])) = Inl e"
  using cancel_is_permanent [OF reachable_run [of 100 sample_events, folded sample_broker_def]
      sample_requests(2) _ refl, of "''s1''" sample_draft 50 "\<lambda>_. Some ''apr_2''" 30 "[EvExpire 40 0]"]
  by (simp only: sample_trims) (simp add: sample_draft_def)

lemma closed_step: "b_closed b \<Longrightarrow> b_closed (bstep b ev)"
  by (cases ev)
    (auto simp: Open_def IssueFullModeGrant_def ConsumeFullModeGrant_def Resolve_decision_def Await_begin_def
      Await_context_fst resolveSystem_def CancelSession_def Shutdown_def expire_def purge_def
      delete_request_def set_timer_def expireFullModeGrant_def case_prod_unfold Let_def
      split: sum.split option.split)

lemma closed_run: "b_closed b \<Longrightarrow> b_closed (broker_run b evs)"
  by (induction evs arbitrary: b) (use closed_step in auto)

text \<open>
  Shutdown is complete and final: in every state after it, every request ever opened is
  resolved, opening, deciding, waiting and consuming all fail, and a second shutdown
  changes nothing.
\<close>

theorem shutdown_is_final:
  assumes "reachable ttl b" and "b' = broker_run (Shutdown now b) evs"
  shows "(\<forall>e. e \<in> set (b_heap b') \<longrightarrow> re_resolved e)
    \<and> (\<exists>x. snd (Open t gen d b') = Inl x)
    \<and> snd (snd (Resolve_decision t dec b')) \<in> {Some ErrBrokerClosed, Some ErrInvalidDecision}
    \<and> snd (Await_begin t sid aid b') = AwaitReturn (deniedResolution t aid ReasonBrokerShutdown) (Some ErrBrokerClosed)
    \<and> snd (ConsumeFullModeGrant t g d pol b') \<noteq> None
    \<and> Shutdown t b' = b'"
proof -
  have inv: "broker_inv b'"
    unfolding assms(2) using reachable_inv [OF assms(1)] by (intro broker_run_inv Shutdown_inv)
  have closed: "b_closed b'"
    unfolding assms(2) by (intro closed_run) (simp add: Shutdown_def Let_def)
  have "re_resolved e" if "e \<in> set (b_heap b')" for e
    using that inv closed by (auto simp: inv_defs in_set_conv_nth)
  then show ?thesis
    using closed
    by (auto simp: Open_def Resolve_decision_def Await_begin_def Consume_success_iff Shutdown_def split: sum.split)
qed

theorem shutdown_is_final_witness:
  "re_resolved (b_heap (broker_run (Shutdown 5 sample_broker) []) ! 0)
   \<and> Shutdown 6 (Shutdown 5 sample_broker) = Shutdown 5 sample_broker"
proof -
  have "length (b_heap (Shutdown 5 sample_broker)) = 1"
    using sample_run by (simp add: Shutdown_def Let_def)
  then show ?thesis
    using shutdown_is_final [OF reachable_run [of 100 sample_events, folded sample_broker_def] refl,
        where now = 5 and evs = "[]" and t = 6]
    by (metis broker_run.simps(1) nth_mem zero_less_one)
qed

text \<open>
  C10. Sessions are isolated: deciding, waiting on or canceling an approval that belongs to
  another session has the same reply as naming an approval that does not exist, and leaves
  the broker unchanged.
\<close>

theorem foreign_session_indistinguishable:
  assumes "\<not> b_closed b" and "map_of (b_requests b) aid = Some r"
    and "p_SessionID (re_pending (b_heap b ! r)) \<noteq> sid" and "map_of (b_requests b) unknown = None"
  shows "Resolve_decision now \<lparr>dc_ApprovalID = aid, dc_SessionID = sid, dc_Outcome = out\<rparr> b
      = Resolve_decision now \<lparr>dc_ApprovalID = unknown, dc_SessionID = sid, dc_Outcome = out\<rparr> b
    \<and> fst (Resolve_decision now \<lparr>dc_ApprovalID = aid, dc_SessionID = sid, dc_Outcome = out\<rparr> b) = b
    \<and> Await_begin now sid aid b = Await_begin now sid unknown b
    \<and> fst (Await_begin now sid aid b) = b
    \<and> Await_context_done now err sid aid b = Await_context_done now err sid unknown b
    \<and> fst (Await_context_done now err sid aid b) = b"
proof -
  have "lookup_owned b sid aid = None" "lookup_owned b sid unknown = None"
    using assms by (simp_all add: lookup_owned_def)
  then show ?thesis
    using assms(1)
    by (auto simp: Resolve_decision_def Await_begin_def Await_context_done_def resolveSystem_def)
qed

theorem foreign_session_indistinguishable_witness:
  "Await_begin 30 ''s2'' ''apr_1'' sample_broker = Await_begin 30 ''s2'' ''none'' sample_broker"
  using foreign_session_indistinguishable [of sample_broker "''apr_1''" 0 "''s2''" "''none''"]
  by (simp add: sample_requests sample_run pending_of_draft_def sample_draft_def)

lemma allocate_from_live:
  assumes "k < left" and "gen (a + k) = Some i" and "i \<noteq> []"
    and "map_of (b_requests b) i = None" "map_of (b_grants b) i = None"
    and "\<And>j. j < k \<Longrightarrow> \<exists>x. gen (a + j) = Some x \<and> x \<noteq> []"
  shows "\<exists>y. allocate_from b gen a left = Inr y"
  using assms
proof (induction b gen a left arbitrary: k rule: allocate_from.induct)
  case (2 b gen a left)
  show ?case
  proof (cases k)
    case 0
    with "2.prems" show ?thesis by simp
  next
    case (Suc k')
    obtain x where x: "gen a = Some x" "x \<noteq> []"
      using "2.prems"(6) [of 0] Suc by auto
    have later: "\<exists>x. gen (Suc a + j) = Some x \<and> x \<noteq> []" if "j < k'" for j
      using "2.prems"(6) [of "Suc j"] that Suc by simp
    have "\<exists>y. allocate_from b gen (Suc a) left = Inr y"
      if "\<not> (map_of (b_requests b) x = None \<and> map_of (b_grants b) x = None)"
      using "2.IH" [OF x(1,2) that, of k'] "2.prems"(1-5) Suc later by simp
    with x show ?thesis by auto
  qed
qed simp

text \<open>
  C11. The handshake makes progress: on an open broker, a valid draft of a session that is
  not canceled is opened as soon as one of the first 16 generated identifiers is new, and
  then the owner's allow_once decision given before the expiry is accepted with a granting
  resolution, which a waiting caller reads.
\<close>

theorem open_then_allow:
  assumes "broker_inv b" and "\<not> b_closed b" and "d_SessionID d \<notin> set (b_canceled b)"
    and "validateDraft d = Inr ()"
    and "k < 16" and "gen k = Some i" and "i \<noteq> []"
    and "map_of (b_requests b) i = None" "map_of (b_grants b) i = None"
    and "\<And>j. j < k \<Longrightarrow> \<exists>x. gen j = Some x \<and> x \<noteq> []"
  shows "\<exists>b1 p b2 res. Open now gen d b = (b1, Inr p) \<and> p_ExpiresAt p = now + b_ttl b
    \<and> Resolve_decision t \<lparr>dc_ApprovalID = p_ID p, dc_SessionID = d_SessionID d, dc_Outcome = OutcomeAllowOnce\<rparr> b1
       = (if t < now + b_ttl b then (b2, res, None) else (b2, res, Some ErrApprovalExpired))
    \<and> (Allowed res \<longleftrightarrow> t < now + b_ttl b)
    \<and> snd (Await_begin t (d_SessionID d) (p_ID p) b2) = AwaitReturn res (resolutionError res)"
proof -
  obtain newid where new: "allocateIDLocked b gen = Inr newid"
    using allocate_from_live [of k 16 gen 0 i b] assms by (auto simp: allocateIDLocked_def maxIDAttempts_def)
  let ?p = "pending_of_draft newid d now (b_ttl b)"
  let ?e = "\<lparr>re_pending = ?p, re_done_closed = False, re_resolved = False,
    re_resolution = zero_resolution, re_timer = Some (ExpireTimer (b_ttl b))\<rparr>"
  let ?b1 = "b\<lparr>b_heap := b_heap b @ [?e], b_requests := (newid, length (b_heap b)) # b_requests b\<rparr>"
  have o: "Open now gen d b = (?b1, Inr ?p)"
    using assms new by (simp add: Open_def Let_def)
  have p: "p_ID ?p = newid" "p_SessionID ?p = d_SessionID d" "p_ExpiresAt ?p = now + b_ttl b"
    by (simp_all add: pending_of_draft_def)
  have own: "lookup_owned ?b1 (d_SessionID d) newid = Some (length (b_heap b))"
    by (simp add: lookup_owned_def p)
  define b2 where "b2 = (if t < now + b_ttl b then resolve_at t OutcomeAllowOnce ReasonUser (length (b_heap b)) ?b1
      else resolve_at t OutcomeDeny ReasonExpired (length (b_heap b)) ?b1)"
  define res where "res = re_resolution (b_heap b2 ! length (b_heap b))"
  have "Resolve_decision t \<lparr>dc_ApprovalID = newid, dc_SessionID = d_SessionID d, dc_Outcome = OutcomeAllowOnce\<rparr> ?b1
      = (if t < now + b_ttl b then (b2, res, None) else (b2, res, Some ErrApprovalExpired))"
    using assms(2) by (simp add: Resolve_decision_def own p Let_def b2_def res_def)
  moreover have "Allowed res \<longleftrightarrow> t < now + b_ttl b"
    by (simp add: res_def b2_def Allowed_def)
  moreover have "snd (Await_begin t (d_SessionID d) newid b2) = AwaitReturn res (resolutionError res)"
    using assms(2) by (simp add: Await_begin_def b2_def res_def lookup_owned_def p Let_def)
  ultimately show ?thesis
    by (intro exI [of _ ?b1] exI [of _ ?p] exI [of _ b2] exI [of _ res]) (simp add: p o)
qed

theorem open_then_allow_witness:
  "\<exists>b1 p b2 res. Open 10 (\<lambda>_. Some ''apr_9'') sample_draft (NewBroker 100) = (b1, Inr p)
    \<and> Resolve_decision 20 \<lparr>dc_ApprovalID = p_ID p, dc_SessionID = ''s1'', dc_Outcome = OutcomeAllowOnce\<rparr> b1
       = (b2, res, None) \<and> Allowed res"
proof -
  have "validateDraft sample_draft = Inr ()"
    by (simp add: validateDraft_def sample_draft_def sample_trims maxRedactedInputBytes_def)
  then show ?thesis
    using open_then_allow [OF NewBroker_inv, of 100 sample_draft 0 "\<lambda>_. Some ''apr_9''" "''apr_9''" 10 20]
    by (fastforce simp: NewBroker_def sample_draft_def)
qed

end
