(* ===== verification/Plan_Anchor.thy ===== *)
theory Plan_Anchor
  imports Interfaces
begin

text \<open>
  Plan anchors (\<^verbatim>\<open>internal/agent/plan_anchor.go\<close>): the immutable reminder of
  a run's objective, its steps and its Definition of Done. The accessors that return copies
  of the slices are the selectors of the record, since a model value cannot be shared.
\<close>

datatype anchor_error =
  AnchorObjectiveRequired | AnchorRevisionNegative | AnchorDodRequired
| AnchorUnresolved | AnchorInvalidMode

record anchor_spec =
  as_Objective :: string
  as_CurrentStep :: string
  as_RemainingSteps :: "string list"
  as_DefinitionOfDone :: "string list"
  as_Revision :: int

record plan_anchor =
  pa_objective :: string
  pa_currentStep :: string
  pa_remainingSteps :: "string list"
  pa_definitionOfDone :: "string list"
  pa_revision :: int

abbreviation PlanAnchorOff :: string where "PlanAnchorOff \<equiv> ''off''"
abbreviation PlanAnchorCompact :: string where "PlanAnchorCompact \<equiv> ''compact''"
abbreviation PlanAnchorStrict :: string where "PlanAnchorStrict \<equiv> ''strict''"

definition plan_anchor_mode_valid :: "string \<Rightarrow> bool" where
  "plan_anchor_mode_valid m \<longleftrightarrow> m = PlanAnchorOff \<or> m = PlanAnchorCompact \<or> m = PlanAnchorStrict"

definition normalizeAnchorText :: "string \<Rightarrow> string" where
  "normalizeAnchorText value = join '' '' (go_fields value)"

fun normalize_items :: "string set \<Rightarrow> string list \<Rightarrow> string list" where
  "normalize_items seen [] = []"
| "normalize_items seen (item # items) =
     (let t = normalizeAnchorText item in
      if t = [] \<or> t \<in> seen then normalize_items seen items
      else t # normalize_items (insert t seen) items)"

definition normalizeAnchorItems :: "string list \<Rightarrow> string list" where
  "normalizeAnchorItems items = normalize_items {} items"

definition NewPlanAnchor :: "anchor_spec \<Rightarrow> anchor_error + plan_anchor" where
  "NewPlanAnchor spec =
     (let objective = normalizeAnchorText (as_Objective spec) in
      if objective = [] then Inl AnchorObjectiveRequired
      else if as_Revision spec < 0 then Inl AnchorRevisionNegative
      else
        let dod = normalizeAnchorItems (as_DefinitionOfDone spec) in
        if length dod = 0 then Inl AnchorDodRequired
        else Inr \<lparr>pa_objective = objective, pa_currentStep = normalizeAnchorText (as_CurrentStep spec),
               pa_remainingSteps = normalizeAnchorItems (as_RemainingSteps spec),
               pa_definitionOfDone = dod, pa_revision = as_Revision spec\<rparr>)"

definition anchor_Valid :: "plan_anchor \<Rightarrow> bool" where
  "anchor_Valid a \<longleftrightarrow> pa_objective a \<noteq> [] \<and> length (pa_definitionOfDone a) > 0 \<and> pa_revision a \<ge> 0"

definition WithProgress :: "plan_anchor \<Rightarrow> string \<Rightarrow> string list \<Rightarrow> anchor_error + plan_anchor" where
  "WithProgress a currentStep remainingSteps =
     (if \<not> anchor_Valid a then Inl AnchorUnresolved
      else Inr \<lparr>pa_objective = pa_objective a, pa_currentStep = normalizeAnchorText currentStep,
             pa_remainingSteps = normalizeAnchorItems remainingSteps,
             pa_definitionOfDone = pa_definitionOfDone a, pa_revision = wrap_int (pa_revision a + 1)\<rparr>)"

definition escape_byte :: "char \<Rightarrow> string" where
  "escape_byte c = (if c = CHR ''&'' then ''&amp;'' else if c = CHR ''<'' then ''&lt;''
     else if c = CHR ''>'' then ''&gt;'' else [c])"

definition escapeAnchorText :: "string \<Rightarrow> string" where
  "escapeAnchorText value = concat (map escape_byte value)"

definition writeAnchorLine :: "string \<Rightarrow> string \<Rightarrow> string" where
  "writeAnchorLine label value = label @ '': '' @ escapeAnchorText value @ [CHR 0x0A]"

definition writeAnchorList :: "string \<Rightarrow> string list \<Rightarrow> string" where
  "writeAnchorList label items = label @ '':'' @ [CHR 0x0A]
     @ concat (map (\<lambda>item. ''- '' @ escapeAnchorText item @ [CHR 0x0A]) items)"

definition Render :: "plan_anchor \<Rightarrow> string \<Rightarrow> anchor_error + string" where
  "Render a mode =
     (if mode = PlanAnchorOff then Inr []
      else if \<not> plan_anchor_mode_valid mode then Inl AnchorInvalidMode
      else if \<not> anchor_Valid a then Inl AnchorUnresolved
      else Inr (''<plan-anchor revision='' @ [CHR 0x22] @ show_int (pa_revision a) @ [CHR 0x22] @ ''>'' @ [CHR 0x0A]
        @ writeAnchorLine ''Objective'' (pa_objective a)
        @ (if pa_currentStep a \<noteq> [] then writeAnchorLine ''Current step'' (pa_currentStep a) else [])
        @ writeAnchorList ''Remaining steps'' (pa_remainingSteps a)
        @ writeAnchorList ''Definition of Done'' (pa_definitionOfDone a)
        @ (if mode = PlanAnchorStrict then writeAnchorLine ''Completion rule''
             ''Report done only after the configured verification and evidence gates pass.'' else [])
        @ ''</plan-anchor>''))"

section \<open>Normalised text\<close>

text \<open>A text is normal if it is its own normalisation: single blanks between the fields.\<close>

definition normal_text :: "string \<Rightarrow> bool" where
  "normal_text s \<longleftrightarrow> normalizeAnchorText s = s"

definition normal_items :: "string list \<Rightarrow> bool" where
  "normal_items ts \<longleftrightarrow> distinct ts \<and> (\<forall>t \<in> set ts. t \<noteq> [] \<and> normal_text t)"

lemma normalizeAnchorText_idem [simp]: "normalizeAnchorText (normalizeAnchorText s) = normalizeAnchorText s"
  by (simp add: normalizeAnchorText_def fields_join_fields)

lemma normal_normalize [simp, intro]: "normal_text (normalizeAnchorText s)"
  by (simp add: normal_text_def)

lemma normal_items_Cons:
  "normal_items (t # ts) \<longleftrightarrow> t \<noteq> [] \<and> normal_text t \<and> t \<notin> set ts \<and> normal_items ts"
  by (auto simp: normal_items_def)

lemma normal_items_Nil [simp]: "normal_items []"
  by (simp add: normal_items_def)

lemma normalize_items_set:
  "set (normalize_items seen items) = normalizeAnchorText ` set items - {[]} - seen"
  by (induction items arbitrary: seen) (auto simp: Let_def)

lemma normalize_items_normal: "normal_items (normalize_items seen items)"
  by (induction items arbitrary: seen) (simp_all add: Let_def normal_items_Cons normalize_items_set)

lemma normalizeAnchorItems_normal [simp, intro]: "normal_items (normalizeAnchorItems items)"
  by (simp add: normalizeAnchorItems_def normalize_items_normal)

lemma normalize_items_fix:
  "normal_items ts \<Longrightarrow> set ts \<inter> seen = {} \<Longrightarrow> normalize_items seen ts = ts"
  by (induction ts arbitrary: seen) (simp_all add: normal_items_Cons normal_text_def)

lemma normalizeAnchorItems_fix: "normal_items ts \<Longrightarrow> normalizeAnchorItems ts = ts"
  by (simp add: normalizeAnchorItems_def normalize_items_fix)

text \<open>No white space byte but the blank survives normalisation; in particular no newline.\<close>

lemma token_no_newline: "spaceless t [] \<Longrightarrow> CHR 0x0A \<notin> set t"
proof
  assume t: "spaceless t []" and "CHR 0x0A \<in> set t"
  then obtain i where i: "i < length t" "t ! i = CHR 0x0A" by (auto simp: in_set_conv_nth)
  then have "drop i t = CHR 0x0A # drop (Suc i) t" by (simp add: Cons_nth_drop_Suc [symmetric])
  moreover from t i have "space_len (drop i t) = 0" by (simp add: spaceless_def)
  ultimately show False by (simp add: space_len_0_iff space_encodings_def has_prefix_def)
qed

lemma normal_no_newline: "normal_text s \<Longrightarrow> CHR 0x0A \<notin> set s"
proof -
  assume "normal_text s"
  then have "set s \<subseteq> (\<Union>t \<in> set (go_fields s). set t) \<union> {CHR '' ''}"
    using set_join [of "'' ''" "go_fields s"] by (simp add: normal_text_def normalizeAnchorText_def)
  with fields_tokens token_no_newline show ?thesis by fastforce
qed

section \<open>Invariant\<close>

definition anchor_inv :: "plan_anchor \<Rightarrow> bool" where
  "anchor_inv a \<longleftrightarrow> pa_objective a \<noteq> [] \<and> normal_text (pa_objective a) \<and> normal_text (pa_currentStep a)
     \<and> normal_items (pa_remainingSteps a) \<and> normal_items (pa_definitionOfDone a) \<and> pa_definitionOfDone a \<noteq> []"

lemma NewPlanAnchor_inv: "NewPlanAnchor spec = Inr a \<Longrightarrow> anchor_inv a \<and> anchor_Valid a"
  by (auto simp: NewPlanAnchor_def anchor_inv_def anchor_Valid_def Let_def split: if_splits)

lemma WithProgress_inv: "anchor_inv a \<Longrightarrow> WithProgress a cur rem = Inr a' \<Longrightarrow> anchor_inv a'"
  by (auto simp: WithProgress_def anchor_inv_def split: if_splits)

text \<open>A sequence of progress reports; the first failure ends it.\<close>

fun progress_run :: "(string \<times> string list) list \<Rightarrow> plan_anchor \<Rightarrow> anchor_error + plan_anchor" where
  "progress_run [] a = Inr a"
| "progress_run ((cur, rem) # ps) a =
     (case WithProgress a cur rem of Inl e \<Rightarrow> Inl e | Inr a' \<Rightarrow> progress_run ps a')"

lemma progress_run_ok:
  "anchor_inv a \<Longrightarrow> anchor_Valid a \<Longrightarrow> pa_revision a + int (length ps) \<le> max_int \<Longrightarrow>
     \<exists>a'. progress_run ps a = Inr a' \<and> anchor_inv a' \<and> anchor_Valid a'
       \<and> pa_objective a' = pa_objective a \<and> pa_definitionOfDone a' = pa_definitionOfDone a
       \<and> pa_revision a' = pa_revision a + int (length ps)"
proof (induction ps arbitrary: a)
  case (Cons p ps)
  obtain cur rem where p: "p = (cur, rem)" by (cases p)
  let ?a = "a\<lparr>pa_currentStep := normalizeAnchorText cur, pa_remainingSteps := normalizeAnchorItems rem,
    pa_revision := pa_revision a + 1\<rparr>"
  have step: "WithProgress a cur rem = Inr ?a"
    using Cons.prems by (simp add: WithProgress_def anchor_Valid_def)
  have "anchor_inv ?a" "anchor_Valid ?a" "pa_revision ?a + int (length ps) \<le> max_int"
    using Cons.prems by (simp_all add: anchor_inv_def anchor_Valid_def)
  from Cons.IH [OF this] step show ?case by (auto simp: p)
qed simp

section \<open>Rendering\<close>

lemma escape_no_markup: "CHR ''<'' \<notin> set (escapeAnchorText s) \<and> CHR ''>'' \<notin> set (escapeAnchorText s)"
  by (induction s) (auto simp: escapeAnchorText_def escape_byte_def)

lemma escape_newline: "count_list (escapeAnchorText s) (CHR 0x0A) = count_list s (CHR 0x0A)"
  by (induction s) (auto simp: escapeAnchorText_def escape_byte_def)

lemma normal_escape_newline: "normal_text s \<Longrightarrow> count_list (escapeAnchorText s) (CHR 0x0A) = 0"
  by (simp add: escape_newline normal_no_newline)

text \<open>The reader's side of the escaping.\<close>

fun unescape :: "string \<Rightarrow> string" where
  "unescape [] = []"
| "unescape (c # s) =
     (if has_prefix (c # s) ''&amp;'' then CHR ''&'' # unescape (drop 4 s)
      else if has_prefix (c # s) ''&lt;'' then CHR ''<'' # unescape (drop 3 s)
      else if has_prefix (c # s) ''&gt;'' then CHR ''>'' # unescape (drop 3 s)
      else c # unescape s)"

lemma unescape_escape: "unescape (escapeAnchorText s) = s"
  by (induction s) (auto simp: escapeAnchorText_def escape_byte_def has_prefix_def)

lemma count_list_0: "c \<notin> set s \<Longrightarrow> count_list s c = 0"
  by (simp add: count_list_0_iff)

lemma show_int_plain: "c = CHR ''<'' \<or> c = CHR 0x0A \<Longrightarrow> count_list (show_int i) c = 0"
  using show_nat_digits [of c] by (auto simp: show_int_def byte_def of_char_def count_list_0_iff)

lemma line_counts:
  "CHR ''<'' \<notin> set label \<Longrightarrow> count_list (writeAnchorLine label v) (CHR ''<'') = 0"
  "CHR 0x0A \<notin> set label \<Longrightarrow> normal_text v \<Longrightarrow> count_list (writeAnchorLine label v) (CHR 0x0A) = 1"
  by (simp_all add: writeAnchorLine_def escape_no_markup count_list_0 normal_escape_newline)

lemma list_counts:
  "CHR ''<'' \<notin> set label \<Longrightarrow> count_list (writeAnchorList label ts) (CHR ''<'') = 0"
  "CHR 0x0A \<notin> set label \<Longrightarrow> normal_items ts \<Longrightarrow>
     count_list (writeAnchorList label ts) (CHR 0x0A) = Suc (length ts)"
proof -
  show "count_list (writeAnchorList label ts) (CHR ''<'') = 0" if "CHR ''<'' \<notin> set label"
    using that by (induction ts) (simp_all add: writeAnchorList_def escape_no_markup count_list_0)
  show "count_list (writeAnchorList label ts) (CHR 0x0A) = Suc (length ts)"
    if "CHR 0x0A \<notin> set label" "normal_items ts"
    using that
    by (induction ts) (simp_all add: writeAnchorList_def count_list_0 normal_escape_newline normal_items_def)
qed

lemma completion_rule_normal:
  "normal_text ''Report done only after the configured verification and evidence gates pass.''"
  by code_simp

lemma Render_counts:
  assumes "anchor_inv a" and "anchor_Valid a" and "mode = PlanAnchorCompact \<or> mode = PlanAnchorStrict"
  shows "\<exists>out. Render a mode = Inr out
    \<and> has_prefix out ''<plan-anchor revision='' \<and> has_suffix out ''</plan-anchor>''
    \<and> count_list out (CHR ''<'') = 2
    \<and> count_list out (CHR 0x0A) = 4 + length (pa_remainingSteps a) + length (pa_definitionOfDone a)
        + (if pa_currentStep a \<noteq> [] then 1 else 0) + (if mode = PlanAnchorStrict then 1 else 0)"
proof -
  obtain body where body: "Render a mode = Inr (''<plan-anchor revision='' @ body @ ''</plan-anchor>'')"
    using assms by (auto simp: Render_def plan_anchor_mode_valid_def)
  have inv: "normal_text (pa_objective a)" "normal_text (pa_currentStep a)"
    "normal_items (pa_remainingSteps a)" "normal_items (pa_definitionOfDone a)"
    using assms(1) by (simp_all add: anchor_inv_def)
  have "count_list body (CHR ''<'') = 0
    \<and> count_list body (CHR 0x0A) = 4 + length (pa_remainingSteps a) + length (pa_definitionOfDone a)
        + (if pa_currentStep a \<noteq> [] then 1 else 0) + (if mode = PlanAnchorStrict then 1 else 0)"
    using assms(2,3) body inv
    by (auto simp: Render_def plan_anchor_mode_valid_def line_counts list_counts show_int_plain
        completion_rule_normal)
  then show ?thesis
    unfolding body by (auto simp: has_suffix_iff has_prefix_def)
qed

section \<open>Properties\<close>

text \<open>
  The contract of a plan survives progress: from a constructed anchor every sequence
  of progress reports succeeds (as long as the revision stays in the range of a Go int),
  keeps the objective and the Definition of Done, adds one revision per report, and keeps
  all texts normalised and the lists free of blanks and duplicates.
\<close>

theorem progress_keeps_contract:
  assumes "NewPlanAnchor spec = Inr a" and "as_Revision spec + int (length ps) \<le> max_int"
  shows "\<exists>a'. progress_run ps a = Inr a' \<and> anchor_Valid a'
    \<and> pa_objective a' = normalizeAnchorText (as_Objective spec)
    \<and> pa_definitionOfDone a' = normalizeAnchorItems (as_DefinitionOfDone spec)
    \<and> pa_revision a' = as_Revision spec + int (length ps)
    \<and> anchor_inv a'"
proof -
  have "anchor_inv a" "anchor_Valid a"
    using NewPlanAnchor_inv [OF assms(1)] by auto
  moreover have "pa_revision a = as_Revision spec" "pa_objective a = normalizeAnchorText (as_Objective spec)"
    "pa_definitionOfDone a = normalizeAnchorItems (as_DefinitionOfDone spec)"
    using assms(1) by (auto simp: NewPlanAnchor_def Let_def split: if_splits)
  ultimately show ?thesis
    using progress_run_ok [of a ps] assms(2) by auto
qed

definition sample_spec :: anchor_spec where
  "sample_spec = \<lparr>as_Objective = '' ship   it '', as_CurrentStep = ''build'', as_RemainingSteps = [''test''],
     as_DefinitionOfDone = [''tests  pass'', ''<b>'', ''tests pass''], as_Revision = 0\<rparr>"

definition sample_anchor :: plan_anchor where
  "sample_anchor = \<lparr>pa_objective = ''ship it'', pa_currentStep = ''build'', pa_remainingSteps = [''test''],
     pa_definitionOfDone = [''tests pass'', ''<b>''], pa_revision = 0\<rparr>"

lemma sample_anchor_new: "NewPlanAnchor sample_spec = Inr sample_anchor"
  by code_simp

theorem progress_keeps_contract_witness:
  "\<exists>a'. progress_run [(''test'', []), (''done'', [])] sample_anchor = Inr a'
    \<and> pa_definitionOfDone a' = normalizeAnchorItems (as_DefinitionOfDone sample_spec) \<and> pa_revision a' = 2"
  using progress_keeps_contract [OF sample_anchor_new, of "[(''test'', []), (''done'', [])]"]
  by (auto simp: sample_spec_def)

text \<open>
  C15. Plan text cannot forge the reminder's structure: whatever texts an anchor was built
  and updated from, a rendered reminder starts with the opening tag, ends with the closing
  tag, holds no other opening angle bracket, and has exactly one line per entry.
\<close>

theorem render_unforgeable:
  assumes "NewPlanAnchor spec = Inr a" and "as_Revision spec + int (length ps) \<le> max_int"
    and "mode = PlanAnchorCompact \<or> mode = PlanAnchorStrict"
  shows "\<exists>a' out. progress_run ps a = Inr a' \<and> Render a' mode = Inr out
    \<and> has_prefix out ''<plan-anchor revision='' \<and> has_suffix out ''</plan-anchor>''
    \<and> count_list out (CHR ''<'') = 2
    \<and> count_list out (CHR 0x0A) = 4 + length (pa_remainingSteps a') + length (pa_definitionOfDone a')
        + (if pa_currentStep a' \<noteq> [] then 1 else 0) + (if mode = PlanAnchorStrict then 1 else 0)"
proof -
  have "pa_revision a = as_Revision spec"
    using assms(1) by (auto simp: NewPlanAnchor_def Let_def split: if_splits)
  with NewPlanAnchor_inv [OF assms(1)] progress_run_ok [of a ps] assms(2)
  obtain a' where "progress_run ps a = Inr a'" "anchor_inv a'" "anchor_Valid a'" by auto
  with Render_counts [OF this(2,3) assms(3)] show ?thesis by blast
qed

theorem render_unforgeable_witness:
  "\<exists>a' out. progress_run [] sample_anchor = Inr a' \<and> Render a' PlanAnchorStrict = Inr out
    \<and> count_list out (CHR ''<'') = 2 \<and> has_suffix out ''</plan-anchor>''"
  using render_unforgeable [OF sample_anchor_new, of "[]" PlanAnchorStrict]
  by (fastforce simp: sample_spec_def)

end
