(* ===== verification/Completion_Contract.thy ===== *)
theory Completion_Contract
  imports Plan_Anchor
begin

text \<open>
  The completion contract of a run (\<^verbatim>\<open>internal/agent/completion_contract.go\<close>):
  a state machine over the criteria of the Definition of Done, updated by batches of claims
  under optimistic concurrency. The lower-case hex SHA-256 digest of a text and the redaction of
  sensitive text are arguments (\<^verbatim>\<open>text_env\<close>); the evidence resolver is the
  argument it is in the source. \<^verbatim>\<open>ApplyClaims\<close> is the composition of the
  section under the read lock, the resolution of evidence outside the lock, and the section
  under the write lock, so that other calls can come between the three.
\<close>

record text_env =
  te_sha256_hex :: "string \<Rightarrow> string"
  te_redact :: "string \<Rightarrow> string"

definition maxCompletionRunIDBytes :: nat where "maxCompletionRunIDBytes = 256"
definition maxCompletionCriteria :: nat where "maxCompletionCriteria = 256"
definition maxCompletionCriterionTextBytes :: nat where "maxCompletionCriterionTextBytes = 4 * 1024"
definition maxCompletionCriterionIDBytes :: nat where "maxCompletionCriterionIDBytes = 96"
definition maxCompletionSummaryBytes :: nat where "maxCompletionSummaryBytes = 1024"

abbreviation CompletionClaimPending :: string where "CompletionClaimPending \<equiv> ''pending''"
abbreviation CompletionClaimSatisfied :: string where "CompletionClaimSatisfied \<equiv> ''satisfied''"
abbreviation CompletionClaimBlocked :: string where "CompletionClaimBlocked \<equiv> ''blocked''"

datatype completion_status =
  CompletionStatusIncomplete | CompletionStatusComplete | CompletionStatusBlocked

datatype completion_code =
  CompletionErrorInvalidContract | CompletionErrorInvalidField | CompletionErrorFieldTooLarge
| CompletionErrorUnknownCriterion | CompletionErrorDuplicateCriterion | CompletionErrorDuplicateClaim
| CompletionErrorConflictingClaim | CompletionErrorInvalidClaimState | CompletionErrorInvalidEvidence
| CompletionErrorEvidenceRequired | CompletionErrorEvidenceResolver | CompletionErrorEvidenceMismatch
| CompletionErrorStaleRevision | CompletionErrorRevisionExhausted | CompletionErrorEmptyClaims

record completion_error =
  ce_Code :: completion_code
  ce_Field :: string
  ce_CriterionID :: string

definition completionContractError :: "completion_code \<Rightarrow> string \<Rightarrow> string \<Rightarrow> completion_error" where
  "completionContractError code field criterionID =
     \<lparr>ce_Code = code, ce_Field = field, ce_CriterionID = criterionID\<rparr>"

record completion_spec =
  cs_RunID :: string
  cs_PlanAnchor :: plan_anchor
  cs_EvidenceNotRequiredCriteria :: "string list"

record completion_claim =
  cl_CriterionID :: string
  cl_State :: string
  cl_EvidenceDigest :: string
  cl_Summary :: string
  cl_Assertion :: string

text \<open>A resolver may be absent (a nil function), fail, or answer.\<close>

type_synonym evidence_resolver = "(string \<Rightarrow> string \<Rightarrow> unit + bool) option"

record criterion =
  cr_id :: string
  cr_text :: string
  cr_evidenceRequired :: bool
  cr_state :: string
  cr_evidenceDigest :: string
  cr_summary :: string
  cr_assertion :: string
  cr_claimRevision :: uint64

record contract =
  cc_runID :: string
  cc_planRevision :: int
  cc_revision :: uint64
  cc_criteria :: "criterion list"
  cc_criterionIdx :: "string \<rightharpoonup> nat"

record prepared_claim =
  pc_criterionIndex :: nat
  pc_criterionID :: string
  pc_state :: string
  pc_evidenceDigest :: string
  pc_summary :: string
  pc_assertion :: string

section \<open>Helpers\<close>

definition validLowerSHA256 :: "string \<Rightarrow> string \<Rightarrow> bool" where
  "validLowerSHA256 value prefix \<longleftrightarrow>
     length value = length prefix + 64 \<and> has_prefix value prefix
     \<and> hex_decodable (drop (length prefix) value) \<and> value = to_lower value"

definition validCompletionEvidenceDigest :: "string \<Rightarrow> bool" where
  "validCompletionEvidenceDigest value = validLowerSHA256 value ''sha256:''"

definition validCompletionCriterionID :: "string \<Rightarrow> bool" where
  "validCompletionCriterionID value = validLowerSHA256 value ''criterion:sha256:''"

definition containsCompletionControl :: "string \<Rightarrow> bool" where
  "containsCompletionControl value = contains_control value"

definition completionReceiptText :: "text_env \<Rightarrow> string \<Rightarrow> nat \<Rightarrow> string" where
  "completionReceiptText te value limit =
     (let v = te_redact te value in
      if limit = 0 \<or> length v \<le> limit then v else shrink_to_valid v limit)"

definition CompletionCriterionID :: "text_env \<Rightarrow> string \<Rightarrow> completion_error + string" where
  "CompletionCriterionID te txt =
     (if \<not> valid_utf8 txt \<or> trim_space txt = [] then
        Inl (completionContractError CompletionErrorInvalidField ''criterionText'' [])
      else if length txt > maxCompletionCriterionTextBytes then
        Inl (completionContractError CompletionErrorFieldTooLarge ''criterionText'' [])
      else
        let normalized = normalizeAnchorText txt in
        if normalized = [] then Inl (completionContractError CompletionErrorInvalidField ''criterionText'' [])
        else Inr (''criterion:sha256:'' @ te_sha256_hex te normalized))"

section \<open>Construction\<close>

text \<open>The loop over \<^verbatim>\<open>EvidenceNotRequiredCriteria\<close>, collecting the optional texts.\<close>

fun optional_texts :: "string set \<Rightarrow> string set \<Rightarrow> string list \<Rightarrow> completion_error + string set" where
  "optional_texts known opt [] = Inr opt"
| "optional_texts known opt (t # ts) =
     (if \<not> valid_utf8 t \<or> trim_space t = [] then
        Inl (completionContractError CompletionErrorInvalidField ''evidenceNotRequiredCriteria'' [])
      else if length t > maxCompletionCriterionTextBytes then
        Inl (completionContractError CompletionErrorFieldTooLarge ''evidenceNotRequiredCriteria'' [])
      else
        let n = normalizeAnchorText t in
        if n \<notin> known then
          Inl (completionContractError CompletionErrorUnknownCriterion ''evidenceNotRequiredCriteria'' [])
        else if n \<in> opt then
          Inl (completionContractError CompletionErrorDuplicateCriterion ''evidenceNotRequiredCriteria'' [])
        else optional_texts known (insert n opt) ts)"

text \<open>The loop over the Definition of Done, appending a pending criterion for each text.\<close>

fun add_criteria :: "text_env \<Rightarrow> string set \<Rightarrow> string list \<Rightarrow> contract \<Rightarrow> completion_error + contract" where
  "add_criteria te opt [] c = Inr c"
| "add_criteria te opt (t # ts) c =
     (if \<not> valid_utf8 t \<or> trim_space t = [] then
        Inl (completionContractError CompletionErrorInvalidField ''criterionText'' [])
      else if length t > maxCompletionCriterionTextBytes then
        Inl (completionContractError CompletionErrorFieldTooLarge ''criterionText'' [])
      else (case CompletionCriterionID te t of
              Inl e \<Rightarrow> Inl e
            | Inr cid \<Rightarrow>
                (case cc_criterionIdx c cid of
                   Some existing \<Rightarrow>
                     Inl (completionContractError
                       (if cr_text (cc_criteria c ! existing) \<noteq> t then CompletionErrorInvalidContract
                        else CompletionErrorDuplicateCriterion) ''definitionOfDone'' cid)
                 | None \<Rightarrow>
                     add_criteria te opt ts
                       (c\<lparr>cc_criterionIdx := (cc_criterionIdx c)(cid \<mapsto> length (cc_criteria c)),
                          cc_criteria := cc_criteria c @
                            [\<lparr>cr_id = cid, cr_text = t, cr_evidenceRequired = (t \<notin> opt),
                              cr_state = CompletionClaimPending, cr_evidenceDigest = [], cr_summary = [],
                              cr_assertion = [], cr_claimRevision = 0\<rparr>]\<rparr>))))"

definition NewCompletionContract :: "text_env \<Rightarrow> completion_spec \<Rightarrow> completion_error + contract" where
  "NewCompletionContract te spec =
     (let runID = trim_space (cs_RunID spec) in
      if runID = [] \<or> \<not> valid_utf8 runID \<or> containsCompletionControl runID then
        Inl (completionContractError CompletionErrorInvalidField ''runId'' [])
      else if length runID > maxCompletionRunIDBytes then
        Inl (completionContractError CompletionErrorFieldTooLarge ''runId'' [])
      else if \<not> anchor_Valid (cs_PlanAnchor spec) then
        Inl (completionContractError CompletionErrorInvalidContract ''planAnchor'' [])
      else
        let dod = pa_definitionOfDone (cs_PlanAnchor spec) in
        if length dod = 0 then Inl (completionContractError CompletionErrorInvalidContract ''definitionOfDone'' [])
        else if length dod > maxCompletionCriteria then
          Inl (completionContractError CompletionErrorFieldTooLarge ''definitionOfDone'' [])
        else (case optional_texts (set dod) {} (cs_EvidenceNotRequiredCriteria spec) of
                Inl e \<Rightarrow> Inl e
              | Inr opt \<Rightarrow>
                  add_criteria te opt dod
                    \<lparr>cc_runID = runID, cc_planRevision = pa_revision (cs_PlanAnchor spec), cc_revision = 0,
                     cc_criteria = [], cc_criterionIdx = Map.empty\<rparr>))"

section \<open>Reading\<close>

fun status_of :: "bool \<Rightarrow> criterion list \<Rightarrow> completion_status" where
  "status_of allSatisfied [] = (if allSatisfied then CompletionStatusComplete else CompletionStatusIncomplete)"
| "status_of allSatisfied (c # cs) =
     (if cr_state c = CompletionClaimBlocked then CompletionStatusBlocked
      else if cr_state c = CompletionClaimSatisfied then status_of allSatisfied cs
      else status_of False cs)"

definition completionStatusLocked :: "criterion list \<Rightarrow> completion_status" where
  "completionStatusLocked cs = (if length cs = 0 then CompletionStatusIncomplete else status_of True cs)"

definition Status :: "contract option \<Rightarrow> completion_status" where
  "Status c = (case c of None \<Rightarrow> CompletionStatusIncomplete | Some c \<Rightarrow> completionStatusLocked (cc_criteria c))"

definition Revision :: "contract option \<Rightarrow> uint64" where
  "Revision c = (case c of None \<Rightarrow> 0 | Some c \<Rightarrow> cc_revision c)"

definition CriterionText :: "contract option \<Rightarrow> string \<Rightarrow> string option" where
  "CriterionText c cid = (case c of None \<Rightarrow> None
     | Some c \<Rightarrow> (case cc_criterionIdx c cid of None \<Rightarrow> None | Some i \<Rightarrow> Some (cr_text (cc_criteria c ! i))))"

record criterion_snapshot =
  cn_ID :: string
  cn_Text :: string
  cn_EvidenceRequired :: bool
  cn_State :: string
  cn_EvidenceDigest :: string
  cn_Summary :: string
  cn_Assertion :: string
  cn_ClaimRevision :: uint64

record contract_snapshot =
  cv_Version :: int
  cv_RunID :: string
  cv_PlanRevision :: int
  cv_Revision :: uint64
  cv_Status :: completion_status
  cv_Criteria :: "criterion_snapshot list"

definition criterion_view :: "text_env \<Rightarrow> criterion \<Rightarrow> criterion_snapshot" where
  "criterion_view te c = \<lparr>cn_ID = cr_id c,
     cn_Text = completionReceiptText te (cr_text c) maxCompletionCriterionTextBytes,
     cn_EvidenceRequired = cr_evidenceRequired c, cn_State = cr_state c,
     cn_EvidenceDigest = cr_evidenceDigest c, cn_Summary = cr_summary c,
     cn_Assertion = cr_assertion c, cn_ClaimRevision = cr_claimRevision c\<rparr>"

definition contract_Snapshot :: "text_env \<Rightarrow> contract option \<Rightarrow> completion_error + contract_snapshot" where
  "contract_Snapshot te c = (case c of
     None \<Rightarrow> Inl (completionContractError CompletionErrorInvalidContract ''contract'' [])
   | Some c \<Rightarrow>
       (if cc_runID c = [] \<or> length (cc_criteria c) = 0
           \<or> card (dom (cc_criterionIdx c)) \<noteq> length (cc_criteria c) then
          Inl (completionContractError CompletionErrorInvalidContract ''contract'' [])
        else Inr \<lparr>cv_Version = 1, cv_RunID = completionReceiptText te (cc_runID c) maxCompletionRunIDBytes,
               cv_PlanRevision = cc_planRevision c, cv_Revision = cc_revision c,
               cv_Status = completionStatusLocked (cc_criteria c),
               cv_Criteria = map (criterion_view te) (cc_criteria c)\<rparr>))"

section \<open>Claims\<close>

definition claim_shape_error :: "criterion \<Rightarrow> string \<Rightarrow> string \<Rightarrow> string \<Rightarrow> string \<Rightarrow> (completion_code \<times> string) option" where
  "claim_shape_error cr state dig summary assertion =
     (if state = CompletionClaimPending then
        (if dig \<noteq> [] \<or> summary \<noteq> [] \<or> assertion \<noteq> [] then Some (CompletionErrorInvalidField, ''pendingClaim'') else None)
      else if state = CompletionClaimBlocked then
        (if dig \<noteq> [] \<or> summary = [] \<or> assertion \<noteq> [] then Some (CompletionErrorInvalidField, ''blockedClaim'') else None)
      else
        (if cr_evidenceRequired cr \<and> dig = [] then Some (CompletionErrorEvidenceRequired, ''evidenceDigest'')
         else if cr_evidenceRequired cr \<and> assertion \<noteq> [] then Some (CompletionErrorInvalidField, ''assertion'')
         else if \<not> cr_evidenceRequired cr \<and> dig = [] \<and> assertion = [] then Some (CompletionErrorInvalidField, ''assertion'')
         else if \<not> cr_evidenceRequired cr \<and> dig = [] \<and> summary \<noteq> [] then Some (CompletionErrorInvalidField, ''summary'')
         else if dig \<noteq> [] \<and> assertion \<noteq> [] then Some (CompletionErrorInvalidField, ''assertion'')
         else None))"

definition prepareClaimLocked :: "text_env \<Rightarrow> contract \<Rightarrow> completion_claim \<Rightarrow> completion_error + prepared_claim" where
  "prepareClaimLocked te c claim =
     (let cid = trim_space (cl_CriterionID claim) in
      if cid = [] \<or> cid \<noteq> cl_CriterionID claim \<or> \<not> valid_utf8 cid \<or> containsCompletionControl cid then
        Inl (completionContractError CompletionErrorInvalidField ''criterionId'' [])
      else if length cid > maxCompletionCriterionIDBytes then
        Inl (completionContractError CompletionErrorFieldTooLarge ''criterionId'' [])
      else if \<not> validCompletionCriterionID cid then
        Inl (completionContractError CompletionErrorInvalidField ''criterionId'' [])
      else (case cc_criterionIdx c cid of
          None \<Rightarrow> Inl (completionContractError CompletionErrorUnknownCriterion ''criterionId'' cid)
        | Some idx \<Rightarrow>
            let cr = cc_criteria c ! idx; state = cl_State claim in
            if state \<noteq> CompletionClaimPending \<and> state \<noteq> CompletionClaimSatisfied \<and> state \<noteq> CompletionClaimBlocked then
              Inl (completionContractError CompletionErrorInvalidClaimState ''state'' cid)
            else
              let dig = trim_space (cl_EvidenceDigest claim) in
              if dig \<noteq> cl_EvidenceDigest claim then
                Inl (completionContractError CompletionErrorInvalidEvidence ''evidenceDigest'' cid)
              else if dig \<noteq> [] \<and> \<not> validCompletionEvidenceDigest dig then
                Inl (completionContractError CompletionErrorInvalidEvidence ''evidenceDigest'' cid)
              else if \<not> valid_utf8 (cl_Summary claim) then
                Inl (completionContractError CompletionErrorInvalidField ''summary'' cid)
              else if length (cl_Summary claim) > maxCompletionSummaryBytes then
                Inl (completionContractError CompletionErrorFieldTooLarge ''summary'' cid)
              else
                let summary = completionReceiptText te (trim_space (cl_Summary claim)) maxCompletionSummaryBytes in
                if \<not> valid_utf8 (cl_Assertion claim) then
                  Inl (completionContractError CompletionErrorInvalidField ''assertion'' cid)
                else if length (cl_Assertion claim) > maxCompletionSummaryBytes then
                  Inl (completionContractError CompletionErrorFieldTooLarge ''assertion'' cid)
                else
                  let assertion = completionReceiptText te (trim_space (cl_Assertion claim)) maxCompletionSummaryBytes in
                  (case claim_shape_error cr state dig summary assertion of
                     Some (code, field) \<Rightarrow> Inl (completionContractError code field cid)
                   | None \<Rightarrow>
                       if state = cr_state cr then
                         Inl (completionContractError
                           (if cr_evidenceDigest cr \<noteq> dig \<or> cr_summary cr \<noteq> summary \<or> cr_assertion cr \<noteq> assertion
                            then CompletionErrorConflictingClaim else CompletionErrorDuplicateClaim) ''claim'' cid)
                       else Inr \<lparr>pc_criterionIndex = idx, pc_criterionID = cid, pc_state = state,
                              pc_evidenceDigest = dig, pc_summary = summary, pc_assertion = assertion\<rparr>)))"

definition samePreparedCompletionClaim :: "prepared_claim \<Rightarrow> prepared_claim \<Rightarrow> bool" where
  "samePreparedCompletionClaim l r \<longleftrightarrow> pc_criterionID l = pc_criterionID r \<and> pc_state l = pc_state r
     \<and> pc_evidenceDigest l = pc_evidenceDigest r \<and> pc_summary l = pc_summary r \<and> pc_assertion l = pc_assertion r"

fun prepare_claims :: "text_env \<Rightarrow> contract \<Rightarrow> (string \<rightharpoonup> prepared_claim) \<Rightarrow> completion_claim list
    \<Rightarrow> completion_error + prepared_claim list" where
  "prepare_claims te c seen [] = Inr []"
| "prepare_claims te c seen (claim # claims) =
     (case prepareClaimLocked te c claim of
        Inl e \<Rightarrow> Inl e
      | Inr item \<Rightarrow>
          (case seen (pc_criterionID item) of
             Some previous \<Rightarrow>
               Inl (completionContractError
                 (if samePreparedCompletionClaim previous item then CompletionErrorDuplicateClaim
                  else CompletionErrorConflictingClaim) ''claims'' (pc_criterionID item))
           | None \<Rightarrow>
               (case prepare_claims te c (seen(pc_criterionID item \<mapsto> item)) claims of
                  Inl e \<Rightarrow> Inl e
                | Inr items \<Rightarrow> Inr (item # items))))"

definition prepareClaimsLocked :: "text_env \<Rightarrow> contract \<Rightarrow> completion_claim list
    \<Rightarrow> completion_error + prepared_claim list" where
  "prepareClaimsLocked te c claims =
     (if length claims = 0 then Inl (completionContractError CompletionErrorEmptyClaims ''claims'' [])
      else if length claims > maxCompletionCriteria then
        Inl (completionContractError CompletionErrorFieldTooLarge ''claims'' [])
      else prepare_claims te c Map.empty claims)"

text \<open>The section of \<^verbatim>\<open>ApplyClaims\<close> under the read lock.\<close>

definition ApplyClaims_prepare :: "text_env \<Rightarrow> uint64 \<Rightarrow> completion_claim list \<Rightarrow> contract
    \<Rightarrow> completion_error + (prepared_claim list \<times> string)" where
  "ApplyClaims_prepare te expected claims c =
     (if expected \<noteq> cc_revision c then
        Inl (completionContractError CompletionErrorStaleRevision ''expectedRevision'' [])
      else if cc_revision c = - 1 then
        Inl (completionContractError CompletionErrorRevisionExhausted ''revision'' [])
      else (case prepareClaimsLocked te c claims of
              Inl e \<Rightarrow> Inl e
            | Inr prepared \<Rightarrow> Inr (prepared, cc_runID c)))"

text \<open>The loop outside the lock, which asks the resolver for every digest of a satisfied claim.\<close>

fun ApplyClaims_resolve :: "evidence_resolver \<Rightarrow> string \<Rightarrow> prepared_claim list \<Rightarrow> completion_error option" where
  "ApplyClaims_resolve res runID [] = None"
| "ApplyClaims_resolve res runID (p # ps) =
     (if pc_state p \<noteq> CompletionClaimSatisfied \<or> pc_evidenceDigest p = [] then ApplyClaims_resolve res runID ps
      else (case res of
          None \<Rightarrow> Some (completionContractError CompletionErrorEvidenceResolver ''evidenceDigest'' (pc_criterionID p))
        | Some f \<Rightarrow>
            (case f runID (pc_evidenceDigest p) of
               Inl _ \<Rightarrow> Some (completionContractError CompletionErrorEvidenceResolver ''evidenceDigest'' (pc_criterionID p))
             | Inr found \<Rightarrow>
                 if \<not> found then
                   Some (completionContractError CompletionErrorEvidenceMismatch ''evidenceDigest'' (pc_criterionID p))
                 else ApplyClaims_resolve res runID ps)))"

definition commit_claim :: "uint64 \<Rightarrow> criterion list \<Rightarrow> prepared_claim \<Rightarrow> criterion list" where
  "commit_claim nextRevision crs p =
     crs[pc_criterionIndex p := (crs ! pc_criterionIndex p)\<lparr>cr_state := pc_state p,
        cr_evidenceDigest := pc_evidenceDigest p, cr_summary := pc_summary p,
        cr_assertion := pc_assertion p, cr_claimRevision := nextRevision\<rparr>]"

text \<open>The section under the write lock.\<close>

definition ApplyClaims_commit :: "uint64 \<Rightarrow> prepared_claim list \<Rightarrow> contract \<Rightarrow> completion_error + contract" where
  "ApplyClaims_commit expected prepared c =
     (if cc_revision c \<noteq> expected then
        Inl (completionContractError CompletionErrorStaleRevision ''expectedRevision'' [])
      else
        let nextRevision = cc_revision c + 1 in
        Inr (c\<lparr>cc_criteria := foldl (commit_claim nextRevision) (cc_criteria c) prepared,
               cc_revision := nextRevision\<rparr>))"

definition ApplyClaims :: "text_env \<Rightarrow> evidence_resolver \<Rightarrow> uint64 \<Rightarrow> completion_claim list \<Rightarrow> contract
    \<Rightarrow> completion_error + contract" where
  "ApplyClaims te res expected claims c =
     (case ApplyClaims_prepare te expected claims c of
        Inl e \<Rightarrow> Inl e
      | Inr (prepared, runID) \<Rightarrow>
          (case ApplyClaims_resolve res runID prepared of
             Some e \<Rightarrow> Inl e
           | None \<Rightarrow> ApplyClaims_commit expected prepared c))"

end
