(* ===== verification/Completion_Laws.thy ===== *)
theory Completion_Laws
  imports Completion_Contract
begin

text \<open>
  The laws of the completion contract: the invariant that construction establishes and every
  committed batch keeps, what a batch changes, and the optimistic concurrency it provides
  (an interpretation of \<^verbatim>\<open>revision_counter\<close>).
\<close>

definition known_state :: "string \<Rightarrow> bool" where
  "known_state st \<longleftrightarrow> st = CompletionClaimPending \<or> st = CompletionClaimSatisfied \<or> st = CompletionClaimBlocked"

text \<open>The part of a criterion that is fixed at construction.\<close>

definition criterion_key :: "criterion \<Rightarrow> string \<times> string \<times> bool" where
  "criterion_key cr = (cr_id cr, cr_text cr, cr_evidenceRequired cr)"

definition criterion_ok :: "criterion \<Rightarrow> bool" where
  "criterion_ok cr \<longleftrightarrow> known_state (cr_state cr)
     \<and> claim_shape_error cr (cr_state cr) (cr_evidenceDigest cr) (cr_summary cr) (cr_assertion cr) = None"

definition contract_inv :: "contract \<Rightarrow> bool" where
  "contract_inv c \<longleftrightarrow> cc_runID c \<noteq> [] \<and> cc_criteria c \<noteq> []
     \<and> (\<forall>cid i. cc_criterionIdx c cid = Some i \<longleftrightarrow> i < length (cc_criteria c) \<and> cr_id (cc_criteria c ! i) = cid)
     \<and> list_all criterion_ok (cc_criteria c)
     \<and> list_all (\<lambda>cr. cr_claimRevision cr \<le> cc_revision c) (cc_criteria c)"

definition prepared_ok :: "contract \<Rightarrow> prepared_claim \<Rightarrow> bool" where
  "prepared_ok c p \<longleftrightarrow> cc_criterionIdx c (pc_criterionID p) = Some (pc_criterionIndex p)
     \<and> known_state (pc_state p)
     \<and> claim_shape_error (cc_criteria c ! pc_criterionIndex p) (pc_state p) (pc_evidenceDigest p)
         (pc_summary p) (pc_assertion p) = None"

text \<open>The batch a call holds between the lock sections.\<close>

definition batch_ok :: "contract \<Rightarrow> prepared_claim list \<Rightarrow> bool" where
  "batch_ok c ps \<longleftrightarrow> list_all (prepared_ok c) ps \<and> distinct (map pc_criterionID ps)"

section \<open>Preparation\<close>

lemma prepareClaimLocked_ok:
  assumes "prepareClaimLocked te c claim = Inr p"
  shows "prepared_ok c p" "pc_criterionID p = cl_CriterionID claim" "pc_state p = cl_State claim"
    "pc_evidenceDigest p = cl_EvidenceDigest claim"
    "pc_state p \<noteq> cr_state (cc_criteria c ! pc_criterionIndex p)"
    "pc_evidenceDigest p \<noteq> [] \<Longrightarrow> validCompletionEvidenceDigest (pc_evidenceDigest p)"
  using assms unfolding prepareClaimLocked_def
  by (auto simp: Let_def prepared_ok_def known_state_def split: if_splits option.splits prod.splits)

lemma prepare_claims_ok:
  "prepare_claims te c seen claims = Inr ps \<Longrightarrow>
     list_all2 (\<lambda>claim p. prepareClaimLocked te c claim = Inr p) claims ps
     \<and> distinct (map pc_criterionID ps) \<and> (\<forall>p \<in> set ps. seen (pc_criterionID p) = None)"
proof (induction te c seen claims arbitrary: ps rule: prepare_claims.induct)
  case (2 te c seen claim claims)
  from "2.prems" obtain item items where item: "prepareClaimLocked te c claim = Inr item"
    "seen (pc_criterionID item) = None"
    "prepare_claims te c (seen(pc_criterionID item \<mapsto> item)) claims = Inr items" "ps = item # items"
    by (auto split: sum.splits option.splits)
  from "2.IH" [OF item(1,2,3)] item show ?case by (auto split: if_splits)
qed simp

lemma prepareClaimsLocked_ok:
  assumes "prepareClaimsLocked te c claims = Inr ps"
  shows "list_all2 (\<lambda>claim p. prepareClaimLocked te c claim = Inr p) claims ps" "batch_ok c ps" "ps \<noteq> []"
proof -
  have "prepare_claims te c Map.empty claims = Inr ps" "claims \<noteq> []"
    using assms by (auto simp: prepareClaimsLocked_def split: if_splits)
  from prepare_claims_ok [OF this(1)] this(2)
  show all: "list_all2 (\<lambda>claim p. prepareClaimLocked te c claim = Inr p) claims ps"
    and "ps \<noteq> []" and d: "batch_ok c ps"
    by (auto simp: batch_ok_def list_all2_conv_all_nth list_all_length intro: prepareClaimLocked_ok)
qed

section \<open>Commit\<close>

lemma commit_claim_key: "map criterion_key (commit_claim n crs p) = map criterion_key crs"
  by (rule nth_equalityI) (auto simp: commit_claim_def criterion_key_def nth_update_read)

lemma foldl_commit_length [simp]: "length (foldl (commit_claim n) crs ps) = length crs"
  by (induction ps arbitrary: crs) (simp_all add: commit_claim_def)

definition committed :: "uint64 \<Rightarrow> prepared_claim \<Rightarrow> criterion \<Rightarrow> criterion" where
  "committed n p cr = cr\<lparr>cr_state := pc_state p, cr_evidenceDigest := pc_evidenceDigest p,
     cr_summary := pc_summary p, cr_assertion := pc_assertion p, cr_claimRevision := n\<rparr>"

lemma foldl_commit_nth:
  "distinct (map pc_criterionIndex ps) \<Longrightarrow> i < length crs \<Longrightarrow>
     foldl (commit_claim n) crs ps ! i =
       (case find (\<lambda>p. pc_criterionIndex p = i) ps of None \<Rightarrow> crs ! i | Some p \<Rightarrow> committed n p (crs ! i))"
proof (induction ps arbitrary: crs)
  case (Cons p ps)
  have "find (\<lambda>q. pc_criterionIndex q = pc_criterionIndex p) ps = None"
    unfolding find_None_iff using Cons.prems(1) by (metis distinct.simps(2) image_eqI list.simps(9) set_map)
  with Cons show ?case
    by (auto simp: commit_claim_def committed_def nth_update_read split: option.splits)
qed simp

lemma foldl_commit_key: "map criterion_key (foldl (commit_claim n) crs ps) = map criterion_key crs"
  by (induction ps arbitrary: crs) (simp_all add: commit_claim_key)

lemma key_nth:
  assumes "map criterion_key xs = map criterion_key ys" and "i < length ys"
  shows "cr_id (xs ! i) = cr_id (ys ! i)" "cr_text (xs ! i) = cr_text (ys ! i)"
    "cr_evidenceRequired (xs ! i) = cr_evidenceRequired (ys ! i)"
proof -
  have "length xs = length ys" using assms(1) by (rule map_eq_imp_length_eq)
  with assms have "criterion_key (xs ! i) = criterion_key (ys ! i)" by (metis nth_map)
  then show "cr_id (xs ! i) = cr_id (ys ! i)" "cr_text (xs ! i) = cr_text (ys ! i)"
    "cr_evidenceRequired (xs ! i) = cr_evidenceRequired (ys ! i)"
    by (simp_all add: criterion_key_def)
qed

lemma claim_shape_error_cong:
  "cr_evidenceRequired a = cr_evidenceRequired b \<Longrightarrow> claim_shape_error a = claim_shape_error b"
  by (intro ext) (simp add: claim_shape_error_def)

lemma index_of: "contract_inv c \<Longrightarrow> cc_criterionIdx c cid = Some i \<Longrightarrow>
    i < length (cc_criteria c) \<and> cr_id (cc_criteria c ! i) = cid"
  by (simp add: contract_inv_def)

lemma batch_indices:
  assumes "contract_inv c" and "batch_ok c ps"
  shows "distinct (map pc_criterionIndex ps)"
    and "p \<in> set ps \<Longrightarrow> pc_criterionIndex p < length (cc_criteria c)"
proof -
  have idx: "cr_id (cc_criteria c ! pc_criterionIndex p) = pc_criterionID p
      \<and> pc_criterionIndex p < length (cc_criteria c)" if "p \<in> set ps" for p
    using that assms index_of [OF assms(1), of "pc_criterionID p"]
    by (auto simp: batch_ok_def list_all_iff prepared_ok_def)
  then show "p \<in> set ps \<Longrightarrow> pc_criterionIndex p < length (cc_criteria c)" by simp
  have "inj_on pc_criterionID (set ps)" "distinct ps"
    using assms(2) by (auto simp: batch_ok_def distinct_map)
  then have "inj_on pc_criterionIndex (set ps)"
    using idx by (metis (no_types, lifting) inj_onCI inj_onD)
  with \<open>distinct ps\<close> show "distinct (map pc_criterionIndex ps)"
    by (simp add: distinct_map)
qed

lemma ApplyClaims_commit_sel:
  assumes "ApplyClaims_commit expected ps c = Inr c'"
  shows "cc_revision c = expected" "cc_revision c' = expected + 1" "cc_runID c' = cc_runID c"
    "cc_planRevision c' = cc_planRevision c" "cc_criterionIdx c' = cc_criterionIdx c"
    "cc_criteria c' = foldl (commit_claim (expected + 1)) (cc_criteria c) ps"
  using assms by (auto simp: ApplyClaims_commit_def Let_def split: if_splits)

lemma committed_criterion:
  assumes "contract_inv c" and "batch_ok c ps" and "ApplyClaims_commit expected ps c = Inr c'"
    and "i < length (cc_criteria c)"
  shows "cc_criteria c' ! i = (case find (\<lambda>p. pc_criterionIndex p = i) ps of
      None \<Rightarrow> cc_criteria c ! i | Some p \<Rightarrow> committed (expected + 1) p (cc_criteria c ! i))"
  using foldl_commit_nth [OF batch_indices(1) [OF assms(1,2)] assms(4)] ApplyClaims_commit_sel(6) [OF assms(3)]
  by simp

lemma committed_ok:
  assumes "known_state (pc_state p)"
    and "claim_shape_error cr (pc_state p) (pc_evidenceDigest p) (pc_summary p) (pc_assertion p) = None"
  shows "criterion_ok (committed n p cr)"
proof -
  have "claim_shape_error (committed n p cr) = claim_shape_error cr"
    by (rule claim_shape_error_cong) (simp add: committed_def)
  with assms show ?thesis by (simp only: criterion_ok_def) (simp add: committed_def)
qed

lemma commit_inv:
  assumes inv: "contract_inv c" and b: "batch_ok c ps" and c: "ApplyClaims_commit expected ps c = Inr c'"
    and room: "expected \<noteq> - 1"
  shows "contract_inv c'"
proof -
  note sel = ApplyClaims_commit_sel [OF c]
  have len: "length (cc_criteria c') = length (cc_criteria c)" by (simp add: sel)
  have ne: "cc_criteria c' \<noteq> []"
    using inv len by (metis contract_inv_def length_0_conv)
  have le: "cc_revision c \<le> expected + 1"
    using sel(1) uint64_Suc [OF room] by (simp add: word_le_nat_alt)
  have "criterion_ok (cc_criteria c' ! i) \<and> cr_claimRevision (cc_criteria c' ! i) \<le> expected + 1"
    if i: "i < length (cc_criteria c)" for i
  proof (cases "find (\<lambda>p. pc_criterionIndex p = i) ps")
    case None
    with committed_criterion [OF inv b c i] inv i le show ?thesis
      by (fastforce simp: contract_inv_def list_all_length)
  next
    case (Some p)
    then have "p \<in> set ps" "pc_criterionIndex p = i" by (auto dest: find_Some_set)
    with b have "known_state (pc_state p)"
      "claim_shape_error (cc_criteria c ! i) (pc_state p) (pc_evidenceDigest p) (pc_summary p) (pc_assertion p) = None"
      by (auto simp: batch_ok_def list_all_iff prepared_ok_def)
    then have "criterion_ok (committed (expected + 1) p (cc_criteria c ! i))" by (rule committed_ok)
    with Some committed_criterion [OF inv b c i] show ?thesis by (simp add: committed_def)
  qed
  moreover have "cr_id (cc_criteria c' ! i) = cr_id (cc_criteria c ! i)" if "i < length (cc_criteria c)" for i
    using key_nth(1) [OF foldl_commit_key that] by (simp add: sel)
  ultimately show ?thesis
    using inv len ne sel(1-5) unfolding contract_inv_def list_all_length by auto
qed

text \<open>What a committed batch does to the claimed criteria and to the others.\<close>

definition claim_applied :: "contract \<Rightarrow> contract \<Rightarrow> completion_claim \<Rightarrow> bool" where
  "claim_applied c c' claim \<longleftrightarrow>
     (\<exists>i. cc_criterionIdx c (cl_CriterionID claim) = Some i \<and> i < length (cc_criteria c')
       \<and> cr_id (cc_criteria c' ! i) = cl_CriterionID claim \<and> cr_state (cc_criteria c' ! i) = cl_State claim
       \<and> cr_evidenceDigest (cc_criteria c' ! i) = cl_EvidenceDigest claim
       \<and> cr_claimRevision (cc_criteria c' ! i) = cc_revision c')"

lemma batch_claimed:
  assumes inv: "contract_inv c" and b: "batch_ok c ps" and commit: "ApplyClaims_commit expected ps c = Inr c'"
    and p: "p \<in> set ps" "prepareClaimLocked te c claim = Inr p"
  shows "claim_applied c c' claim"
proof -
  note sel = ApplyClaims_commit_sel [OF commit] and pok = prepareClaimLocked_ok [OF p(2)]
  have idx: "cc_criterionIdx c (cl_CriterionID claim) = Some (pc_criterionIndex p)"
    using pok(1,2) by (simp add: prepared_ok_def)
  note bound = index_of [OF inv idx]
  have "find (\<lambda>q. pc_criterionIndex q = pc_criterionIndex p) ps = Some p"
    by (rule find_key_unique [OF batch_indices(1) [OF inv b] p(1)])
  with committed_criterion [OF inv b commit conjunct1 [OF bound]] bound idx pok sel(2,6)
  show ?thesis by (simp add: claim_applied_def committed_def)
qed

lemma batch_unclaimed:
  assumes inv: "contract_inv c" and b: "batch_ok c ps" and commit: "ApplyClaims_commit expected ps c = Inr c'"
    and i: "i < length (cc_criteria c)" "cr_id (cc_criteria c ! i) \<notin> pc_criterionID ` set ps"
  shows "cc_criteria c' ! i = cc_criteria c ! i"
proof -
  have "pc_criterionIndex p \<noteq> i" if "p \<in> set ps" for p
  proof
    assume "pc_criterionIndex p = i"
    with that b have "cc_criterionIdx c (pc_criterionID p) = Some i"
      by (auto simp: batch_ok_def list_all_iff prepared_ok_def)
    with index_of [OF inv this] that i(2) show False by auto
  qed
  then have "find (\<lambda>p. pc_criterionIndex p = i) ps = None" by (auto simp: find_None_iff)
  with committed_criterion [OF inv b commit i(1)] show ?thesis by simp
qed

lemma batch_ids:
  "list_all2 (\<lambda>claim p. prepareClaimLocked te c claim = Inr p) claims ps \<Longrightarrow>
     map pc_criterionID ps = map cl_CriterionID claims"
  by (induction rule: list_all2_induct) (simp_all add: prepareClaimLocked_ok)

section \<open>Whole calls\<close>

lemma ApplyClaims_parts:
  assumes "ApplyClaims te res expected claims c = Inr c'"
  obtains ps where "prepareClaimsLocked te c claims = Inr ps" "expected = cc_revision c" "expected \<noteq> - 1"
    "ApplyClaims_resolve res (cc_runID c) ps = None" "ApplyClaims_commit expected ps c = Inr c'"
  using assms
  by (auto simp: ApplyClaims_def ApplyClaims_prepare_def split: sum.splits option.splits if_splits prod.splits)

lemma ApplyClaims_inv: "contract_inv c \<Longrightarrow> ApplyClaims te res expected claims c = Inr c' \<Longrightarrow> contract_inv c'"
  by (elim ApplyClaims_parts) (blast intro: commit_inv prepareClaimsLocked_ok(2))

interpretation contract_cas: revision_counter cc_revision "\<lambda>r (res, claims) c. ApplyClaims te res r claims c"
  for te
proof unfold_locales
  fix r cl c c'
  assume "(case cl of (res, claims) \<Rightarrow> \<lambda>c. ApplyClaims te res r claims c) c = Inr c'"
  then obtain res claims where "ApplyClaims te res r claims c = Inr c'" by (auto split: prod.splits)
  then obtain ps where "ApplyClaims_commit r ps c = Inr c'" "r \<noteq> - 1" "r = cc_revision c"
    by (rule ApplyClaims_parts)
  then show "cc_revision c = r \<and> cc_revision c' = r + 1 \<and> r + 1 \<noteq> 0"
    by (metis ApplyClaims_commit_sel(2) eq_neg_iff_add_eq_0)
qed

section \<open>Construction\<close>

definition fresh_criterion :: "criterion \<Rightarrow> bool" where
  "fresh_criterion cr \<longleftrightarrow> cr_state cr = CompletionClaimPending \<and> cr_evidenceDigest cr = []
     \<and> cr_summary cr = [] \<and> cr_assertion cr = [] \<and> cr_claimRevision cr = 0"

lemma fresh_ok: "fresh_criterion cr \<Longrightarrow> criterion_ok cr"
  by (simp add: fresh_criterion_def criterion_ok_def known_state_def claim_shape_error_def)

definition index_ok :: "contract \<Rightarrow> bool" where
  "index_ok c \<longleftrightarrow>
     (\<forall>cid i. cc_criterionIdx c cid = Some i \<longleftrightarrow> i < length (cc_criteria c) \<and> cr_id (cc_criteria c ! i) = cid)"

lemma add_criteria_spec:
  "add_criteria te opt ts c = Inr c' \<Longrightarrow> index_ok c \<Longrightarrow>
     index_ok c' \<and> cc_runID c' = cc_runID c \<and> cc_revision c' = cc_revision c
     \<and> cc_planRevision c' = cc_planRevision c
     \<and> (\<exists>new. cc_criteria c' = cc_criteria c @ new \<and> list_all fresh_criterion new
          \<and> map cr_text new = ts \<and> map cr_evidenceRequired new = map (\<lambda>t. t \<notin> opt) ts
          \<and> list_all (\<lambda>cr. CompletionCriterionID te (cr_text cr) = Inr (cr_id cr)) new)"
proof (induction te opt ts c rule: add_criteria.induct)
  case (2 te opt t ts c)
  from "2.prems"(1) obtain cid where cid: "CompletionCriterionID te t = Inr cid" "cc_criterionIdx c cid = None"
    by (auto split: if_splits sum.splits option.splits)
  let ?cr = "\<lparr>cr_id = cid, cr_text = t, cr_evidenceRequired = (t \<notin> opt), cr_state = CompletionClaimPending,
    cr_evidenceDigest = [], cr_summary = [], cr_assertion = [], cr_claimRevision = 0\<rparr>"
  let ?c = "c\<lparr>cc_criterionIdx := (cc_criterionIdx c)(cid \<mapsto> length (cc_criteria c)),
    cc_criteria := cc_criteria c @ [?cr]\<rparr>"
  have guards: "\<not> (\<not> valid_utf8 t \<or> trim_space t = [])" "\<not> length t > maxCompletionCriterionTextBytes"
    and rec: "add_criteria te opt ts ?c = Inr c'"
    using "2.prems"(1) cid by (auto split: if_splits)
  have "index_ok ?c"
    using "2.prems"(2) cid(2) unfolding index_ok_def by (auto simp: nth_append less_Suc_eq) (metis option.distinct(1))+
  from "2.IH" [OF guards cid rec this] cid(1)
  show ?case by (auto simp: fresh_criterion_def)
qed (auto simp: index_ok_def)

lemma optional_texts_spec: "optional_texts known opt ts = Inr opt' \<Longrightarrow> opt' = opt \<union> normalizeAnchorText ` set ts"
  by (induction known opt ts rule: optional_texts.induct) (auto simp: Let_def split: if_splits)

lemma contract_inv_distinct: "contract_inv c \<Longrightarrow> distinct (map cr_id (cc_criteria c))"
  unfolding contract_inv_def distinct_conv_nth by (auto, metis option.inject)

lemma map_cr_pointwise:
  "map cr_text new = ts \<Longrightarrow> map cr_evidenceRequired new = map P ts \<Longrightarrow>
     \<forall>cr \<in> set new. cr_evidenceRequired cr = P (cr_text cr)"
  by (auto simp: map_eq_conv)

lemma NewCompletionContract_spec:
  assumes "NewCompletionContract te spec = Inr c"
  shows "contract_inv c" "cc_runID c = trim_space (cs_RunID spec)" "cc_revision c = 0"
    "map cr_text (cc_criteria c) = pa_definitionOfDone (cs_PlanAnchor spec)"
    "list_all fresh_criterion (cc_criteria c)"
    "list_all (\<lambda>cr. CompletionCriterionID te (cr_text cr) = Inr (cr_id cr)) (cc_criteria c)"
    "cc_planRevision c = pa_revision (cs_PlanAnchor spec)"
    "\<forall>cr \<in> set (cc_criteria c). cr_evidenceRequired cr \<longleftrightarrow>
       cr_text cr \<notin> normalizeAnchorText ` set (cs_EvidenceNotRequiredCriteria spec)"
proof -
  let ?dod = "pa_definitionOfDone (cs_PlanAnchor spec)"
  from assms obtain opt where opt: "optional_texts (set ?dod) {} (cs_EvidenceNotRequiredCriteria spec) = Inr opt"
    and add: "add_criteria te opt ?dod \<lparr>cc_runID = trim_space (cs_RunID spec),
       cc_planRevision = pa_revision (cs_PlanAnchor spec), cc_revision = 0, cc_criteria = [], cc_criterionIdx = Map.empty\<rparr> = Inr c"
    and ne: "trim_space (cs_RunID spec) \<noteq> []" "?dod \<noteq> []"
    by (auto simp: NewCompletionContract_def Let_def split: if_splits sum.splits)
  note spec = add_criteria_spec [OF add]
  then show "cc_runID c = trim_space (cs_RunID spec)" "cc_revision c = 0"
    "map cr_text (cc_criteria c) = ?dod" and fresh: "list_all fresh_criterion (cc_criteria c)"
    "list_all (\<lambda>cr. CompletionCriterionID te (cr_text cr) = Inr (cr_id cr)) (cc_criteria c)"
    by (auto simp: index_ok_def)
  from spec show "cc_planRevision c = pa_revision (cs_PlanAnchor spec)" by (simp add: index_ok_def)
  have "opt = normalizeAnchorText ` set (cs_EvidenceNotRequiredCriteria spec)"
    using optional_texts_spec [OF opt] by simp
  moreover have "map cr_evidenceRequired (cc_criteria c) = map (\<lambda>t. t \<notin> opt) ?dod" "map cr_text (cc_criteria c) = ?dod"
    using spec by (auto simp: index_ok_def)
  ultimately show "\<forall>cr \<in> set (cc_criteria c). cr_evidenceRequired cr \<longleftrightarrow>
       cr_text cr \<notin> normalizeAnchorText ` set (cs_EvidenceNotRequiredCriteria spec)"
    using map_cr_pointwise [of "cc_criteria c" ?dod "\<lambda>t. t \<notin> opt"] by simp
  from fresh spec ne show "contract_inv c"
    by (auto simp: contract_inv_def index_ok_def fresh_criterion_def list_all_iff intro: fresh_ok)
qed

end
