(* ===== verification/Evidence_Ledger.thy ===== *)
theory Evidence_Ledger
  imports Completion_Contract
begin

text \<open>
  The evidence ledger of a run (\<^verbatim>\<open>internal/agent/evidence.go\<close>): it classifies
  the task, records verification commands and changed files, keeps the bounded append-only
  list of completion evidence, and decides the gate at the end of a run. JSON coding, SHA-256,
  the environment variable, the time stamp and redaction are arguments. Paths are those of a
  Unix build, where \<^verbatim>\<open>filepath.ToSlash\<close> is the identity. A nil ledger is
  \<^const>\<open>None\<close>.
\<close>

abbreviation EvidenceModeQuick :: string where "EvidenceModeQuick \<equiv> ''quick''"
abbreviation EvidenceModeNormal :: string where "EvidenceModeNormal \<equiv> ''normal''"
abbreviation EvidenceModeDeep :: string where "EvidenceModeDeep \<equiv> ''deep''"
abbreviation EvidencePolicyOff :: string where "EvidencePolicyOff \<equiv> ''off''"
abbreviation EvidencePolicyMeasure :: string where "EvidencePolicyMeasure \<equiv> ''measure''"
abbreviation EvidencePolicyAdvisory :: string where "EvidencePolicyAdvisory \<equiv> ''advisory''"
abbreviation EvidencePolicyBlock :: string where "EvidencePolicyBlock \<equiv> ''block''"
abbreviation EvidenceGateAllow :: string where "EvidenceGateAllow \<equiv> ''allow''"
abbreviation EvidenceGateWarn :: string where "EvidenceGateWarn \<equiv> ''warn''"
abbreviation EvidenceGateWouldBlock :: string where "EvidenceGateWouldBlock \<equiv> ''would-block''"
abbreviation EvidenceGateBlock :: string where "EvidenceGateBlock \<equiv> ''block''"
abbreviation EvidenceTerminalVerified :: string where "EvidenceTerminalVerified \<equiv> ''verified''"
abbreviation EvidenceTerminalPartiallyVerified :: string where
  "EvidenceTerminalPartiallyVerified \<equiv> ''partially-verified''"
abbreviation EvidenceTerminalUnverified :: string where "EvidenceTerminalUnverified \<equiv> ''unverified''"
abbreviation EvidenceTerminalBlocked :: string where "EvidenceTerminalBlocked \<equiv> ''blocked''"
abbreviation CompletionEvidenceSourceTool :: string where "CompletionEvidenceSourceTool \<equiv> ''tool''"
abbreviation CompletionEvidenceSourceAutoVerify :: string where
  "CompletionEvidenceSourceAutoVerify \<equiv> ''auto-verify''"

definition maxCompletionEvidenceRefs :: nat where "maxCompletionEvidenceRefs = 256"
definition maxCompletionEvidenceToolNameLen :: nat where "maxCompletionEvidenceToolNameLen = 128"
definition maxCompletionEvidenceInputBytes :: nat where "maxCompletionEvidenceInputBytes = 2 ^ 20"
definition maxCompletionEvidenceResultBytes :: nat where "maxCompletionEvidenceResultBytes = 4 * 2 ^ 20"

datatype evidence_error =
  errCompletionEvidenceInvalidRunID | errCompletionEvidenceRunBound | errCompletionEvidenceNotBound
| errCompletionEvidenceLimit | errCompletionEvidenceInvalidTool | errCompletionEvidenceFieldLarge
| errCompletionEvidenceCollision

record tool_outcome =
  to_ToolName :: string
  to_Input :: string
  to_Result :: string
  to_IsError :: bool
  to_Executed :: bool
  to_Synthetic :: bool
  to_Denied :: bool

record evidence_ref =
  er_Digest :: string
  er_Sequence :: uint64
  er_Source :: string
  er_ToolName :: string
  er_Succeeded :: bool

record evidence_snapshot =
  es_RunID :: string
  es_Refs :: "evidence_ref list"

record evidence_policy =
  ep_Policy :: string
  ep_MaxStopBlocks :: int

record evidence_record =
  ec_Source :: string
  ec_Command :: string
  ec_Status :: string
  ec_Summary :: string
  ec_ExitCode :: int
  ec_At :: string

record gate_result =
  gr_Decision :: string
  gr_TerminalState :: string
  gr_Mode :: string
  gr_Policy :: string
  gr_Summary :: string
  gr_Risks :: "string list"

record ledger =
  el_Mode :: string
  el_Policy :: string
  el_MaxStopBlocks :: int
  el_StopBlocks :: int
  el_Risks :: "string list"
  el_ChangedFiles :: "string list"
  el_Records :: "evidence_record list"
  el_completionRunID :: string
  el_completionRefs :: "evidence_ref list"
  el_completionSuccessByDigest :: "string \<rightharpoonup> bool"

record digest_input =
  di_RunID :: string
  di_Sequence :: uint64
  di_Source :: string
  di_ToolName :: string
  di_InputSHA256 :: string
  di_ResultSHA256 :: string
  di_Succeeded :: bool

text \<open>
  \<^verbatim>\<open>lx_encode\<close> is the JSON encoding of a digest input; \<^verbatim>\<open>lx_command\<close>
  and \<^verbatim>\<open>lx_paths\<close> are the fields decoded from a tool's JSON input (blank where
  the decoder sets none); \<^verbatim>\<open>lx_env_policy\<close> is the trimmed value of the policy
  variable of the environment.
\<close>

record ledger_env = text_env +
  lx_encode :: "digest_input \<Rightarrow> string"
  lx_command :: "string \<Rightarrow> string"
  lx_paths :: "string \<Rightarrow> string \<times> string"
  lx_env_policy :: string

record receipt_verification =
  rv_Status :: string
  rv_TerminalState :: string
  rv_Source :: string
  rv_Command :: string
  rv_CommandDigest :: string
  rv_Summary :: string
  rv_Gate :: string
  rv_Mode :: string
  rv_Evidence :: "evidence_record list"

section \<open>Signals\<close>

text \<open>The bytes written in hexadecimal are the Korean signals of the source.\<close>

definition quickEvidenceTriggers :: "string list" where
  "quickEvidenceTriggers =
     [''quick'', ''brief'', ''simple'', ''just explain'', ''explain only'', ''review only'',
      ''check only'', ''no edits'', ''do not edit'',
      [CHR 0xEA, CHR 0xB0, CHR 0x84, CHR 0xEB, CHR 0x8B, CHR 0xA8, CHR 0xED, CHR 0x9E, CHR 0x88],
      [CHR 0xEB, CHR 0xB9, CHR 0xA0, CHR 0xEB, CHR 0xA5, CHR 0xB4, CHR 0xEA, CHR 0xB2, CHR 0x8C],
      [CHR 0xEC, CHR 0x84, CHR 0xA4, CHR 0xEB, CHR 0xAA, CHR 0x85, CHR 0xEB, CHR 0xA7, CHR 0x8C],
      [CHR 0xEA, CHR 0xB2, CHR 0x80, CHR 0xED, CHR 0x86, CHR 0xA0, CHR 0xEB, CHR 0xA7, CHR 0x8C],
      [CHR 0xEB, CHR 0xB0, CHR 0xA9, CHR 0xED, CHR 0x96, CHR 0xA5],
      [CHR 0xED, CHR 0x99, CHR 0x95, CHR 0xEC, CHR 0x9D, CHR 0xB8, CHR 0xEB, CHR 0xA7, CHR 0x8C]]"

definition normalEvidenceTriggers :: "string list" where
  "normalEvidenceTriggers =
     [''add'', ''fix'', ''change'', ''update'', ''wire'', ''connect'', ''bug'',
      [CHR 0xEC, CHR 0xB6, CHR 0x94, CHR 0xEA, CHR 0xB0, CHR 0x80],
      [CHR 0xEC, CHR 0x88, CHR 0x98, CHR 0xEC, CHR 0xA0, CHR 0x95],
      [CHR 0xEA, CHR 0xB3, CHR 0xA0, CHR 0xEC, CHR 0xB3, CHR 0x90],
      [CHR 0xEC, CHR 0x97, CHR 0xB0, CHR 0xEA, CHR 0xB2, CHR 0xB0]]"

definition deepEvidenceTriggers :: "string list" where
  "deepEvidenceTriggers =
     [''deep'', ''thorough'', ''exhaustive'', ''end-to-end'', ''production-ready'', ''migration'',
      ''database'', ''auth'', ''security'', ''refactor'', ''large'', ''complex'', ''implement the plan'',
      ''complete'', ''finish'', [CHR 0xEC, CHR 0xA0, CHR 0x84, CHR 0xEC, CHR 0xB2, CHR 0xB4],
      [CHR 0xEC, CHR 0x99, CHR 0x84, CHR 0xEB, CHR 0xA3, CHR 0x8C],
      [CHR 0xEA, CHR 0xB5, CHR 0xAC, CHR 0xED, CHR 0x98, CHR 0x84],
      [CHR 0xEB, CHR 0xB0, CHR 0xB0, CHR 0xED, CHR 0x8F, CHR 0xAC],
      [CHR 0xEB, CHR 0x8D, CHR 0xB0, CHR 0xEC, CHR 0x9D, CHR 0xB4, CHR 0xED, CHR 0x84, CHR 0xB0, CHR 0xEB, CHR 0xB2, CHR 0xA0, CHR 0xEC, CHR 0x9D, CHR 0xB4, CHR 0xEC, CHR 0x8A, CHR 0xA4],
      [CHR 0xEB, CHR 0xA7, CHR 0x88, CHR 0xEC, CHR 0x9D, CHR 0xB4, CHR 0xEA, CHR 0xB7, CHR 0xB8, CHR 0xEB, CHR 0xA0, CHR 0x88, CHR 0xEC, CHR 0x9D, CHR 0xB4, CHR 0xEC, CHR 0x85, CHR 0x98],
      [CHR 0xEB, CHR 0xB3, CHR 0xB4, CHR 0xEC, CHR 0x95, CHR 0x88],
      [CHR 0xEB, CHR 0xA6, CHR 0xAC, CHR 0xED, CHR 0x8C, CHR 0xA9, CHR 0xED, CHR 0x86, CHR 0xA0, CHR 0xEB, CHR 0xA7, CHR 0x81],
      [CHR 0xEB, CHR 0x81, CHR 0x9D, CHR 0xEA, CHR 0xB9, CHR 0x8C, CHR 0xEC, CHR 0xA7, CHR 0x80]]"

definition verificationCommandSignals :: "string list" where
  "verificationCommandSignals =
     [''go test'', ''cargo test'', ''cargo check'', ''pytest'', ''python -m pytest'', ''npm test'',
      ''npm run test'', ''pnpm test'', ''pnpm run test'', ''yarn test'', ''bun test'', ''mvn test'',
      ''gradle test'', ''rspec'', ''vitest'', ''jest'', ''playwright'', ''cypress'', ''eslint'', ''lint'',
      ''ruff'', ''mypy'', ''pyright'', ''tsc'', ''typecheck'', ''type-check'', ''npm run build'',
      ''pnpm build'', ''yarn build'', ''go vet'', ''validate'', ''verify'', ''json.tool'', ''py_compile'']"

definition failedEvidenceSignals :: "string list" where
  "failedEvidenceSignals =
     [''failed'', ''failure'', ''error:'', ''panic:'', ''exit status'', ''tests failed'', ''build failed'',
      ''lint failed'', ''compilation failed'', ''compile error'', ''fatal:'']"

definition evidence_risk_table :: "(string \<times> string list) list" where
  "evidence_risk_table =
     [(''production'',
       [''production'', ''prod'', ''go-live'', ''launch'', ''deploy'',
        [CHR 0xEB, CHR 0xB0, CHR 0xB0, CHR 0xED, CHR 0x8F, CHR 0xAC],
        [CHR 0xEC, CHR 0xB6, CHR 0x9C, CHR 0xEC, CHR 0x8B, CHR 0x9C],
        [CHR 0xEC, CHR 0x9A, CHR 0xB4, CHR 0xEC, CHR 0x98, CHR 0x81]]),
      (''database'',
       [''database'', ''migration'', ''schema'', ''db '', '' db'', ''sql'',
        [CHR 0xEB, CHR 0x8D, CHR 0xB0, CHR 0xEC, CHR 0x9D, CHR 0xB4, CHR 0xED, CHR 0x84, CHR 0xB0, CHR 0xEB, CHR 0xB2, CHR 0xA0, CHR 0xEC, CHR 0x9D, CHR 0xB4, CHR 0xEC, CHR 0x8A, CHR 0xA4],
        [CHR 0xEB, CHR 0xA7, CHR 0x88, CHR 0xEC, CHR 0x9D, CHR 0xB4, CHR 0xEA, CHR 0xB7, CHR 0xB8, CHR 0xEB, CHR 0xA0, CHR 0x88, CHR 0xEC, CHR 0x9D, CHR 0xB4, CHR 0xEC, CHR 0x85, CHR 0x98],
        [CHR 0xEC, CHR 0x8A, CHR 0xA4, CHR 0xED, CHR 0x82, CHR 0xA4, CHR 0xEB, CHR 0xA7, CHR 0x88]]),
      (''auth-security'',
       [''auth'', ''oauth'', ''jwt'', ''security'', ''secret'', ''token'', ''password'',
        [CHR 0xEC, CHR 0x9D, CHR 0xB8, CHR 0xEC, CHR 0xA6, CHR 0x9D],
        [CHR 0xEB, CHR 0xB3, CHR 0xB4, CHR 0xEC, CHR 0x95, CHR 0x88],
        [CHR 0xEB, CHR 0xB9, CHR 0x84, CHR 0xEB, CHR 0xB0, CHR 0x80],
        [CHR 0xED, CHR 0x86, CHR 0xA0, CHR 0xED, CHR 0x81, CHR 0xB0]]),
      (''remote-write'',
       [''git push'', ''release'', ''publish'', ''server'', ''remote'',
        [CHR 0xEC, CHR 0x9B, CHR 0x90, CHR 0xEA, CHR 0xB2, CHR 0xA9],
        [CHR 0xEC, CHR 0x84, CHR 0x9C, CHR 0xEB, CHR 0xB2, CHR 0x84]])]"

section \<open>Classification\<close>

definition detectEvidenceRisks :: "string \<Rightarrow> string list" where
  "detectEvidenceRisks prompt = map fst (filter (\<lambda>(_, signals). contains_any prompt signals) evidence_risk_table)"

definition ClassifyEvidenceMode :: "string \<Rightarrow> string \<times> string list" where
  "ClassifyEvidenceMode prompt =
     (let lower = to_lower prompt; risks = detectEvidenceRisks lower in
      if length risks > 0 \<or> contains_any lower deepEvidenceTriggers then (EvidenceModeDeep, risks)
      else if contains_any lower quickEvidenceTriggers then (EvidenceModeQuick, risks)
      else if contains_any lower normalEvidenceTriggers then (EvidenceModeNormal, risks)
      else (EvidenceModeQuick, risks))"

definition known_policy :: "string \<Rightarrow> bool" where
  "known_policy p \<longleftrightarrow> p = EvidencePolicyOff \<or> p = EvidencePolicyMeasure \<or> p = EvidencePolicyAdvisory
     \<or> p = EvidencePolicyBlock"

definition evidencePolicyFromEnv :: "'a ledger_env_scheme \<Rightarrow> string" where
  "evidencePolicyFromEnv lx =
     (let policy = to_lower (lx_env_policy lx) in if known_policy policy then policy else EvidencePolicyMeasure)"

definition DefaultEvidencePolicyConfig :: "'a ledger_env_scheme \<Rightarrow> evidence_policy" where
  "DefaultEvidencePolicyConfig lx = \<lparr>ep_Policy = evidencePolicyFromEnv lx, ep_MaxStopBlocks = 2\<rparr>"

definition NormalizeEvidencePolicyConfig :: "'a ledger_env_scheme \<Rightarrow> evidence_policy \<Rightarrow> evidence_policy" where
  "NormalizeEvidencePolicyConfig lx cfg =
     (let policy = to_lower (trim_space (ep_Policy cfg)) in
      \<lparr>ep_Policy = (if known_policy policy then policy else evidencePolicyFromEnv lx),
       ep_MaxStopBlocks = (if ep_MaxStopBlocks cfg \<le> 0 then 2 else ep_MaxStopBlocks cfg)\<rparr>)"

definition NewEvidenceLedger :: "'a ledger_env_scheme \<Rightarrow> string \<Rightarrow> evidence_policy \<Rightarrow> ledger" where
  "NewEvidenceLedger lx prompt cfg =
     (let (mode, risks) = ClassifyEvidenceMode prompt; policy = NormalizeEvidencePolicyConfig lx cfg in
      \<lparr>el_Mode = mode, el_Policy = ep_Policy policy, el_MaxStopBlocks = ep_MaxStopBlocks policy,
       el_StopBlocks = 0, el_Risks = risks, el_ChangedFiles = [], el_Records = [],
       el_completionRunID = [], el_completionRefs = [], el_completionSuccessByDigest = Map.empty\<rparr>)"

section \<open>Completion evidence\<close>

definition validCompletionEvidenceRunID :: "string \<Rightarrow> bool" where
  "validCompletionEvidenceRunID runID \<longleftrightarrow> runID \<noteq> [] \<and> runID = trim_space runID
     \<and> length runID \<le> maxCompletionRunIDBytes \<and> valid_utf8 runID \<and> \<not> containsCompletionControl runID"

definition BindCompletionRun :: "string \<Rightarrow> ledger option \<Rightarrow> evidence_error + ledger option" where
  "BindCompletionRun runID l = (case l of
     None \<Rightarrow> Inl errCompletionEvidenceInvalidRunID
   | Some l \<Rightarrow>
       (if \<not> validCompletionEvidenceRunID runID then Inl errCompletionEvidenceInvalidRunID
        else if el_completionRunID l \<noteq> [] then
          (if el_completionRunID l = runID then Inr (Some l) else Inl errCompletionEvidenceRunBound)
        else Inr (Some (l\<lparr>el_completionRunID := runID, el_completionRefs := [],
               el_completionSuccessByDigest := Map.empty\<rparr>))))"

definition tool_name_byte :: "char \<Rightarrow> bool" where
  "tool_name_byte c \<longleftrightarrow> (97 \<le> byte c \<and> byte c \<le> 122) \<or> (65 \<le> byte c \<and> byte c \<le> 90)
     \<or> (48 \<le> byte c \<and> byte c \<le> 57) \<or> c \<in> set ''_.:/-''"

definition safeCompletionEvidenceToolName :: "string \<Rightarrow> evidence_error + string" where
  "safeCompletionEvidenceToolName toolName =
     (if toolName = [] \<or> toolName \<noteq> trim_space toolName \<or> length toolName > maxCompletionEvidenceToolNameLen
        then Inl errCompletionEvidenceInvalidTool
      else if list_all tool_name_byte toolName then Inr toolName else Inl errCompletionEvidenceInvalidTool)"

definition completionEvidenceSHA256 :: "'a ledger_env_scheme \<Rightarrow> string \<Rightarrow> string" where
  "completionEvidenceSHA256 lx value = ''sha256:'' @ te_sha256_hex lx value"

definition canonicalCompletionEvidenceDigest :: "'a ledger_env_scheme \<Rightarrow> digest_input \<Rightarrow> string" where
  "canonicalCompletionEvidenceDigest lx input = completionEvidenceSHA256 lx (lx_encode lx input)"

definition appendCompletionEvidence :: "'a ledger_env_scheme \<Rightarrow> string \<Rightarrow> string \<Rightarrow> string \<Rightarrow> string \<Rightarrow> bool
    \<Rightarrow> ledger option \<Rightarrow> evidence_error + (evidence_ref \<times> ledger option)" where
  "appendCompletionEvidence lx source toolName input result succeeded l = (case l of
     None \<Rightarrow> Inl errCompletionEvidenceNotBound
   | Some l \<Rightarrow>
       (if length input > maxCompletionEvidenceInputBytes \<or> length result > maxCompletionEvidenceResultBytes then
          Inl errCompletionEvidenceFieldLarge
        else if el_completionRunID l = [] then Inl errCompletionEvidenceNotBound
        else if length (el_completionRefs l) \<ge> maxCompletionEvidenceRefs then Inl errCompletionEvidenceLimit
        else
          let sequence = of_nat (length (el_completionRefs l) + 1);
              digest = canonicalCompletionEvidenceDigest lx
                \<lparr>di_RunID = el_completionRunID l, di_Sequence = sequence, di_Source = source,
                 di_ToolName = toolName, di_InputSHA256 = completionEvidenceSHA256 lx input,
                 di_ResultSHA256 = completionEvidenceSHA256 lx result, di_Succeeded = succeeded\<rparr> in
          if el_completionSuccessByDigest l digest \<noteq> None then Inl errCompletionEvidenceCollision
          else
            let ref = \<lparr>er_Digest = digest, er_Sequence = sequence, er_Source = source,
                  er_ToolName = toolName, er_Succeeded = succeeded\<rparr> in
            Inr (ref, Some (l\<lparr>el_completionRefs := el_completionRefs l @ [ref],
              el_completionSuccessByDigest := (el_completionSuccessByDigest l)(digest \<mapsto> succeeded)\<rparr>))))"

text \<open>
  The outcome is ignored without an error (\<^term>\<open>Inr (None, l)\<close>), refused, or appended.
  \<^verbatim>\<open>strings.EqualFold\<close> with a text that has no k and no s is equality of the ASCII
  lower cases, since those two are the only ASCII letters with a further folding.
\<close>

definition equal_fold_plain :: "string \<Rightarrow> string \<Rightarrow> bool" where
  "equal_fold_plain s t \<longleftrightarrow> map lower_char s = map lower_char t"

definition ObserveCompletionToolOutcome :: "'a ledger_env_scheme \<Rightarrow> tool_outcome \<Rightarrow> ledger option
    \<Rightarrow> evidence_error + (evidence_ref option \<times> ledger option)" where
  "ObserveCompletionToolOutcome lx outcome l =
     (if \<not> to_Executed outcome \<or> to_Synthetic outcome \<or> to_Denied outcome
         \<or> equal_fold_plain (trim_space (to_ToolName outcome)) ''ReportCompletion'' then Inr (None, l)
      else (case safeCompletionEvidenceToolName (to_ToolName outcome) of
              Inl e \<Rightarrow> Inl e
            | Inr toolName \<Rightarrow>
                (case appendCompletionEvidence lx CompletionEvidenceSourceTool toolName (to_Input outcome)
                        (to_Result outcome) (\<not> to_IsError outcome) l of
                   Inl e \<Rightarrow> Inl e
                 | Inr (ref, l') \<Rightarrow> Inr (Some ref, l'))))"

definition ledger_Snapshot :: "'a ledger_env_scheme \<Rightarrow> ledger option \<Rightarrow> evidence_snapshot" where
  "ledger_Snapshot lx l = (case l of
     None \<Rightarrow> \<lparr>es_RunID = [], es_Refs = []\<rparr>
   | Some l \<Rightarrow> \<lparr>es_RunID = completionReceiptText (text_env.truncate lx) (el_completionRunID l) maxCompletionRunIDBytes,
       es_Refs = el_completionRefs l\<rparr>)"

definition ResolveCompletionEvidence :: "ledger option \<Rightarrow> string \<Rightarrow> string \<Rightarrow> bool" where
  "ResolveCompletionEvidence l runID evidenceDigest = (case l of
     None \<Rightarrow> False
   | Some l \<Rightarrow>
       (if runID = [] \<or> runID \<noteq> el_completionRunID l then False
        else el_completionSuccessByDigest l evidenceDigest = Some True))"

section \<open>Observations\<close>

definition truncateStr :: "string \<Rightarrow> nat \<Rightarrow> string" where
  "truncateStr s limit = (if length s \<le> limit then s else take limit s @ ''...'')"

definition isEditTool :: "string \<Rightarrow> bool" where
  "isEditTool toolName \<longleftrightarrow> toolName = ''Write'' \<or> toolName = ''Edit'' \<or> toolName = ''MultiEdit''"

definition IsVerificationCommand :: "string \<Rightarrow> bool" where
  "IsVerificationCommand command =
     (let lower = to_lower (trim_space command) in lower \<noteq> [] \<and> contains_any lower verificationCommandSignals)"

definition inferEvidenceStatus :: "string \<Rightarrow> bool \<Rightarrow> string" where
  "inferEvidenceStatus output isError =
     (if isError \<or> contains_any (to_lower output) failedEvidenceSignals then ''failed'' else ''passed'')"

definition evidenceCommandFromInput :: "'a ledger_env_scheme \<Rightarrow> string \<Rightarrow> string" where
  "evidenceCommandFromInput lx input = trim_space (lx_command lx input)"

definition evidencePathFromInput :: "'a ledger_env_scheme \<Rightarrow> string \<Rightarrow> string" where
  "evidencePathFromInput lx input =
     (let (filePath, path) = lx_paths lx input in if trim_space filePath \<noteq> [] then filePath else path)"

definition addRecord :: "evidence_record \<Rightarrow> ledger \<Rightarrow> ledger" where
  "addRecord r l = l\<lparr>el_Records := el_Records l @ [r]\<rparr>"

definition ObserveChangedFile :: "string \<Rightarrow> ledger option \<Rightarrow> ledger option" where
  "ObserveChangedFile path l = (case l of
     None \<Rightarrow> None
   | Some l \<Rightarrow>
       let path = trim_space path in
       if path = [] then Some l
       else if path \<in> set (el_ChangedFiles l) then Some l
       else Some (l\<lparr>el_ChangedFiles := el_ChangedFiles l @ [path]\<rparr>))"

definition ObserveToolResult :: "'a ledger_env_scheme \<Rightarrow> string \<Rightarrow> string \<Rightarrow> string \<Rightarrow> string \<Rightarrow> bool
    \<Rightarrow> ledger option \<Rightarrow> ledger option" where
  "ObserveToolResult lx at toolName input output isError l = (case l of
     None \<Rightarrow> None
   | Some l \<Rightarrow>
       let l1 = (if isEditTool toolName \<and> \<not> isError \<and> evidencePathFromInput lx input \<noteq> []
                 then ObserveChangedFile (evidencePathFromInput lx input) (Some l) else Some l) in
       if toolName \<noteq> ''Bash'' then l1
       else
         let command = evidenceCommandFromInput lx input in
         if command = [] \<or> \<not> IsVerificationCommand command then l1
         else map_option (addRecord \<lparr>ec_Source = ''tool'', ec_Command = command,
                ec_Status = inferEvidenceStatus output isError,
                ec_Summary = truncateStr (trim_space output) 600, ec_ExitCode = 0, ec_At = at\<rparr>) l1)"

definition ObserveAutoVerify :: "'a ledger_env_scheme \<Rightarrow> string \<Rightarrow> string \<Rightarrow> bool \<Rightarrow> bool \<Rightarrow> ledger option \<Rightarrow> ledger option" where
  "ObserveAutoVerify lx at output failed did_run l = (case l of
     None \<Rightarrow> None
   | Some l \<Rightarrow>
       if \<not> did_run then Some l
       else
         let l1 = addRecord \<lparr>ec_Source = ''auto-verify'', ec_Command = [],
                ec_Status = (if failed then ''failed'' else ''passed''),
                ec_Summary = truncateStr (trim_space output) 600, ec_ExitCode = 0, ec_At = at\<rparr> l in
         (case appendCompletionEvidence lx CompletionEvidenceSourceAutoVerify CompletionEvidenceSourceAutoVerify
                 [] output (\<not> failed) (Some l1) of
            Inl _ \<Rightarrow> Some l1
          | Inr (_, l2) \<Rightarrow> l2))"

definition MarkStopBlock :: "ledger option \<Rightarrow> ledger option" where
  "MarkStopBlock l = map_option (\<lambda>l. l\<lparr>el_StopBlocks := wrap_int (el_StopBlocks l + 1)\<rparr>) l"

section \<open>The gate\<close>

definition path_ext :: "string \<Rightarrow> string" where
  "path_ext path = (let rest = takeWhile (\<lambda>c. c \<noteq> CHR ''/'' \<and> c \<noteq> CHR ''.'') (rev path) in
     if length rest < length path \<and> rev path ! length rest = CHR ''.'' then CHR ''.'' # rev rest else [])"

definition path_base :: "string \<Rightarrow> string" where
  "path_base path = (if path = [] then ''.''
     else let p = trim_right_chars ''/'' path; b = rev (takeWhile (\<lambda>c. c \<noteq> CHR ''/'') (rev p)) in
          if b = [] then ''/'' else b)"

definition changeKind :: "string \<Rightarrow> string" where
  "changeKind path =
     (let lower = to_lower path; ext = to_lower (path_ext lower); base = to_lower (path_base lower) in
      if ext \<in> set [''.md'', ''.mdx'', ''.txt'', ''.rst''] \<or> has_prefix lower ''docs/''
         \<or> base = ''readme'' \<or> base = ''readme.md'' then ''docs''
      else if ext \<in> set [''.go'', ''.rs'', ''.py'', ''.js'', ''.jsx'', ''.ts'', ''.tsx'', ''.cs'', ''.java'',
                ''.kt'', ''.swift''] then ''code''
      else if ext \<in> set [''.json'', ''.yaml'', ''.yml'', ''.toml'', ''.ini'', ''.env''] then ''config''
      else if str_contains lower ''test'' \<or> str_contains lower ''spec'' then ''test''
      else ''asset'')"

definition hasSuccessfulVerificationLocked :: "ledger \<Rightarrow> bool" where
  "hasSuccessfulVerificationLocked l = list_ex (\<lambda>r. ec_Status r = ''passed'') (el_Records l)"

definition docsOnlyLocked :: "ledger \<Rightarrow> bool" where
  "docsOnlyLocked l \<longleftrightarrow> length (el_ChangedFiles l) \<noteq> 0
     \<and> list_all (\<lambda>path. changeKind path = ''docs'') (el_ChangedFiles l)"

definition evidenceTerminalState :: "string \<Rightarrow> string \<Rightarrow> evidence_record list \<Rightarrow> string" where
  "evidenceTerminalState decision status records =
     (if decision = EvidenceGateBlock then EvidenceTerminalBlocked
      else
        let hasPassed = (status = ''passed'' \<or> list_ex (\<lambda>r. ec_Status r = ''passed'') records);
            hasFailed = (status = ''failed'' \<or> list_ex (\<lambda>r. ec_Status r = ''failed'') records) in
        if (decision = [] \<or> decision = EvidenceGateAllow) \<and> hasPassed \<and> \<not> hasFailed then EvidenceTerminalVerified
        else if hasPassed then EvidenceTerminalPartiallyVerified
        else EvidenceTerminalUnverified)"

definition gateLocked :: "ledger \<Rightarrow> string \<Rightarrow> string \<Rightarrow> gate_result" where
  "gateLocked l decision summary = \<lparr>gr_Decision = decision,
     gr_TerminalState = evidenceTerminalState decision [] (el_Records l), gr_Mode = el_Mode l,
     gr_Policy = el_Policy l, gr_Summary = summary, gr_Risks = el_Risks l\<rparr>"

definition Evaluate :: "ledger option \<Rightarrow> gate_result" where
  "Evaluate l = (case l of
     None \<Rightarrow> \<lparr>gr_Decision = EvidenceGateAllow, gr_TerminalState = EvidenceTerminalUnverified,
        gr_Mode = EvidenceModeQuick, gr_Policy = EvidencePolicyOff, gr_Summary = ''no evidence ledger'', gr_Risks = []\<rparr>
   | Some l \<Rightarrow>
       if el_Policy l = EvidencePolicyOff then gateLocked l EvidenceGateAllow ''evidence policy disabled''
       else if el_Mode l = EvidenceModeQuick then
         gateLocked l EvidenceGateAllow ''quick task does not require completion evidence''
       else if length (el_ChangedFiles l) = 0 then gateLocked l EvidenceGateAllow ''no file changes observed''
       else if docsOnlyLocked l then gateLocked l EvidenceGateAllow ''docs-only change''
       else if hasSuccessfulVerificationLocked l then
         gateLocked l EvidenceGateAllow ''successful verification evidence recorded''
       else if el_Mode l \<noteq> EvidenceModeDeep then
         gateLocked l EvidenceGateWarn ''changed files without successful verification evidence''
       else if el_Policy l = EvidencePolicyBlock then
         (if el_StopBlocks l \<ge> el_MaxStopBlocks l then
            gateLocked l EvidenceGateWarn ''evidence block budget exhausted; completion allowed with warning''
          else gateLocked l EvidenceGateBlock ''deep change requires successful verification evidence'')
       else if el_Policy l = EvidencePolicyAdvisory then
         gateLocked l EvidenceGateWarn ''deep change has no successful verification evidence''
       else gateLocked l EvidenceGateWouldBlock ''deep change would require verification evidence in block mode'')"

definition no_record :: evidence_record where
  "no_record = \<lparr>ec_Source = [], ec_Command = [], ec_Status = [], ec_Summary = [], ec_ExitCode = 0, ec_At = []\<rparr>"

fun best_record :: "evidence_record \<Rightarrow> evidence_record list \<Rightarrow> evidence_record" where
  "best_record failed [] = failed"
| "best_record failed (r # rs) =
     (if ec_Status r = ''passed'' then r
      else if ec_Status failed = [] \<and> ec_Status r = ''failed'' then best_record r rs
      else best_record failed rs)"

definition bestEvidenceRecordLocked :: "evidence_record list \<Rightarrow> evidence_record" where
  "bestEvidenceRecordLocked records = best_record no_record records"

text \<open>
  What the agent loop does when the model wants to stop: unless the completion contract has blocked
  the run already, a blocking gate is counted and holds the run, which goes on with another turn.
\<close>

definition stop_attempt :: "bool \<Rightarrow> ledger option \<Rightarrow> ledger option \<times> bool" where
  "stop_attempt completionBlocked l =
     (let gate = Evaluate l in
      if \<not> completionBlocked \<and> gr_Decision gate = EvidenceGateBlock then (MarkStopBlock l, True) else (l, False))"

text \<open>
  The receipt is filled from two looks at the ledger, each under its lock: the gate is evaluated,
  then the records are copied. Between the two another goroutine may have changed the ledger.
\<close>

definition ApplyToReceipt_records :: "gate_result \<Rightarrow> ledger \<Rightarrow> receipt_verification \<Rightarrow> receipt_verification" where
  "ApplyToReceipt_records gate l v =
      (let records = el_Records l; best = bestEvidenceRecordLocked (el_Records l);
           v1 = (if (rv_Status v = [] \<or> rv_Status v = ''not-run'') \<and> ec_Status best \<noteq> []
                 then v\<lparr>rv_Status := ec_Status best, rv_Source := ec_Source best\<rparr> else v);
           v2 = (if rv_Command v1 = [] then v1\<lparr>rv_Command := ec_Command best\<rparr> else v1);
           v3 = v2\<lparr>rv_Gate := gr_Decision gate, rv_Mode := gr_Mode gate,
                  rv_TerminalState := evidenceTerminalState (gr_Decision gate) (rv_Status v2) records\<rparr>;
           v4 = (if rv_Summary v3 = [] then v3\<lparr>rv_Summary := gr_Summary gate\<rparr> else v3)
       in if length records > 0 then v4\<lparr>rv_Evidence := records\<rparr> else v4)"

definition ApplyToReceipt :: "ledger option \<Rightarrow> ledger option \<Rightarrow> receipt_verification \<Rightarrow> receipt_verification" where
  "ApplyToReceipt l0 l v = (case l of None \<Rightarrow> v | Some m \<Rightarrow> ApplyToReceipt_records (Evaluate l0) m v)"

end
