(* ===== verification/Evidence_Laws.thy ===== *)
theory Evidence_Laws
  imports Evidence_Ledger
begin

text \<open>
  The evidence ledger as a machine of its operations, its invariant, and the two contracts it
  provides: the run it is bound to is written once, and an answer of
  \<^verbatim>\<open>ResolveCompletionEvidence\<close> that was yes stays yes.
\<close>

datatype ledger_event =
  LBind string
| LOutcome tool_outcome
| LResult string string string string bool
| LAuto string string bool bool
| LChanged string
| LStop

fun ledger_step :: "'a ledger_env_scheme \<Rightarrow> ledger option \<Rightarrow> ledger_event \<Rightarrow> ledger option" where
  "ledger_step lx l (LBind runID) = (case BindCompletionRun runID l of Inl _ \<Rightarrow> l | Inr l' \<Rightarrow> l')"
| "ledger_step lx l (LOutcome outcome) =
     (case ObserveCompletionToolOutcome lx outcome l of Inl _ \<Rightarrow> l | Inr (_, l') \<Rightarrow> l')"
| "ledger_step lx l (LResult at tool input output isError) = ObserveToolResult lx at tool input output isError l"
| "ledger_step lx l (LAuto at output failed did_run) = ObserveAutoVerify lx at output failed did_run l"
| "ledger_step lx l (LChanged path) = ObserveChangedFile path l"
| "ledger_step lx l LStop = MarkStopBlock l"

text \<open>A reference is bound to its run, its position and the outcome it stands for.\<close>

definition ref_ok :: "'a ledger_env_scheme \<Rightarrow> string \<Rightarrow> nat \<Rightarrow> evidence_ref \<Rightarrow> bool" where
  "ref_ok lx runID n ref \<longleftrightarrow> er_Sequence ref = of_nat (Suc n)
     \<and> \<not> equal_fold_plain (er_ToolName ref) ''ReportCompletion''
     \<and> (\<exists>input result. er_Digest ref = canonicalCompletionEvidenceDigest lx
          \<lparr>di_RunID = runID, di_Sequence = er_Sequence ref, di_Source = er_Source ref,
           di_ToolName = er_ToolName ref, di_InputSHA256 = completionEvidenceSHA256 lx input,
           di_ResultSHA256 = completionEvidenceSHA256 lx result, di_Succeeded = er_Succeeded ref\<rparr>)"

definition refs_inv :: "'a ledger_env_scheme \<Rightarrow> ledger \<Rightarrow> bool" where
  "refs_inv lx l \<longleftrightarrow> length (el_completionRefs l) \<le> maxCompletionEvidenceRefs
     \<and> (el_completionRefs l \<noteq> [] \<longrightarrow> el_completionRunID l \<noteq> [])
     \<and> distinct (map er_Digest (el_completionRefs l))
     \<and> (\<forall>d b. el_completionSuccessByDigest l d = Some b \<longleftrightarrow>
          (\<exists>ref \<in> set (el_completionRefs l). er_Digest ref = d \<and> er_Succeeded ref = b))
     \<and> (\<forall>n < length (el_completionRefs l). ref_ok lx (el_completionRunID l) n (el_completionRefs l ! n))"

definition ledger_inv :: "'a ledger_env_scheme \<Rightarrow> ledger option \<Rightarrow> bool" where
  "ledger_inv lx l \<longleftrightarrow> (case l of None \<Rightarrow> True | Some l \<Rightarrow> refs_inv lx l)"

definition same_refs :: "ledger \<Rightarrow> ledger \<Rightarrow> bool" where
  "same_refs l m \<longleftrightarrow> el_completionRunID l = el_completionRunID m \<and> el_completionRefs l = el_completionRefs m
     \<and> el_completionSuccessByDigest l = el_completionSuccessByDigest m"

lemma refs_inv_same: "same_refs l m \<Longrightarrow> refs_inv lx l = refs_inv lx m"
  by (simp add: same_refs_def refs_inv_def)

lemma NewEvidenceLedger_inv: "ledger_inv lx (Some (NewEvidenceLedger lx prompt cfg))"
  by (simp add: ledger_inv_def refs_inv_def NewEvidenceLedger_def Let_def case_prod_unfold)

section \<open>Appending\<close>

lemma appendCompletionEvidence_Inr:
  assumes "appendCompletionEvidence lx source tool input result succeeded (Some l) = Inr (ref, l')"
  obtains m where "l' = Some m" "el_completionRunID m = el_completionRunID l" "el_completionRunID l \<noteq> []"
    "el_completionRefs m = el_completionRefs l @ [ref]"
    "el_completionSuccessByDigest m = (el_completionSuccessByDigest l)(er_Digest ref \<mapsto> er_Succeeded ref)"
    "el_completionSuccessByDigest l (er_Digest ref) = None"
    "length (el_completionRefs l) < maxCompletionEvidenceRefs"
    "er_Sequence ref = of_nat (Suc (length (el_completionRefs l)))" "er_ToolName ref = tool"
    "er_Source ref = source" "er_Succeeded ref = succeeded"
    "er_Digest ref = canonicalCompletionEvidenceDigest lx
       \<lparr>di_RunID = el_completionRunID l, di_Sequence = er_Sequence ref, di_Source = er_Source ref,
        di_ToolName = er_ToolName ref, di_InputSHA256 = completionEvidenceSHA256 lx input,
        di_ResultSHA256 = completionEvidenceSHA256 lx result, di_Succeeded = er_Succeeded ref\<rparr>"
  using assms by (auto simp: appendCompletionEvidence_def Let_def split: if_splits)

lemma append_inv:
  assumes inv: "refs_inv lx l"
    and app: "appendCompletionEvidence lx source tool input result succeeded (Some l) = Inr (ref, l')"
    and tool: "\<not> equal_fold_plain tool ''ReportCompletion''"
  shows "ledger_inv lx l'"
  using app
proof (rule appendCompletionEvidence_Inr)
  fix m
  assume m: "l' = Some m" "el_completionRunID m = el_completionRunID l" "el_completionRunID l \<noteq> []"
    "el_completionRefs m = el_completionRefs l @ [ref]"
    "el_completionSuccessByDigest m = (el_completionSuccessByDigest l)(er_Digest ref \<mapsto> er_Succeeded ref)"
    "el_completionSuccessByDigest l (er_Digest ref) = None"
    "length (el_completionRefs l) < maxCompletionEvidenceRefs"
    "er_Sequence ref = of_nat (Suc (length (el_completionRefs l)))" "er_ToolName ref = tool"
    and dig: "er_Digest ref = canonicalCompletionEvidenceDigest lx
       \<lparr>di_RunID = el_completionRunID l, di_Sequence = er_Sequence ref, di_Source = er_Source ref,
        di_ToolName = er_ToolName ref, di_InputSHA256 = completionEvidenceSHA256 lx input,
        di_ResultSHA256 = completionEvidenceSHA256 lx result, di_Succeeded = er_Succeeded ref\<rparr>"
  have fresh: "r \<in> set (el_completionRefs l) \<Longrightarrow> er_Digest r \<noteq> er_Digest ref" for r
    using inv m(6) unfolding refs_inv_def by (metis option.distinct(1))
  have new: "ref_ok lx (el_completionRunID l) (length (el_completionRefs l)) ref"
    unfolding ref_ok_def using m(8,9) tool dig by blast
  have "\<forall>d b. el_completionSuccessByDigest m d = Some b \<longleftrightarrow>
      (\<exists>r \<in> set (el_completionRefs m). er_Digest r = d \<and> er_Succeeded r = b)"
    using inv fresh unfolding refs_inv_def by (auto simp: m(4,5))
  moreover have "distinct (map er_Digest (el_completionRefs m))"
    using inv unfolding refs_inv_def by (auto simp: m(4) dest: fresh)
  moreover have "\<forall>n < length (el_completionRefs m). ref_ok lx (el_completionRunID m) n (el_completionRefs m ! n)"
    using inv new unfolding refs_inv_def by (auto simp: m(2,4) nth_append less_Suc_eq)
  ultimately show ?thesis
    using m by (simp add: ledger_inv_def refs_inv_def)
qed

lemma append_grows:
  "appendCompletionEvidence lx source tool input result succeeded (Some l) = Inr (ref, l')
     \<Longrightarrow> ResolveCompletionEvidence (Some l) r d \<Longrightarrow> ResolveCompletionEvidence l' r d"
  by (elim appendCompletionEvidence_Inr) (auto simp: ResolveCompletionEvidence_def split: if_splits)

section \<open>Steps\<close>

text \<open>Every step of the ledger is one of three: no change of the references, a first binding, an append.\<close>

inductive refs_move :: "'a ledger_env_scheme \<Rightarrow> ledger \<Rightarrow> ledger option \<Rightarrow> bool" for lx m where
  same: "same_refs m' m \<Longrightarrow> refs_move lx m (Some m')"
| bind: "el_completionRunID m = [] \<Longrightarrow> el_completionRunID m' \<noteq> [] \<Longrightarrow> el_completionRefs m' = []
    \<Longrightarrow> el_completionSuccessByDigest m' = Map.empty \<Longrightarrow> refs_move lx m (Some m')"
| append: "same_refs m' m \<Longrightarrow>
    appendCompletionEvidence lx source tool input result succeeded (Some m') = Inr (ref, l')
    \<Longrightarrow> \<not> equal_fold_plain tool ''ReportCompletion'' \<Longrightarrow> refs_move lx m l'"

lemma refs_move_refl: "refs_move lx m (Some m)"
  by (rule same) (simp add: same_refs_def)

lemma bind_move: "refs_move lx m (ledger_step lx (Some m) (LBind runID))"
  using refs_move_refl [of lx m]
  by (auto simp: BindCompletionRun_def validCompletionEvidenceRunID_def intro: bind)

lemma outcome_move: "refs_move lx m (ledger_step lx (Some m) (LOutcome oc))"
proof (cases "ObserveCompletionToolOutcome lx oc (Some m)")
  case (Inl e)
  then show ?thesis by (simp add: refs_move_refl)
next
  case (Inr r)
  obtain ref l' where r: "r = (ref, l')" by (cases r)
  show ?thesis
  proof (cases ref)
    case None
    with Inr r have "l' = Some m"
      by (auto simp: ObserveCompletionToolOutcome_def split: if_splits sum.splits prod.splits)
    with Inr r show ?thesis by (simp add: refs_move_refl)
  next
    case (Some ref)
    with Inr r obtain tool where
      "appendCompletionEvidence lx CompletionEvidenceSourceTool tool (to_Input oc) (to_Result oc) (\<not> to_IsError oc) (Some m)
        = Inr (ref, l')" "\<not> equal_fold_plain tool ''ReportCompletion''"
      by (auto simp: ObserveCompletionToolOutcome_def safeCompletionEvidenceToolName_def
          split: if_splits sum.splits prod.splits)
    with Inr r show ?thesis by (auto intro: append [of m m] simp: same_refs_def)
  qed
qed

lemma auto_move: "refs_move lx m (ledger_step lx (Some m) (LAuto at out failed did_run))"
proof (cases did_run)
  case True
  let ?m = "addRecord \<lparr>ec_Source = ''auto-verify'', ec_Command = [],
    ec_Status = (if failed then ''failed'' else ''passed''),
    ec_Summary = truncateStr (trim_space out) 600, ec_ExitCode = 0, ec_At = at\<rparr> m"
  let ?app = "appendCompletionEvidence lx CompletionEvidenceSourceAutoVerify
    CompletionEvidenceSourceAutoVerify [] out (\<not> failed) (Some ?m)"
  have m: "same_refs ?m m" by (simp add: same_refs_def addRecord_def)
  have tool: "\<not> equal_fold_plain CompletionEvidenceSourceAutoVerify ''ReportCompletion''" by code_simp
  show ?thesis
  proof (cases ?app)
    case (Inl e)
    with True m show ?thesis by (simp add: ObserveAutoVerify_def Let_def same)
  next
    case (Inr r)
    have "ledger_step lx (Some m) (LAuto at out failed did_run) = snd r"
      using True Inr by (simp add: ObserveAutoVerify_def Let_def case_prod_unfold)
    with append [OF m, of lx _ _ _ _ _ "fst r" "snd r", OF _ tool] Inr show ?thesis by simp
  qed
qed (simp add: ObserveAutoVerify_def refs_move_refl)

lemma ledger_step_move: "refs_move lx m (ledger_step lx (Some m) ev)"
proof (cases ev)
  case (LResult at tool input out isError)
  then show ?thesis
    by (auto simp: ObserveToolResult_def ObserveChangedFile_def addRecord_def same_refs_def Let_def intro!: same)
next
  case (LChanged path)
  then show ?thesis by (auto simp: ObserveChangedFile_def same_refs_def Let_def intro!: same)
next
  case LStop
  then show ?thesis by (auto simp: MarkStopBlock_def same_refs_def intro!: same)
qed (use bind_move outcome_move auto_move in blast)+

lemma ledger_step_None: "ledger_step lx None ev = None"
  by (cases ev) (auto simp: BindCompletionRun_def ObserveCompletionToolOutcome_def appendCompletionEvidence_def
      ObserveToolResult_def ObserveAutoVerify_def ObserveChangedFile_def MarkStopBlock_def split: sum.splits)

lemma move_inv: "refs_move lx m l' \<Longrightarrow> refs_inv lx m \<Longrightarrow> ledger_inv lx l'"
proof (induction rule: refs_move.induct)
  case (append m' source tool input result succeeded ref l')
  from append(1,4) have "refs_inv lx m'" by (simp add: refs_inv_same)
  from append_inv [OF this append(2,3)] show ?case .
next
  case (bind m')
  then show ?case by (simp add: ledger_inv_def refs_inv_def)
qed (simp add: ledger_inv_def refs_inv_same)

lemma move_grows:
  "refs_move lx m l' \<Longrightarrow> ResolveCompletionEvidence (Some m) r d \<Longrightarrow> ResolveCompletionEvidence l' r d"
proof (induction rule: refs_move.induct)
  case (append m' source tool input result succeeded ref l')
  have "ResolveCompletionEvidence (Some m') = ResolveCompletionEvidence (Some m)"
    using append(1) by (intro ext) (simp add: ResolveCompletionEvidence_def same_refs_def)
  with append show ?case by (metis append_grows)
qed (auto simp: ResolveCompletionEvidence_def same_refs_def split: if_splits)

lemma ledger_step_inv: "ledger_inv lx l \<Longrightarrow> ledger_inv lx (ledger_step lx l ev)"
proof (cases l)
  case (Some m)
  then show "ledger_inv lx l \<Longrightarrow> ?thesis"
    using move_inv [OF ledger_step_move] by (simp add: ledger_inv_def)
qed (simp add: ledger_step_None)

lemma ledger_step_grows:
  "ResolveCompletionEvidence l r d \<Longrightarrow> ResolveCompletionEvidence (ledger_step lx l ev) r d"
  by (cases l) (auto simp: ResolveCompletionEvidence_def [of None] intro: move_grows ledger_step_move)

section \<open>The gate over a run\<close>

text \<open>
  The ledger as the agent loop drives it, with the number of stops that were held back. Here
  \<^const>\<open>LStop\<close> is an attempt to stop, the only place from which the loop marks a block; attempts of a
  run that the completion contract has blocked do not touch the ledger.
\<close>

definition turn_step :: "'a ledger_env_scheme \<Rightarrow> ledger option \<times> nat \<Rightarrow> ledger_event \<Rightarrow> ledger option \<times> nat" where
  "turn_step lx s ev =
     (if ev = LStop then (let (l, held) = stop_attempt False (fst s) in (l, if held then Suc (snd s) else snd s))
      else (ledger_step lx (fst s) ev, snd s))"

lemma gate_blocks_iff:
  "gr_Decision (Evaluate (Some l)) = EvidenceGateBlock \<longleftrightarrow>
     el_Policy l = EvidencePolicyBlock \<and> el_Mode l = EvidenceModeDeep
     \<and> list_ex (\<lambda>path. changeKind path \<noteq> ''docs'') (el_ChangedFiles l)
     \<and> \<not> list_ex (\<lambda>r. ec_Status r = ''passed'') (el_Records l)
     \<and> el_StopBlocks l < el_MaxStopBlocks l"
  by (auto simp: Evaluate_def gateLocked_def docsOnlyLocked_def hasSuccessfulVerificationLocked_def
      list_ex_iff list_all_iff)

text \<open>What every observation keeps: the gate's settings and counter, and the records so far.\<close>

definition observed :: "ledger \<Rightarrow> ledger \<Rightarrow> bool" where
  "observed l m \<longleftrightarrow> el_Policy m = el_Policy l \<and> el_Mode m = el_Mode l \<and> el_MaxStopBlocks m = el_MaxStopBlocks l
     \<and> el_StopBlocks m = el_StopBlocks l \<and> set (el_Records l) \<subseteq> set (el_Records m)"

lemma append_observed:
  "appendCompletionEvidence lx source tool input result succeeded (Some l) = Inr (ref, l')
     \<Longrightarrow> \<exists>m. l' = Some m \<and> observed l m"
  by (auto simp: appendCompletionEvidence_def observed_def Let_def split: if_splits)

lemma observed_refl: "\<exists>m. Some l = Some m \<and> observed l m"
  by (simp add: observed_def)

lemma outcome_observed: "\<exists>m. ledger_step lx (Some l) (LOutcome oc) = Some m \<and> observed l m"
proof (cases "ObserveCompletionToolOutcome lx oc (Some l)")
  case (Inl e)
  then show ?thesis using observed_refl by simp
next
  case (Inr r)
  then have "snd r = Some l \<or> (\<exists>source tool input result succeeded ref.
      appendCompletionEvidence lx source tool input result succeeded (Some l) = Inr (ref, snd r))"
    by (auto simp: ObserveCompletionToolOutcome_def split: if_splits sum.splits)
  then have "\<exists>m. snd r = Some m \<and> observed l m"
    using append_observed observed_refl by metis
  with Inr show ?thesis by (simp add: case_prod_unfold)
qed

lemma auto_observed: "\<exists>m. ledger_step lx (Some l) (LAuto at out failed did_run) = Some m \<and> observed l m"
proof (cases did_run)
  case True
  let ?m = "addRecord \<lparr>ec_Source = ''auto-verify'', ec_Command = [],
    ec_Status = (if failed then ''failed'' else ''passed''),
    ec_Summary = truncateStr (trim_space out) 600, ec_ExitCode = 0, ec_At = at\<rparr> l"
  have m: "observed l ?m" by (simp add: observed_def addRecord_def subset_insertI)
  show ?thesis
  proof (cases "appendCompletionEvidence lx CompletionEvidenceSourceAutoVerify
      CompletionEvidenceSourceAutoVerify [] out (\<not> failed) (Some ?m)")
    case (Inl e)
    with True m show ?thesis by (simp add: ObserveAutoVerify_def Let_def)
  next
    case (Inr r)
    obtain ref l' where r: "r = (ref, l')" by (cases r)
    from append_observed [OF Inr [unfolded r]] obtain n where n: "snd r = Some n" "observed ?m n" unfolding r by auto
    from m n(2) have "observed l n" unfolding observed_def by auto
    with True Inr n(1) show ?thesis by (simp add: ObserveAutoVerify_def Let_def case_prod_unfold)
  qed
qed (use observed_refl in \<open>simp add: ObserveAutoVerify_def\<close>)

lemma changed_observed: "\<exists>m. ObserveChangedFile path (Some l) = Some m \<and> observed l m"
  by (simp add: ObserveChangedFile_def Let_def observed_def)

lemma result_observed: "\<exists>m. ledger_step lx (Some l) (LResult at tool input output isError) = Some m \<and> observed l m"
proof -
  let ?l1 = "if isEditTool tool \<and> \<not> isError \<and> evidencePathFromInput lx input \<noteq> []
      then ObserveChangedFile (evidencePathFromInput lx input) (Some l) else Some l"
  have "\<exists>m. ?l1 = Some m \<and> observed l m"
    by (simp only: split: if_split) (intro conjI impI changed_observed observed_refl)
  then obtain m where m: "?l1 = Some m" "observed l m" by blast
  then have "observed l (addRecord r m)" for r by (auto simp: observed_def addRecord_def)
  with m(2) show ?thesis
    by (simp add: ObserveToolResult_def Let_def m(1))
qed

lemma bind_observed: "\<exists>m. ledger_step lx (Some l) (LBind runID) = Some m \<and> observed l m"
  by (simp add: BindCompletionRun_def observed_def)

lemma ledger_step_observed: "ev \<noteq> LStop \<Longrightarrow> \<exists>m. ledger_step lx (Some l) ev = Some m \<and> observed l m"
  using bind_observed outcome_observed result_observed auto_observed changed_observed
  by (cases ev) (simp_all only: ledger_step.simps, blast+)

definition turn_inv :: "string \<Rightarrow> string \<Rightarrow> int \<Rightarrow> ledger option \<times> nat \<Rightarrow> bool" where
  "turn_inv policy mode limit s \<longleftrightarrow> (\<exists>m. fst s = Some m \<and> el_Policy m = policy \<and> el_Mode m = mode
     \<and> el_MaxStopBlocks m = limit \<and> el_StopBlocks m = int (snd s) \<and> int (snd s) \<le> limit \<and> limit < 2 ^ 63)"

lemma turn_step_inv: "turn_inv policy mode limit s \<Longrightarrow> turn_inv policy mode limit (turn_step lx s ev)"
proof (cases "ev = LStop")
  case True
  assume "turn_inv policy mode limit s"
  then obtain m where m: "fst s = Some m" "el_Policy m = policy" "el_Mode m = mode" "el_MaxStopBlocks m = limit"
      "el_StopBlocks m = int (snd s)" "int (snd s) \<le> limit" "limit < 2 ^ 63" by (auto simp: turn_inv_def)
  show ?thesis
  proof (cases "gr_Decision (Evaluate (Some m)) = EvidenceGateBlock")
    case held: True
    then have "int (snd s) < limit" using m by (simp add: gate_blocks_iff)
    then have "wrap_int (int (snd s) + 1) = int (Suc (snd s))"
      using m(7) by (simp add: wrap_int_def signed_take_bit_int_eq_self)
    with held True m \<open>int (snd s) < limit\<close> show ?thesis
      by (simp add: turn_step_def stop_attempt_def turn_inv_def MarkStopBlock_def)
  next
    case False
    with True m show ?thesis by (simp add: turn_step_def stop_attempt_def turn_inv_def)
  qed
next
  case False
  assume "turn_inv policy mode limit s"
  then obtain m where m: "fst s = Some m" "turn_inv policy mode limit (Some m, snd s)" by (auto simp: turn_inv_def)
  obtain m' where "ledger_step lx (Some m) ev = Some m'" "observed m m'" using ledger_step_observed [OF False] by blast
  with m False show ?thesis by (auto simp: turn_step_def turn_inv_def observed_def)
qed

interpretation turn_machine: invariant_machine "turn_step lx" "turn_inv policy mode limit"
  for lx policy mode limit
  by unfold_locales (rule turn_step_inv)

text \<open>After a verification that passed nothing is held back any more.\<close>

lemma turn_after_pass:
  assumes "fst s = Some m" and "list_ex (\<lambda>r. ec_Status r = ''passed'') (el_Records m)"
  shows "snd (foldl (turn_step lx) s evs) = snd s"
  using assms
proof (induction evs arbitrary: s m)
  case (Cons ev evs)
  show ?case
  proof (cases "ev = LStop")
    case True
    with Cons.prems have "turn_step lx s ev = s"
      by (auto simp: turn_step_def stop_attempt_def gate_blocks_iff prod_eq_iff)
    with Cons show ?thesis by simp
  next
    case False
    obtain m' where "ledger_step lx (Some m) ev = Some m'" "observed m m'" using ledger_step_observed [OF False] by blast
    with Cons.prems False have "fst (turn_step lx s ev) = Some m'" "snd (turn_step lx s ev) = snd s"
      "list_ex (\<lambda>r. ec_Status r = ''passed'') (el_Records m')"
      by (auto simp: turn_step_def observed_def list_ex_iff)
    with Cons.IH show ?thesis by simp
  qed
qed simp

section \<open>Interpretations\<close>

interpretation ledger_store: evidence_store "ledger_step lx" "ledger_inv lx" ResolveCompletionEvidence
  for lx by unfold_locales (auto intro: ledger_step_inv ledger_step_grows)

definition bound_run :: "ledger option \<Rightarrow> unit \<Rightarrow> string option" where
  "bound_run l u = (case l of None \<Rightarrow> None
     | Some m \<Rightarrow> if el_completionRunID m = [] then None else Some (el_completionRunID m))"

lemma move_bound: "refs_move lx m l' \<Longrightarrow> bound_run (Some m) k = Some v \<Longrightarrow> bound_run l' k = Some v"
proof (induction rule: refs_move.induct)
  case (append m' source tool input result succeeded ref l')
  from append(2) obtain n where "l' = Some n" "el_completionRunID n = el_completionRunID m'"
    by (rule appendCompletionEvidence_Inr)
  with append show ?case by (auto simp: bound_run_def same_refs_def split: if_splits)
qed (auto simp: bound_run_def same_refs_def split: if_splits)

lemma bound_run_step: "bound_run l k = Some v \<Longrightarrow> bound_run (ledger_step lx l ev) k = Some v"
  by (cases l) (auto simp: bound_run_def [of None] intro: move_bound ledger_step_move)

interpretation run_binding: write_once "ledger_step lx" "ledger_inv lx" bound_run
  for lx by unfold_locales (rule bound_run_step)

lemma resolve_ref:
  assumes "ledger_inv lx l" and "ResolveCompletionEvidence l r d"
  shows "\<exists>m ref. l = Some m \<and> el_completionRunID m = r \<and> ref \<in> set (el_completionRefs m)
    \<and> er_Digest ref = d \<and> er_Succeeded ref \<and> \<not> equal_fold_plain (er_ToolName ref) ''ReportCompletion''"
proof -
  from assms(2) obtain m where m: "l = Some m" "el_completionRunID m = r"
    "el_completionSuccessByDigest m d = Some True"
    by (auto simp: ResolveCompletionEvidence_def split: option.splits if_splits)
  with assms(1) obtain ref where ref: "ref \<in> set (el_completionRefs m)" "er_Digest ref = d" "er_Succeeded ref"
    unfolding ledger_inv_def refs_inv_def by auto
  moreover from ref(1) obtain n where "n < length (el_completionRefs m)" "el_completionRefs m ! n = ref"
    by (auto simp: in_set_conv_nth)
  ultimately have "ref_ok lx r n ref"
    using assms(1) m by (auto simp: ledger_inv_def refs_inv_def)
  with ref m show ?thesis by (auto simp: ref_ok_def)
qed

lemma ledger_step_Some: "ledger_step lx (Some m) ev \<noteq> None"
  using ledger_step_move [of lx m ev]
  by (cases rule: refs_move.cases) (auto elim: appendCompletionEvidence_Inr)

lemma ledger_run_Some: "foldl (ledger_step lx) (Some m) evs \<noteq> None"
proof (induction evs arbitrary: m)
  case (Cons ev evs)
  obtain m' where "ledger_step lx (Some m) ev = Some m'"
    using ledger_step_Some [of lx m ev] by (auto simp del: ledger_step.simps)
  with Cons show ?case by (simp del: ledger_step.simps)
qed simp

lemma best_record_in: "bestEvidenceRecordLocked rs = no_record \<or> bestEvidenceRecordLocked rs \<in> set rs"
proof -
  have "best_record f rs = f \<or> best_record f rs \<in> set rs" for f
    by (induction f rs rule: best_record.induct) auto
  then show ?thesis by (simp add: bestEvidenceRecordLocked_def)
qed

end
