(* ===== verification/Completion_Run.thy ===== *)
theory Completion_Run
  imports Completion_Laws Evidence_Laws
begin

text \<open>
  Completion contract and evidence ledger together. The calls of \<^verbatim>\<open>ApplyClaims\<close>
  are interleaved at the boundaries of their lock sections, and one query of the evidence
  resolver is one step, so that other calls and the ledger may run between any two queries.
  The client lemmas are proved once against the contract \<^verbatim>\<open>evidence_store\<close>.
\<close>

record flight =
  fl_expected :: uint64
  fl_runID :: string
  fl_prepared :: "prepared_claim list"
  fl_todo :: "prepared_claim list"

record 's claim_system =
  sy_contract :: contract
  sy_flight :: "nat \<rightharpoonup> flight"
  sy_store :: 's

datatype 'e claim_event =
  CBegin nat uint64 "completion_claim list"
| CResolve nat
| CCommit nat
| CStore 'e

definition store_resolver :: "('s \<Rightarrow> string \<Rightarrow> string \<Rightarrow> bool) \<Rightarrow> 's \<Rightarrow> evidence_resolver" where
  "store_resolver look s = Some (\<lambda>runID digest. Inr (look s runID digest))"

fun claim_step :: "text_env \<Rightarrow> ('s \<Rightarrow> string \<Rightarrow> string \<Rightarrow> bool) \<Rightarrow> ('s \<Rightarrow> 'e \<Rightarrow> 's) \<Rightarrow> 's claim_system
    \<Rightarrow> 'e claim_event \<Rightarrow> 's claim_system" where
  "claim_step te look sstep sy (CBegin k expected claims) =
     (if sy_flight sy k \<noteq> None then sy
      else (case ApplyClaims_prepare te expected claims (sy_contract sy) of
              Inl _ \<Rightarrow> sy
            | Inr (prepared, runID) \<Rightarrow>
                sy\<lparr>sy_flight := (sy_flight sy)(k \<mapsto>
                  \<lparr>fl_expected = expected, fl_runID = runID, fl_prepared = prepared, fl_todo = prepared\<rparr>)\<rparr>))"
| "claim_step te look sstep sy (CResolve k) =
     (case sy_flight sy k of
        None \<Rightarrow> sy
      | Some f \<Rightarrow>
          (case fl_todo f of
             [] \<Rightarrow> sy
           | p # ps \<Rightarrow>
               (case ApplyClaims_resolve (store_resolver look (sy_store sy)) (fl_runID f) [p] of
                  Some _ \<Rightarrow> sy\<lparr>sy_flight := (sy_flight sy)(k := None)\<rparr>
                | None \<Rightarrow> sy\<lparr>sy_flight := (sy_flight sy)(k \<mapsto> f\<lparr>fl_todo := ps\<rparr>)\<rparr>)))"
| "claim_step te look sstep sy (CCommit k) =
     (case sy_flight sy k of
        None \<Rightarrow> sy
      | Some f \<Rightarrow>
          (if fl_todo f \<noteq> [] then sy
           else
             let sy1 = sy\<lparr>sy_flight := (sy_flight sy)(k := None)\<rparr> in
             (case ApplyClaims_commit (fl_expected f) (fl_prepared f) (sy_contract sy) of
                Inl _ \<Rightarrow> sy1
              | Inr c \<Rightarrow> sy1\<lparr>sy_contract := c\<rparr>)))"
| "claim_step te look sstep sy (CStore e) = sy\<lparr>sy_store := sstep (sy_store sy) e\<rparr>"

definition start_system :: "contract \<Rightarrow> 's \<Rightarrow> 's claim_system" where
  "start_system c s = \<lparr>sy_contract = c, sy_flight = Map.empty, sy_store = s\<rparr>"

text \<open>The digests a claim or a criterion rests on.\<close>

definition needs_evidence :: "string \<Rightarrow> string \<Rightarrow> bool" where
  "needs_evidence state dig \<longleftrightarrow> state = CompletionClaimSatisfied \<and> dig \<noteq> []"

definition flight_ok :: "(string \<Rightarrow> string \<Rightarrow> bool) \<Rightarrow> contract \<Rightarrow> flight \<Rightarrow> bool" where
  "flight_ok look c f \<longleftrightarrow> fl_runID f = cc_runID c \<and> fl_expected f \<noteq> - 1 \<and> batch_ok c (fl_prepared f)
     \<and> (\<forall>p \<in> set (fl_prepared f). needs_evidence (pc_state p) (pc_evidenceDigest p) \<longrightarrow>
          p \<in> set (fl_todo f) \<or> look (cc_runID c) (pc_evidenceDigest p))"

definition evidence_ok :: "(string \<Rightarrow> string \<Rightarrow> bool) \<Rightarrow> contract \<Rightarrow> bool" where
  "evidence_ok look c \<longleftrightarrow> (\<forall>cr \<in> set (cc_criteria c).
     needs_evidence (cr_state cr) (cr_evidenceDigest cr) \<longrightarrow> look (cc_runID c) (cr_evidenceDigest cr))"

definition system_inv :: "('s \<Rightarrow> string \<Rightarrow> string \<Rightarrow> bool) \<Rightarrow> ('s \<Rightarrow> bool) \<Rightarrow> 's claim_system \<Rightarrow> bool" where
  "system_inv look sinv sy \<longleftrightarrow> contract_inv (sy_contract sy) \<and> sinv (sy_store sy)
     \<and> evidence_ok (look (sy_store sy)) (sy_contract sy)
     \<and> (\<forall>k f. sy_flight sy k = Some f \<longrightarrow> flight_ok (look (sy_store sy)) (sy_contract sy) f)"

section \<open>Resolution and commit\<close>

lemma resolve_Cons:
  "ApplyClaims_resolve res runID (p # ps) =
     (case ApplyClaims_resolve res runID [p] of Some e \<Rightarrow> Some e | None \<Rightarrow> ApplyClaims_resolve res runID ps)"
  by (auto split: option.splits sum.splits)

lemma resolve_one:
  "ApplyClaims_resolve (store_resolver look s) runID [p] = None \<longleftrightarrow>
     (needs_evidence (pc_state p) (pc_evidenceDigest p) \<longrightarrow> look s runID (pc_evidenceDigest p))"
  by (auto simp: store_resolver_def needs_evidence_def)

lemma batch_ok_keys:
  assumes "contract_inv c" and "map criterion_key (cc_criteria c') = map criterion_key (cc_criteria c)"
    and "cc_criterionIdx c' = cc_criterionIdx c" and "batch_ok c ps"
  shows "batch_ok c' ps"
proof -
  have "prepared_ok c' p" if "prepared_ok c p" for p
  proof -
    have "pc_criterionIndex p < length (cc_criteria c)"
      using index_of [OF assms(1), of "pc_criterionID p"] that by (simp add: prepared_ok_def)
    then have "claim_shape_error (cc_criteria c' ! pc_criterionIndex p)
        = claim_shape_error (cc_criteria c ! pc_criterionIndex p)"
      by (intro claim_shape_error_cong key_nth(3) [OF assms(2)])
    with that assms(3) show ?thesis by (simp add: prepared_ok_def)
  qed
  with assms(4) show ?thesis by (auto simp: batch_ok_def list_all_iff)
qed

lemma commit_flight_ok:
  assumes "contract_inv c" and "ApplyClaims_commit expected ps c = Inr c'" and "flight_ok look c f"
  shows "flight_ok look c' f"
  using assms batch_ok_keys [OF assms(1), of c'] ApplyClaims_commit_sel [OF assms(2)]
  by (auto simp: flight_ok_def foldl_commit_key)

lemma commit_evidence_ok:
  assumes inv: "contract_inv c" and ev: "evidence_ok look c" and f: "flight_ok look c f" "fl_todo f = []"
    and c: "ApplyClaims_commit (fl_expected f) (fl_prepared f) c = Inr c'"
  shows "evidence_ok look c'"
proof -
  have b: "batch_ok c (fl_prepared f)" using f by (simp add: flight_ok_def)
  have "needs_evidence (cr_state (cc_criteria c' ! i)) (cr_evidenceDigest (cc_criteria c' ! i)) \<longrightarrow>
      look (cc_runID c) (cr_evidenceDigest (cc_criteria c' ! i))" if i: "i < length (cc_criteria c)" for i
  proof (cases "find (\<lambda>p. pc_criterionIndex p = i) (fl_prepared f)")
    case None
    with committed_criterion [OF inv b c i] ev i show ?thesis by (auto simp: evidence_ok_def)
  next
    case (Some p)
    then have "p \<in> set (fl_prepared f)" by (auto dest: find_Some_set)
    with f committed_criterion [OF inv b c i] Some show ?thesis
      by (auto simp: flight_ok_def committed_def)
  qed
  then show ?thesis
    using ApplyClaims_commit_sel(3,6) [OF c] unfolding evidence_ok_def
    by (metis foldl_commit_length in_set_conv_nth)
qed

section \<open>The system keeps its invariant\<close>

lemma begin_flight_ok:
  assumes "ApplyClaims_prepare te expected claims c = Inr (ps, runID)"
  shows "flight_ok look c \<lparr>fl_expected = expected, fl_runID = runID, fl_prepared = ps, fl_todo = ps\<rparr>"
  using assms
  by (auto simp: ApplyClaims_prepare_def flight_ok_def dest: prepareClaimsLocked_ok(2) split: if_splits sum.splits)

lemma resolve_flight_ok:
  assumes "flight_ok look c f" and "fl_todo f = p # ps"
    and "needs_evidence (pc_state p) (pc_evidenceDigest p) \<Longrightarrow> look (cc_runID c) (pc_evidenceDigest p)"
  shows "flight_ok look c (f\<lparr>fl_todo := ps\<rparr>)"
proof -
  have "q \<in> set ps \<or> look (cc_runID c) (pc_evidenceDigest q)"
    if q: "q \<in> set (fl_prepared f)" "needs_evidence (pc_state q) (pc_evidenceDigest q)" for q
  proof (cases "q = p")
    case True
    with q assms(3) show ?thesis by simp
  next
    case False
    with q assms(1,2) show ?thesis by (auto simp: flight_ok_def)
  qed
  with assms(1) show ?thesis by (simp add: flight_ok_def)
qed

lemma flight_ok_mono:
  "flight_ok look c f \<Longrightarrow> (\<And>r d. look r d \<Longrightarrow> look' r d) \<Longrightarrow> flight_ok look' c f"
  unfolding flight_ok_def by meson

lemma evidence_ok_mono: "evidence_ok look c \<Longrightarrow> (\<And>r d. look r d \<Longrightarrow> look' r d) \<Longrightarrow> evidence_ok look' c"
  unfolding evidence_ok_def by meson

lemma resolve_step_inv:
  assumes inv: "system_inv look sinv sy"
  shows "system_inv look sinv (claim_step te look sstep sy (CResolve k))"
proof (cases "\<exists>f p ps. sy_flight sy k = Some f \<and> fl_todo f = p # ps
    \<and> ApplyClaims_resolve (store_resolver look (sy_store sy)) (fl_runID f) [p] = None")
  case True
  then obtain f p ps where f: "sy_flight sy k = Some f" "fl_todo f = p # ps"
    "ApplyClaims_resolve (store_resolver look (sy_store sy)) (fl_runID f) [p] = None" by blast
  from inv f(1) have ok: "flight_ok (look (sy_store sy)) (sy_contract sy) f" by (simp add: system_inv_def)
  then have "fl_runID f = cc_runID (sy_contract sy)" by (simp add: flight_ok_def)
  with f(3) have "flight_ok (look (sy_store sy)) (sy_contract sy) (f\<lparr>fl_todo := ps\<rparr>)"
    unfolding resolve_one by (intro resolve_flight_ok [OF ok f(2)]) simp
  with inv f show ?thesis by (auto simp: system_inv_def simp del: ApplyClaims_resolve.simps)
next
  case False
  with inv show ?thesis
    by (auto simp: system_inv_def simp del: ApplyClaims_resolve.simps split: option.splits list.splits)
qed

lemma commit_step_inv:
  assumes inv: "system_inv look sinv sy"
  shows "system_inv look sinv (claim_step te look sstep sy (CCommit k))"
proof (cases "\<exists>f c. sy_flight sy k = Some f \<and> fl_todo f = []
    \<and> ApplyClaims_commit (fl_expected f) (fl_prepared f) (sy_contract sy) = Inr c")
  case True
  then obtain f c where f: "sy_flight sy k = Some f" "fl_todo f = []"
    "ApplyClaims_commit (fl_expected f) (fl_prepared f) (sy_contract sy) = Inr c" by blast
  with inv have ok: "flight_ok (look (sy_store sy)) (sy_contract sy) f" "contract_inv (sy_contract sy)"
    "evidence_ok (look (sy_store sy)) (sy_contract sy)" by (auto simp: system_inv_def)
  have "contract_inv c"
    using commit_inv [OF ok(2) _ f(3)] ok(1) by (simp add: flight_ok_def)
  moreover have "evidence_ok (look (sy_store sy)) c"
    by (rule commit_evidence_ok [OF ok(2,3,1) f(2,3)])
  ultimately show ?thesis
    using inv f ok commit_flight_ok [OF ok(2) f(3)] by (auto simp: system_inv_def Let_def)
next
  case False
  with inv show ?thesis by (auto simp: system_inv_def Let_def split: option.splits sum.splits)
qed

context evidence_store
begin

lemma system_step_inv:
  assumes inv: "system_inv look inv sy"
  shows "system_inv look inv (claim_step te look step sy ev)"
proof (cases ev)
  case (CBegin k expected claims)
  with inv show ?thesis
    by (auto simp: system_inv_def intro: begin_flight_ok split: sum.splits)
next
  case (CStore e)
  have grow: "look (sy_store sy) r d \<Longrightarrow> look (step (sy_store sy) e) r d" for r d
    using inv by (auto simp: system_inv_def intro: look_step)
  from inv have ev: "evidence_ok (look (sy_store sy)) (sy_contract sy)" and s: "inv (sy_store sy)"
    by (simp_all add: system_inv_def)
  have "evidence_ok (look (step (sy_store sy) e)) (sy_contract sy)"
    by (rule evidence_ok_mono [OF ev grow])
  moreover have "flight_ok (look (step (sy_store sy) e)) (sy_contract sy) f" if "sy_flight sy k = Some f" for k f
  proof (rule flight_ok_mono [OF _ grow])
    show "flight_ok (look (sy_store sy)) (sy_contract sy) f"
      using inv that by (simp add: system_inv_def)
  qed
  ultimately show ?thesis
    using inv CStore inv_step [OF s] by (simp add: system_inv_def)
qed (use inv in \<open>simp_all only: resolve_step_inv commit_step_inv\<close>)

lemma system_run_inv:
  "system_inv look inv sy \<Longrightarrow> system_inv look inv (foldl (claim_step te look step) sy evs)"
  by (induction evs arbitrary: sy) (auto intro: system_step_inv simp del: claim_step.simps)

end

lemma start_inv: "contract_inv c \<Longrightarrow> list_all fresh_criterion (cc_criteria c) \<Longrightarrow> sinv s \<Longrightarrow>
    system_inv look sinv (start_system c s)"
  by (auto simp: system_inv_def start_system_def evidence_ok_def needs_evidence_def fresh_criterion_def list_all_iff)

text \<open>Run without interleaving, the steps of one call are the call.\<close>

lemma resolve_steps:
  "sy_flight sy k = Some f \<Longrightarrow> n = length (fl_todo f) \<Longrightarrow>
     foldl (claim_step te look sstep) sy (replicate n (CResolve k)) =
       sy\<lparr>sy_flight := (sy_flight sy)(k :=
         (if ApplyClaims_resolve (store_resolver look (sy_store sy)) (fl_runID f) (fl_todo f) = None
          then Some (f\<lparr>fl_todo := []\<rparr>) else None))\<rparr>"
proof (induction n arbitrary: sy f)
  case 0
  then show ?case by (simp add: fun_upd_idem)
next
  case (Suc n)
  then obtain p ps where todo: "fl_todo f = p # ps" "length ps = n" by (cases "fl_todo f") auto
  have gone: "foldl (claim_step te look sstep) sy' (replicate m (CResolve k)) = sy'"
    if "sy_flight sy' k = None" for sy' m
    using that by (induction m) auto
  let ?r = "ApplyClaims_resolve (store_resolver look (sy_store sy)) (fl_runID f)"
  show ?case
  proof (cases "?r [p]")
    case None
    with todo Suc.prems Suc.IH [of "sy\<lparr>sy_flight := (sy_flight sy)(k \<mapsto> f\<lparr>fl_todo := ps\<rparr>)\<rparr>" "f\<lparr>fl_todo := ps\<rparr>"]
    show ?thesis
      by (simp add: resolve_Cons [of _ _ p ps] del: ApplyClaims_resolve.simps)
        (auto intro!: claim_system.equality simp: fun_eq_iff)
  next
    case (Some e)
    with todo Suc.prems show ?thesis
      by (simp add: resolve_Cons [of _ _ p ps] gone fun_upd_def del: ApplyClaims_resolve.simps)
  qed
qed

section \<open>Status\<close>

lemma status_of_Blocked: "status_of b cs = CompletionStatusBlocked \<longleftrightarrow> (\<exists>cr \<in> set cs. cr_state cr = CompletionClaimBlocked)"
  by (induction b cs rule: status_of.induct) auto

lemma status_of_Complete:
  "status_of b cs = CompletionStatusComplete \<longleftrightarrow> b \<and> (\<forall>cr \<in> set cs. cr_state cr = CompletionClaimSatisfied)"
  by (induction b cs rule: status_of.induct) auto

lemma satisfied_needs_evidence:
  "criterion_ok cr \<Longrightarrow> cr_state cr = CompletionClaimSatisfied \<Longrightarrow> cr_evidenceRequired cr \<Longrightarrow>
     needs_evidence (cr_state cr) (cr_evidenceDigest cr)"
  by (auto simp: criterion_ok_def claim_shape_error_def needs_evidence_def split: if_splits)

lemma complete_evidence:
  assumes "system_inv look sinv sy" and "Status (Some (sy_contract sy)) = CompletionStatusComplete"
    and "cr \<in> set (cc_criteria (sy_contract sy))" and "cr_evidenceRequired cr"
  shows "look (sy_store sy) (cc_runID (sy_contract sy)) (cr_evidenceDigest cr)"
proof -
  have "cr_state cr = CompletionClaimSatisfied"
    using assms(2,3) by (auto simp: Status_def completionStatusLocked_def status_of_Complete split: if_splits)
  moreover have "criterion_ok cr"
    using assms(1,3) by (auto simp: system_inv_def contract_inv_def list_all_iff)
  ultimately have "needs_evidence (cr_state cr) (cr_evidenceDigest cr)"
    using assms(4) by (intro satisfied_needs_evidence)
  with assms(1,3) show ?thesis by (auto simp: system_inv_def evidence_ok_def)
qed

text \<open>What no step changes: the run, the plan revision, and the texts, ids and demands of the criteria.\<close>

lemma claim_step_keys:
  "cc_runID (sy_contract (claim_step te look sstep sy ev)) = cc_runID (sy_contract sy)
   \<and> cc_planRevision (sy_contract (claim_step te look sstep sy ev)) = cc_planRevision (sy_contract sy)
   \<and> map criterion_key (cc_criteria (sy_contract (claim_step te look sstep sy ev)))
       = map criterion_key (cc_criteria (sy_contract sy))"
proof (cases ev)
  case (CCommit k)
  then show ?thesis
    by (auto simp: Let_def foldl_commit_key dest: ApplyClaims_commit_sel split: option.splits sum.splits)
qed (auto simp del: ApplyClaims_resolve.simps split: option.splits sum.splits list.splits)

lemma claim_run_keys:
  "cc_runID (sy_contract (foldl (claim_step te look sstep) sy evs)) = cc_runID (sy_contract sy)
   \<and> cc_planRevision (sy_contract (foldl (claim_step te look sstep) sy evs)) = cc_planRevision (sy_contract sy)
   \<and> map criterion_key (cc_criteria (sy_contract (foldl (claim_step te look sstep) sy evs)))
       = map criterion_key (cc_criteria (sy_contract sy))"
  by (induction evs arbitrary: sy) (simp_all add: claim_step_keys del: claim_step.simps)

text \<open>The revision only grows: a call whose batch is in flight was admitted below the last revision.\<close>

definition flights_room :: "'s claim_system \<Rightarrow> bool" where
  "flights_room sy \<longleftrightarrow> (\<forall>k f. sy_flight sy k = Some f \<longrightarrow> fl_expected f \<noteq> - 1)"

lemma commit_revision_le:
  "ApplyClaims_commit expected ps c = Inr c' \<Longrightarrow> expected \<noteq> - 1 \<Longrightarrow> unat (cc_revision c) \<le> unat (cc_revision c')"
  using ApplyClaims_commit_sel(1,2) [of expected ps c c'] uint64_Suc [of expected] by simp

lemma claim_step_revision:
  assumes "flights_room sy"
  shows "flights_room (claim_step te look sstep sy ev)
    \<and> unat (cc_revision (sy_contract sy)) \<le> unat (cc_revision (sy_contract (claim_step te look sstep sy ev)))"
proof (cases ev)
  case (CBegin k expected claims)
  with assms show ?thesis
    by (auto simp: flights_room_def ApplyClaims_prepare_def split: sum.splits if_splits)
next
  case (CResolve k)
  with assms show ?thesis
    by (auto simp: flights_room_def simp del: ApplyClaims_resolve.simps split: option.splits list.splits)
next
  case (CCommit k)
  with assms show ?thesis
    by (auto simp: flights_room_def Let_def intro: commit_revision_le split: option.splits sum.splits)
qed (use assms in \<open>simp add: flights_room_def\<close>)

lemma claim_run_revision:
  "flights_room sy \<Longrightarrow>
     unat (cc_revision (sy_contract sy)) \<le> unat (cc_revision (sy_contract (foldl (claim_step te look sstep) sy evs)))"
proof (induction evs arbitrary: sy)
  case (Cons ev evs)
  from claim_step_revision [OF Cons.prems, of te look sstep ev] Cons.IH [of "claim_step te look sstep sy ev"]
  show ?case by simp
qed simp

section \<open>A call without interleaving\<close>

definition call_events :: "nat \<Rightarrow> uint64 \<Rightarrow> completion_claim list \<Rightarrow> 'e claim_event list" where
  "call_events k expected claims = [CBegin k expected claims] @ replicate (length claims) (CResolve k) @ [CCommit k]"

lemma call_is_ApplyClaims:
  assumes "sy_flight sy k = None"
  shows "foldl (claim_step te look sstep) sy (call_events k expected claims) =
    (case ApplyClaims te (store_resolver look (sy_store sy)) expected claims (sy_contract sy) of
       Inl _ \<Rightarrow> sy | Inr c \<Rightarrow> sy\<lparr>sy_contract := c\<rparr>)"
proof (cases "ApplyClaims_prepare te expected claims (sy_contract sy)")
  case (Inl e)
  have gone: "foldl (claim_step te look sstep) sy (replicate m (CResolve k)) = sy" for m
    using assms by (induction m) auto
  from Inl assms gone show ?thesis by (simp add: call_events_def ApplyClaims_def)
next
  case (Inr r)
  obtain ps runID where r: "r = (ps, runID)" by (cases r)
  have "length ps = length claims"
    using Inr r by (auto simp: ApplyClaims_prepare_def dest!: prepareClaimsLocked_ok(1) list_all2_lengthD
        split: if_splits sum.splits)
  let ?f = "\<lparr>fl_expected = expected, fl_runID = runID, fl_prepared = ps, fl_todo = ps\<rparr>"
  let ?s = "sy\<lparr>sy_flight := (sy_flight sy)(k \<mapsto> ?f)\<rparr>"
  have idle: "sy\<lparr>sy_flight := (sy_flight sy)(k := None)\<rparr> = sy"
    using assms by (simp add: fun_upd_idem)
  from resolve_steps [of ?s k ?f "length claims" te look sstep] \<open>length ps = length claims\<close> Inr r assms idle
  show ?thesis
    by (auto simp: call_events_def ApplyClaims_def Let_def split: option.splits sum.splits)
qed

end
