(* ===== verification/Completion_Props.thy ===== *)
theory Completion_Props
  imports Completion_Run
begin

text \<open>
  The properties of the completion contract and the evidence ledger: completion rests on
  recorded evidence of the same run in every interleaving, batches commit as a whole and only
  against the revision they were prepared for, the contract's criteria are fixed at
  construction, and the ledger is bounded, append-only and bound to one run.
\<close>

definition claim_run :: "text_env \<Rightarrow> 'a ledger_env_scheme \<Rightarrow> contract \<Rightarrow> ledger \<Rightarrow> ledger_event claim_event list
    \<Rightarrow> ledger option claim_system" where
  "claim_run te lx c l evs =
     foldl (claim_step te ResolveCompletionEvidence (ledger_step lx)) (start_system c (Some l)) evs"

lemma claim_run_inv:
  assumes "NewCompletionContract te spec = Inr c"
  shows "system_inv ResolveCompletionEvidence (ledger_inv lx) (claim_run te lx c (NewEvidenceLedger lx prompt cfg) evs)"
  unfolding claim_run_def
  using NewCompletionContract_spec(1,5) [OF assms] NewEvidenceLedger_inv [of lx prompt cfg]
  by (intro ledger_store.system_run_inv start_inv)

section \<open>Samples\<close>

definition sample_env :: ledger_env where
  "sample_env = \<lparr>te_sha256_hex = (\<lambda>s. replicate 64 (if s = ''tests pass'' then CHR ''a'' else CHR ''b'')),
     te_redact = id, lx_encode = di_ToolName, lx_command = id, lx_paths = (\<lambda>s. (s, s)), lx_env_policy = []\<rparr>"

definition sample_text_env :: text_env where
  "sample_text_env = text_env.truncate sample_env"

definition done_spec :: completion_spec where
  "done_spec = \<lparr>cs_RunID = '' run-1 '', cs_PlanAnchor = \<lparr>pa_objective = ''ship'', pa_currentStep = [],
     pa_remainingSteps = [], pa_definitionOfDone = [''tests pass''], pa_revision = 3\<rparr>,
     cs_EvidenceNotRequiredCriteria = []\<rparr>"

definition done_contract :: contract where
  "done_contract = (case NewCompletionContract sample_text_env done_spec of Inr c \<Rightarrow> c)"

lemma done_contract_new: "NewCompletionContract sample_text_env done_spec = Inr done_contract"
proof -
  have "\<not> isl (NewCompletionContract sample_text_env done_spec)" by code_simp
  then show ?thesis
    unfolding done_contract_def by (cases "NewCompletionContract sample_text_env done_spec") simp_all
qed

definition done_ledger :: ledger where
  "done_ledger = NewEvidenceLedger sample_env ''fix it'' \<lparr>ep_Policy = ''block'', ep_MaxStopBlocks = 1\<rparr>"

definition done_claims :: "completion_claim list" where
  "done_claims =
     [\<lparr>cl_CriterionID = ''criterion:sha256:'' @ replicate 64 (CHR ''a''), cl_State = CompletionClaimSatisfied,
       cl_EvidenceDigest = ''sha256:'' @ replicate 64 (CHR ''b''), cl_Summary = [], cl_Assertion = []\<rparr>]"

definition done_outcome :: tool_outcome where
  "done_outcome = \<lparr>to_ToolName = ''Bash'', to_Input = [], to_Result = ''ok'', to_IsError = False,
     to_Executed = True, to_Synthetic = False, to_Denied = False\<rparr>"

definition done_events :: "ledger_event claim_event list" where
  "done_events = [CStore (LBind ''run-1''), CStore (LOutcome done_outcome), CBegin 0 0 done_claims,
     CResolve 0, CCommit 0]"

section \<open>Completion\<close>

text \<open>
  C16. Completion rests on evidence: in every interleaving of claim calls, evidence queries
  and ledger operations of a run, if the contract is complete, then every criterion that
  requires evidence names the digest of a successful tool outcome that the ledger recorded
  for this very run, and that outcome is not a completion report itself.
\<close>

theorem completion_requires_evidence:
  assumes "NewCompletionContract te spec = Inr c"
    and "Status (Some (sy_contract (claim_run te lx c (NewEvidenceLedger lx prompt cfg) evs))) = CompletionStatusComplete"
    and "cr \<in> set (cc_criteria (sy_contract (claim_run te lx c (NewEvidenceLedger lx prompt cfg) evs)))"
    and "cr_evidenceRequired cr"
  shows "\<exists>l ref. sy_store (claim_run te lx c (NewEvidenceLedger lx prompt cfg) evs) = Some l
    \<and> el_completionRunID l = trim_space (cs_RunID spec)
    \<and> ref \<in> set (el_completionRefs l) \<and> er_Digest ref = cr_evidenceDigest cr \<and> er_Succeeded ref
    \<and> \<not> equal_fold_plain (er_ToolName ref) ''ReportCompletion''"
proof -
  let ?sy = "claim_run te lx c (NewEvidenceLedger lx prompt cfg) evs"
  have inv: "system_inv ResolveCompletionEvidence (ledger_inv lx) ?sy"
    using assms(1) by (rule claim_run_inv)
  then have "ResolveCompletionEvidence (sy_store ?sy) (cc_runID (sy_contract ?sy)) (cr_evidenceDigest cr)"
    using assms(2-4) by (rule complete_evidence)
  moreover have "ledger_inv lx (sy_store ?sy)" using inv by (simp add: system_inv_def)
  moreover have "cc_runID (sy_contract ?sy) = trim_space (cs_RunID spec)"
    using NewCompletionContract_spec(2) [OF assms(1)]
    by (simp add: claim_run_def start_system_def claim_run_keys)
  ultimately show ?thesis using resolve_ref by fastforce
qed

definition complete_with_evidence :: "'s claim_system \<Rightarrow> bool" where
  "complete_with_evidence sy \<longleftrightarrow> Status (Some (sy_contract sy)) = CompletionStatusComplete
     \<and> list_ex cr_evidenceRequired (cc_criteria (sy_contract sy))"

lemma done_complete:
  "complete_with_evidence (claim_run sample_text_env sample_env done_contract done_ledger done_events)"
  by code_simp

theorem completion_requires_evidence_witness:
  "\<exists>l ref. sy_store (claim_run sample_text_env sample_env done_contract done_ledger done_events) = Some l
    \<and> ref \<in> set (el_completionRefs l) \<and> er_Succeeded ref"
proof -
  let ?sy = "claim_run sample_text_env sample_env done_contract done_ledger done_events"
  have "Status (Some (sy_contract ?sy)) = CompletionStatusComplete"
    and "\<exists>cr \<in> set (cc_criteria (sy_contract ?sy)). cr_evidenceRequired cr"
    using done_complete by (simp_all add: complete_with_evidence_def list_ex_iff)
  with completion_requires_evidence [OF done_contract_new, of sample_env] show ?thesis
    unfolding done_ledger_def by blast
qed

section \<open>Batches\<close>

text \<open>
  C17. A committed batch changes exactly what it claims: in any state a run can reach, a
  successful call was made against the current revision, moves it on by one without wrapping,
  names known and distinct criteria, gives every claimed criterion the claimed state and
  evidence and the new revision, and leaves every other criterion as it was.
\<close>

theorem batch_commit_exact:
  assumes new: "NewCompletionContract te spec = Inr c0"
    and run: "c = sy_contract (claim_run te lx c0 (NewEvidenceLedger lx prompt cfg) evs)"
    and ok: "ApplyClaims te res expected claims c = Inr c'"
  shows "expected = cc_revision c \<and> unat (cc_revision c') = Suc (unat (cc_revision c))
    \<and> distinct (map cl_CriterionID claims)
    \<and> (\<forall>claim \<in> set claims. claim_applied c c' claim)
    \<and> (\<forall>i < length (cc_criteria c). cr_id (cc_criteria c ! i) \<notin> cl_CriterionID ` set claims
         \<longrightarrow> cc_criteria c' ! i = cc_criteria c ! i)"
proof -
  have inv: "contract_inv c"
    using claim_run_inv [OF new, of lx prompt cfg evs] run by (simp add: system_inv_def)
  from ok obtain ps where ps: "prepareClaimsLocked te c claims = Inr ps" "expected = cc_revision c"
    and commit: "ApplyClaims_commit expected ps c = Inr c'"
    by (rule ApplyClaims_parts)
  note prep = prepareClaimsLocked_ok [OF ps(1)]
  have ids: "map pc_criterionID ps = map cl_CriterionID claims" by (rule batch_ids [OF prep(1)])
  have "claim_applied c c' claim" if "claim \<in> set claims" for claim
  proof -
    from that obtain i where "i < length claims" "claims ! i = claim" by (auto simp: in_set_conv_nth)
    with prep(1) have "ps ! i \<in> set ps" "prepareClaimLocked te c claim = Inr (ps ! i)"
      by (auto simp: list_all2_conv_all_nth)
    then show ?thesis by (rule batch_claimed [OF inv prep(2) commit])
  qed
  moreover have "cl_CriterionID ` set claims = pc_criterionID ` set ps"
    using ids by (metis set_map)
  moreover have "distinct (map cl_CriterionID claims)"
    using prep(2) ids by (simp add: batch_ok_def)
  moreover have "unat (cc_revision c') = Suc (unat (cc_revision c))"
    using contract_cas.commit_unsigned [of te expected "(res, claims)" c c'] ok by simp
  ultimately show ?thesis
    using ps(2) batch_unclaimed [OF inv prep(2) commit] by simp
qed

text \<open>The sample run up to the call, and the call.\<close>

definition done_before :: contract where
  "done_before = sy_contract (claim_run sample_text_env sample_env done_contract done_ledger
     [CStore (LBind ''run-1''), CStore (LOutcome done_outcome)])"

definition done_resolver :: evidence_resolver where
  "done_resolver = Some (\<lambda>runID digest. Inr (runID = ''run-1''))"

definition done_after :: contract where
  "done_after = (case ApplyClaims sample_text_env done_resolver 0 done_claims done_before of Inr c \<Rightarrow> c)"

lemma done_after_ok: "ApplyClaims sample_text_env done_resolver 0 done_claims done_before = Inr done_after"
proof -
  have "\<not> isl (ApplyClaims sample_text_env done_resolver 0 done_claims done_before)" by code_simp
  then show ?thesis
    unfolding done_after_def
    by (cases "ApplyClaims sample_text_env done_resolver 0 done_claims done_before") simp_all
qed

theorem batch_commit_exact_witness:
  "list_all (claim_applied done_before done_after) done_claims
    \<and> unat (cc_revision done_after) = Suc (unat (cc_revision done_before))"
  using batch_commit_exact [OF done_contract_new done_before_def [unfolded done_ledger_def] done_after_ok]
  by (simp add: list_all_iff)

text \<open>
  No update is lost: once a call against a revision has committed, every other call
  that names the same revision is refused as stale, whatever calls and ledger operations
  come in between, and for every batch and resolver.
\<close>

theorem stale_calls_refused:
  assumes "ApplyClaims te res r claims c = Inr c'"
  shows "ApplyClaims te res' r claims' (sy_contract (claim_run te lx c' l evs))
    = Inl (completionContractError CompletionErrorStaleRevision ''expectedRevision'' [])"
proof -
  let ?sy = "claim_run te lx c' l evs"
  have "unat (cc_revision c') = Suc (unat r)"
    using contract_cas.commit_unsigned [of te r "(res, claims)" c c'] contract_cas.commit [of te r "(res, claims)" c c']
      assms by simp
  moreover have "unat (cc_revision c') \<le> unat (cc_revision (sy_contract ?sy))"
    using claim_run_revision [of "start_system c' (Some l)" te ResolveCompletionEvidence "ledger_step lx" evs]
    by (simp add: claim_run_def start_system_def flights_room_def)
  ultimately have "cc_revision (sy_contract ?sy) \<noteq> r" by auto
  then show ?thesis by (simp add: ApplyClaims_def ApplyClaims_prepare_def)
qed

theorem stale_calls_refused_witness:
  "ApplyClaims sample_text_env None 0 done_claims
     (sy_contract (claim_run sample_text_env sample_env done_after done_ledger [CStore LStop]))
    = Inl (completionContractError CompletionErrorStaleRevision ''expectedRevision'' [])"
  by (rule stale_calls_refused [OF done_after_ok])

text \<open>
  C21. The contract is the plan's: in every state a run can reach, the criteria are the items
  of the Definition of Done in their order, each under the identifier derived from its text,
  the identifiers are distinct, a criterion is exempt from evidence exactly if the
  specification lists its text, and the run and plan revision are those of the specification.
\<close>

theorem contract_fixed_by_plan:
  assumes new: "NewCompletionContract te spec = Inr c0"
    and c_def: "c = sy_contract (claim_run te lx c0 (NewEvidenceLedger lx prompt cfg) evs)"
  shows "map cr_text (cc_criteria c) = pa_definitionOfDone (cs_PlanAnchor spec)
    \<and> (\<forall>cr \<in> set (cc_criteria c). CompletionCriterionID te (cr_text cr) = Inr (cr_id cr)
         \<and> (cr_evidenceRequired cr \<longleftrightarrow>
              cr_text cr \<notin> normalizeAnchorText ` set (cs_EvidenceNotRequiredCriteria spec)))
    \<and> distinct (map cr_id (cc_criteria c))
    \<and> cc_runID c = trim_space (cs_RunID spec) \<and> cc_planRevision c = pa_revision (cs_PlanAnchor spec)"
proof -
  have keys: "map criterion_key (cc_criteria c) = map criterion_key (cc_criteria c0)"
    and run: "cc_runID c = cc_runID c0" "cc_planRevision c = cc_planRevision c0"
    unfolding c_def claim_run_def by (simp_all add: claim_run_keys start_system_def)
  have texts: "map cr_text (cc_criteria c) = map cr_text (cc_criteria c0)"
    using arg_cong [OF keys, of "map (\<lambda>k. fst (snd k))"] by (simp add: criterion_key_def comp_def)
  have "contract_inv c"
    using claim_run_inv [OF new, of lx prompt cfg evs] c_def by (simp add: system_inv_def)
  then have "distinct (map cr_id (cc_criteria c))" by (rule contract_inv_distinct)
  moreover have "CompletionCriterionID te (cr_text cr) = Inr (cr_id cr) \<and> (cr_evidenceRequired cr \<longleftrightarrow>
      cr_text cr \<notin> normalizeAnchorText ` set (cs_EvidenceNotRequiredCriteria spec))"
    if "cr \<in> set (cc_criteria c)" for cr
  proof -
    from that have "criterion_key cr \<in> criterion_key ` set (cc_criteria c0)"
      using arg_cong [OF keys, of set] by (metis image_eqI list.set_map)
    then obtain cr0 where "cr0 \<in> set (cc_criteria c0)" "criterion_key cr0 = criterion_key cr" by auto
    moreover from this(2) have "cr_id cr = cr_id cr0" "cr_text cr = cr_text cr0"
      "cr_evidenceRequired cr = cr_evidenceRequired cr0" by (simp_all add: criterion_key_def)
    ultimately show ?thesis
      using NewCompletionContract_spec(6,8) [OF new] by (simp add: list_all_iff)
  qed
  ultimately show ?thesis
    using NewCompletionContract_spec(2,4,7) [OF new] run texts by simp
qed

theorem contract_fixed_by_plan_witness:
  "map cr_text (cc_criteria (sy_contract (claim_run sample_text_env sample_env done_contract done_ledger done_events)))
    = [''tests pass'']"
  using contract_fixed_by_plan [OF done_contract_new refl, where lx = sample_env and evs = done_events]
  unfolding done_ledger_def by (auto simp: done_spec_def)

text \<open>
  The derived status is exact: a non-empty contract is complete exactly if every
  criterion is satisfied, blocked exactly if some criterion is blocked, and incomplete
  otherwise; an absent or empty contract is never complete.
\<close>

theorem status_exact:
  "(Status c = CompletionStatusComplete \<longleftrightarrow>
      (\<exists>d. c = Some d \<and> cc_criteria d \<noteq> [] \<and> list_all (\<lambda>cr. cr_state cr = CompletionClaimSatisfied) (cc_criteria d)))
   \<and> (Status c = CompletionStatusBlocked \<longleftrightarrow>
      (\<exists>d. c = Some d \<and> list_ex (\<lambda>cr. cr_state cr = CompletionClaimBlocked) (cc_criteria d)))"
  by (cases c)
    (auto simp: Status_def completionStatusLocked_def status_of_Complete status_of_Blocked list_all_iff list_ex_iff)

text \<open>
  The interleaved model is the code's call: a call whose three phases run without
  interruption has exactly the effect of \<^verbatim>\<open>ApplyClaims\<close> with the ledger's resolver,
  and an unsuccessful call leaves contract, calls in flight and ledger unchanged.
\<close>

theorem uninterrupted_call_is_ApplyClaims:
  assumes "sy_flight sy k = None"
  shows "foldl (claim_step te ResolveCompletionEvidence (ledger_step lx)) sy (call_events k expected claims) =
    (case ApplyClaims te (Some (\<lambda>runID digest. Inr (ResolveCompletionEvidence (sy_store sy) runID digest)))
            expected claims (sy_contract sy) of
       Inl _ \<Rightarrow> sy | Inr c \<Rightarrow> sy\<lparr>sy_contract := c\<rparr>)"
  using call_is_ApplyClaims [OF assms, of te ResolveCompletionEvidence "ledger_step lx" expected claims]
  by (simp add: store_resolver_def)

theorem uninterrupted_call_is_ApplyClaims_witness:
  "foldl (claim_step sample_text_env ResolveCompletionEvidence (ledger_step sample_env))
      (start_system done_contract (Some done_ledger)) (call_events 7 5 done_claims)
    = start_system done_contract (Some done_ledger)"
proof -
  have "isl (ApplyClaims sample_text_env
      (Some (\<lambda>runID digest. Inr (ResolveCompletionEvidence (Some done_ledger) runID digest))) 5 done_claims done_contract)"
    by code_simp
  then show ?thesis
    using uninterrupted_call_is_ApplyClaims [of "start_system done_contract (Some done_ledger)" 7
        sample_text_env sample_env 5 done_claims]
    by (auto simp: start_system_def isl_def)
qed

section \<open>Evidence\<close>

text \<open>
  C22. The evidence ledger is bounded, append-only and bound to one run: after any history of
  its operations it holds at most 256 references with distinct digests, numbered 1, 2, 3 in
  their order, each digest binding its run, position, tool and outcome; and once it is bound to
  a run, no later operation binds it to another.
\<close>

theorem ledger_bounded_and_bound:
  assumes "l = foldl (ledger_step lx) (Some (NewEvidenceLedger lx prompt cfg)) evs"
  shows "(\<exists>m. l = Some m \<and> length (el_completionRefs m) \<le> 256
      \<and> distinct (map er_Digest (el_completionRefs m))
      \<and> (\<forall>n < length (el_completionRefs m). ref_ok lx (el_completionRunID m) n (el_completionRefs m ! n)))
    \<and> (\<forall>runID. bound_run l () = Some runID \<longrightarrow> bound_run (foldl (ledger_step lx) l later) () = Some runID)"
proof -
  have inv: "ledger_inv lx l"
    unfolding assms by (rule ledger_store.inv_run [OF NewEvidenceLedger_inv])
  have "foldl (ledger_step lx) (Some m) evs \<noteq> None" for m
    by (rule ledger_run_Some)
  with assms obtain m where "l = Some m" by fastforce
  with inv run_binding.cell_run [OF inv] show ?thesis
    by (auto simp: ledger_inv_def refs_inv_def maxCompletionEvidenceRefs_def)
qed

theorem ledger_bounded_and_bound_witness:
  "bound_run (foldl (ledger_step sample_env) (Some done_ledger)
     ([LBind ''run-1''] @ [LOutcome done_outcome, LBind ''run-2''])) () = Some ''run-1''"
proof -
  have "bound_run (foldl (ledger_step sample_env) (Some done_ledger) [LBind ''run-1'']) () = Some ''run-1''"
    by code_simp
  then show ?thesis
    using ledger_bounded_and_bound [OF refl, of sample_env "''fix it''" "\<lparr>ep_Policy = ''block'', ep_MaxStopBlocks = 1\<rparr>"
        "[LBind ''run-1'']" "[LOutcome done_outcome, LBind ''run-2'']"]
    unfolding done_ledger_def foldl_append by blast
qed

text \<open>
  C23. The evidence gate over a whole run of a new ledger, with any observations and attempts to
  stop in any order: in every state it has reached, the next attempt is held back if and only if
  the completion contract has not blocked the run already, the normalised policy is to block (by
  default it is only to measure), the prompt asks for a deep task, some changed file is not
  documentation, no verification passed, and fewer attempts were held back than the configured
  number. So a run is held back at most that often, and never again after a verification passed.
  The configured number is a machine integer.
\<close>

theorem gate_holds_exactly:
  assumes "ep_MaxStopBlocks cfg < 2 ^ 63"
    and "(l, held) = foldl (turn_step lx) (Some (NewEvidenceLedger lx prompt cfg), 0) evs"
    and "policy = NormalizeEvidencePolicyConfig lx cfg"
  shows "\<exists>m. l = Some m
    \<and> (snd (stop_attempt completionBlocked l) \<longleftrightarrow> \<not> completionBlocked
        \<and> ep_Policy policy = EvidencePolicyBlock \<and> fst (ClassifyEvidenceMode prompt) = EvidenceModeDeep
        \<and> list_ex (\<lambda>path. changeKind path \<noteq> ''docs'') (el_ChangedFiles m)
        \<and> \<not> list_ex (\<lambda>r. ec_Status r = ''passed'') (el_Records m)
        \<and> int held < ep_MaxStopBlocks policy)
    \<and> int held \<le> ep_MaxStopBlocks policy
    \<and> (list_ex (\<lambda>r. ec_Status r = ''passed'') (el_Records m) \<longrightarrow> snd (foldl (turn_step lx) (l, held) later) = held)"
proof -
  let ?inv = "turn_inv (ep_Policy policy) (fst (ClassifyEvidenceMode prompt)) (ep_MaxStopBlocks policy)"
  have "?inv (Some (NewEvidenceLedger lx prompt cfg), 0)"
    using assms(1,3) by (auto simp: turn_inv_def NewEvidenceLedger_def NormalizeEvidencePolicyConfig_def Let_def case_prod_unfold)
  then have "?inv (l, held)"
    unfolding assms(2) by (rule turn_machine.inv_run)
  then obtain m where m: "l = Some m" "el_Policy m = ep_Policy policy"
      "el_Mode m = fst (ClassifyEvidenceMode prompt)" "el_MaxStopBlocks m = ep_MaxStopBlocks policy"
      "el_StopBlocks m = int held" "int held \<le> ep_MaxStopBlocks policy" by (auto simp: turn_inv_def)
  have "snd (foldl (turn_step lx) (l, held) later) = held" if "list_ex (\<lambda>r. ec_Status r = ''passed'') (el_Records m)"
    using turn_after_pass [of "(l, held)" m lx later] m(1) that by simp
  with m show ?thesis
    by (auto simp: stop_attempt_def Let_def gate_blocks_iff)
qed

definition blocking_config :: evidence_policy where
  "blocking_config = \<lparr>ep_Policy = ''block'', ep_MaxStopBlocks = 1\<rparr>"

theorem gate_holds_exactly_witness:
  "(let s = foldl (turn_step sample_env) (Some (NewEvidenceLedger sample_env ''refactor'' blocking_config), 0)
        [LChanged ''a.go'', LStop] in
      snd s = 1 \<and> \<not> snd (stop_attempt False (fst s)))"
proof -
  let ?s = "foldl (turn_step sample_env) (Some (NewEvidenceLedger sample_env ''refactor'' blocking_config), 0)
      [LChanged ''a.go'', LStop]"
  have n: "snd ?s = 1" "ep_MaxStopBlocks blocking_config < 2 ^ 63"
    "ep_MaxStopBlocks (NormalizeEvidencePolicyConfig sample_env blocking_config) = 1" by code_simp+
  then have "\<not> snd (stop_attempt False (fst ?s))"
    using gate_holds_exactly [OF n(2) prod.collapse refl, of sample_env "''refactor''" "[LChanged ''a.go'', LStop]" False "[]"]
    by auto
  with n(1) show ?thesis unfolding Let_def by blast
qed

text \<open>
  C24. Verified means verified: whatever the receipt held, after the ledger has been applied a
  terminal state of verified implies that the gate allowed completion when it was evaluated, that
  at the later look at the records a pass was among them, or was in the receipt, and that no
  recorded verification had failed then. The two looks may see any two states of the ledger.
\<close>

theorem verified_is_earned:
  assumes "rv_TerminalState (ApplyToReceipt (Some l0) (Some l) v) = EvidenceTerminalVerified"
  shows "gr_Decision (Evaluate (Some l0)) = EvidenceGateAllow
    \<and> list_all (\<lambda>r. ec_Status r \<noteq> ''failed'') (el_Records l)
    \<and> (rv_Status v = ''passed'' \<or> list_ex (\<lambda>r. ec_Status r = ''passed'') (el_Records l))"
proof -
  let ?v = "ApplyToReceipt (Some l0) (Some l) v"
  have t: "rv_TerminalState ?v = evidenceTerminalState (gr_Decision (Evaluate (Some l0))) (rv_Status ?v) (el_Records l)"
    by (simp add: ApplyToReceipt_def ApplyToReceipt_records_def Let_def)
  have st: "rv_Status ?v = rv_Status v \<or> (\<exists>r \<in> set (el_Records l). rv_Status ?v = ec_Status r)"
    using best_record_in [of "el_Records l"] by (auto simp: ApplyToReceipt_def ApplyToReceipt_records_def Let_def no_record_def)
  have "gr_Decision (Evaluate (Some l0)) \<noteq> []"
    by (simp add: Evaluate_def gateLocked_def)
  with t assms st show ?thesis
    by (auto simp: evidenceTerminalState_def Let_def list_all_iff list_ex_iff split: if_splits)
qed

definition passed_ledger :: ledger where
  "passed_ledger = done_ledger\<lparr>el_Records := [no_record\<lparr>ec_Source := ''tool'', ec_Status := ''passed''\<rparr>]\<rparr>"

definition blank_receipt :: receipt_verification where
  "blank_receipt = \<lparr>rv_Status = [], rv_TerminalState = [], rv_Source = [], rv_Command = [], rv_CommandDigest = [],
     rv_Summary = [], rv_Gate = [], rv_Mode = [], rv_Evidence = []\<rparr>"

lemma passed_ledger_verified:
  "rv_TerminalState (ApplyToReceipt (Some passed_ledger) (Some passed_ledger) blank_receipt) = EvidenceTerminalVerified"
  by code_simp

theorem verified_is_earned_witness:
  "gr_Decision (Evaluate (Some passed_ledger)) = EvidenceGateAllow"
  using verified_is_earned [OF passed_ledger_verified] by blast

end
