(* ===== verification/Run_Events.thy ===== *)
theory Run_Events
  imports Evidence_Ledger
begin

text \<open>
  The values a run passes to its consumers: \<^verbatim>\<open>Event\<close> of \<^verbatim>\<open>internal/agent/loop.go\<close> with its
  untyped payload, the JSON view of a payload that \<^verbatim>\<open>decodeDurableRunEvent\<close> goes through
  (\<^verbatim>\<open>json.Marshal\<close> followed by \<^verbatim>\<open>json.Unmarshal\<close> into a struct), and the UTF-8 repair and
  truncation of texts. A failed encoding or a value of the wrong type is \<^const>\<open>None\<close>.
\<close>

section \<open>UTF-8\<close>

text \<open>The width of the rune a string starts with, 0 if it does not start with a valid one.\<close>

definition rune_width :: "string \<Rightarrow> nat" where
  "rune_width s = (case find (\<lambda>n. n \<le> length s \<and> valid_utf8 (take n s)) [1, 2, 3, 4] of None \<Rightarrow> 0 | Some n \<Rightarrow> n)"

definition replacement_rune :: string where
  "replacement_rune = [CHR 0xEF, CHR 0xBF, CHR 0xBD]"

text \<open>\<^verbatim>\<open>strings.ToValidUTF8\<close>: a run of invalid bytes becomes one replacement rune.\<close>

fun repair_utf8 :: "nat \<Rightarrow> bool \<Rightarrow> string \<Rightarrow> string" where
  "repair_utf8 0 inBad s = []"
| "repair_utf8 (Suc n) inBad s =
     (if s = [] then []
      else if rune_width s = 0 then
        (if inBad then [] else replacement_rune) @ repair_utf8 n True (drop 1 s)
      else take (rune_width s) s @ repair_utf8 n False (drop (rune_width s) s))"

definition to_valid_utf8 :: "string \<Rightarrow> string" where
  "to_valid_utf8 s = repair_utf8 (length s) False s"

text \<open>The JSON encoder replaces every invalid byte by itself.\<close>

fun json_repair :: "nat \<Rightarrow> string \<Rightarrow> string" where
  "json_repair 0 s = []"
| "json_repair (Suc n) s =
     (if s = [] then []
      else if rune_width s = 0 then replacement_rune @ json_repair n (drop 1 s)
      else take (rune_width s) s @ json_repair n (drop (rune_width s) s))"

definition json_string :: "string \<Rightarrow> string" where
  "json_string s = json_repair (length s) s"

definition contextUTF8Prefix :: "string \<Rightarrow> nat \<Rightarrow> string" where
  "contextUTF8Prefix value maxBytes =
     (if maxBytes \<le> 0 then [] else if length value \<le> maxBytes then value else shrink_to_valid value maxBytes)"

section \<open>Payloads\<close>

datatype json =
    JNull | JBool bool | JNum int | JFraction string | JStr string | JArr "json list" | JObj "(string \<times> json) list"

datatype event_data =
    NoData
  | TextData string
  | MapData "(string \<times> json) list"
  | ContextBlockedData "(string \<times> string \<times> json) option"
  | OtherData string "json option"

record event =
  ev_Type :: string
  ev_Data :: event_data

text \<open>
  \<^verbatim>\<open>ContextBlockedData\<close> holds code, message and plan of a \<^verbatim>\<open>ContextBlockedEvent\<close>, or stands for a
  nil pointer to one; \<^verbatim>\<open>OtherData\<close> holds the \<^verbatim>\<open>fmt.Sprint\<close> text and the JSON value of
  a value of any other type, if it has one. The encoder sorts the keys of a map.
\<close>

fun json_encode :: "json \<Rightarrow> json" where
  "json_encode (JStr s) = JStr (json_string s)"
| "json_encode (JArr js) = JArr (map json_encode js)"
| "json_encode (JObj es) = JObj (map (\<lambda>(k, j). (json_string k, json_encode j)) (sort_key fst es))"
| "json_encode j = j"

definition marshal :: "event_data \<Rightarrow> json option" where
  "marshal d = (case d of
       NoData \<Rightarrow> Some JNull
     | TextData s \<Rightarrow> Some (JStr (json_string s))
     | MapData m \<Rightarrow> Some (json_encode (JObj m))
     | ContextBlockedData None \<Rightarrow> Some JNull
     | ContextBlockedData (Some (code, message, plan)) \<Rightarrow>
         Some (JObj [(''code'', JStr (json_string code)), (''message'', JStr (json_string message)), (''plan'', json_encode plan)])
     | OtherData _ j \<Rightarrow> map_option json_encode j)"

section \<open>Decoding into a struct\<close>

text \<open>
  A key of an object names a field if they agree up to letter case; the decoder folds two
  non-ASCII runes to ASCII letters, the long s and the Kelvin sign.
\<close>

fun fold_key :: "string \<Rightarrow> string" where
  "fold_key [] = []"
| "fold_key (c # s) =
     (if has_prefix (c # s) [CHR 0xC5, CHR 0xBF] then CHR ''s'' # fold_key (drop 1 s)
      else if has_prefix (c # s) [CHR 0xE2, CHR 0x84, CHR 0xAA] then CHR ''k'' # fold_key (drop 2 s)
      else lower_char c # fold_key s)"

declare fold_key.simps [simp del]

text \<open>All members that name the field are stored in it, one after the other.\<close>

fun decode_field :: "(json \<Rightarrow> 'v \<Rightarrow> 'v option) \<Rightarrow> string \<Rightarrow> (string \<times> json) list \<Rightarrow> 'v \<Rightarrow> 'v option" where
  "decode_field store name [] v = Some v"
| "decode_field store name ((k, j) # es) v =
     (if fold_key k = fold_key name
      then (case store j v of None \<Rightarrow> None | Some v' \<Rightarrow> decode_field store name es v')
      else decode_field store name es v)"

definition store_value :: "(json \<Rightarrow> 'v option) \<Rightarrow> json \<Rightarrow> 'v \<Rightarrow> 'v option" where
  "store_value conv j v = (if j = JNull then Some v else conv j)"

definition store_pointer :: "(json \<Rightarrow> 'v option) \<Rightarrow> json \<Rightarrow> 'v option \<Rightarrow> 'v option option" where
  "store_pointer conv j v = (if j = JNull then Some None else map_option Some (conv j))"

definition json_to_string :: "json \<Rightarrow> string option" where
  "json_to_string j = (case j of JStr s \<Rightarrow> Some s | _ \<Rightarrow> None)"

definition json_to_bool :: "json \<Rightarrow> bool option" where
  "json_to_bool j = (case j of JBool b \<Rightarrow> Some b | _ \<Rightarrow> None)"

definition json_to_int :: "json \<Rightarrow> int option" where
  "json_to_int j = (case j of JNum n \<Rightarrow> if - max_int - 1 \<le> n \<and> n \<le> max_int then Some n else None | _ \<Rightarrow> None)"

definition json_to_uint64 :: "json \<Rightarrow> uint64 option" where
  "json_to_uint64 j = (case j of JNum n \<Rightarrow> if 0 \<le> n \<and> n < 2 ^ 64 then Some (word_of_int n) else None | _ \<Rightarrow> None)"

text \<open>The members of the object to decode: none for \<^verbatim>\<open>null\<close>, an error for any other value.\<close>

definition json_members :: "json \<Rightarrow> (string \<times> json) list option" where
  "json_members j = (case j of JNull \<Rightarrow> Some [] | JObj es \<Rightarrow> Some es | _ \<Rightarrow> None)"

definition decodeDurableRunEvent :: "event_data \<Rightarrow> (string \<times> json) list option" where
  "decodeDurableRunEvent value = Option.bind (marshal value) json_members"

section \<open>Lemmas\<close>

lemma rune_width_le: "rune_width s \<le> length s"
  by (auto simp: rune_width_def split: option.splits dest: find_Some_set)

lemma length_contextUTF8Prefix [go_string]: "length (contextUTF8Prefix v n) \<le> n"
  by (simp add: contextUTF8Prefix_def length_shrink_to_valid)

lemma contextUTF8Prefix_prefix: "\<exists>t. v = contextUTF8Prefix v n @ t"
proof (cases "n \<le> length v")
  case True
  from shrink_to_valid_prefix [OF this] obtain k where "shrink_to_valid v n = take k v" by blast
  then have "v = shrink_to_valid v n @ drop k v" by simp
  then show ?thesis unfolding contextUTF8Prefix_def by (cases "n = 0") auto
qed (simp add: contextUTF8Prefix_def)

lemma valid_contextUTF8Prefix [go_string]: "valid_utf8 v \<Longrightarrow> valid_utf8 (contextUTF8Prefix v n)"
  using valid_shrink_to_valid [of v n] by (auto simp: contextUTF8Prefix_def valid_utf8_def)

text \<open>Two members of an object that name the same field.\<close>

lemma decode_field_skip: "\<forall>(k, j) \<in> set es. fold_key k \<noteq> fold_key name \<Longrightarrow> decode_field store name es v = Some v"
  by (induction es) auto

lemma decode_field_append:
  "decode_field store name (xs @ ys) v = Option.bind (decode_field store name xs v) (decode_field store name ys)"
  by (induction store name xs v rule: decode_field.induct) (auto split: option.splits)

text \<open>If all members that name a field agree, the field holds their common value.\<close>

lemma decode_field_agree:
  assumes "\<exists>k. (k, j) \<in> set es \<and> fold_key k = fold_key name"
    and "\<And>k j'. (k, j') \<in> set es \<Longrightarrow> fold_key k = fold_key name \<Longrightarrow> j' = j"
    and "\<And>v. store j v = Some w"
  shows "decode_field store name es v = Some w"
proof -
  have stay: "decode_field store name es v = (if \<exists>k. (k, j) \<in> set es \<and> fold_key k = fold_key name then Some w else Some v)"
    if "\<And>k j'. (k, j') \<in> set es \<Longrightarrow> fold_key k = fold_key name \<Longrightarrow> j' = j" for es v
    using that
  proof (induction es arbitrary: v)
    case (Cons e es)
    obtain k j' where e: "e = (k, j')" by (cases e)
    note IH = Cons.IH [OF Cons.prems [OF list.set_intros(2)]]
    show ?case
    proof (cases "fold_key k = fold_key name")
      case True
      with Cons.prems [of k j'] e have "j' = j" by simp
      with True e assms(3) IH show ?thesis by auto
    next
      case False
      with e IH show ?thesis by auto
    qed
  qed simp
  from stay [OF assms(2)] assms(1) show ?thesis by simp
qed

end
