(* ===== verification/Run_Terminal.thy ===== *)
theory Run_Terminal
  imports Run_Events Interfaces
begin

text \<open>
  The single exit of a run, \<^verbatim>\<open>internal/agent/run_terminal.go\<close>. The finalizer is a record; the
  calls it makes on the recorder, the hooks and the event channel are appended to a trace in
  the order they happen, so that the order and the number of effects can be stated. The text
  sanitizers and the result of the receipt write are arguments.
\<close>

section \<open>State\<close>

abbreviation RunTerminalCompleted :: string where "RunTerminalCompleted \<equiv> ''completed''"
abbreviation RunTerminalCancelled :: string where "RunTerminalCancelled \<equiv> ''cancelled''"
abbreviation RunTerminalFailed :: string where "RunTerminalFailed \<equiv> ''failed''"
abbreviation RunTerminalNoTerminal :: string where "RunTerminalNoTerminal \<equiv> ''no_terminal''"
abbreviation RunTerminalDurableCommit :: string where "RunTerminalDurableCommit \<equiv> ''commit''"
abbreviation RunTerminalDurableReconcile :: string where "RunTerminalDurableReconcile \<equiv> ''reconcile''"

text \<open>A run summary: the hook results, which the finalizer sets, and all other fields as \<^verbatim>\<open>'r\<close>.\<close>

record ('h, 'r) run_summary =
  sm_Hooks :: "'h list"
  sm_Rest :: 'r

record ('h, 'r) terminal_outcome =
  to_kind :: string
  to_stopReason :: string
  to_durablePolicy :: string
  to_message :: string
  to_data :: "(string \<times> json) list"
  to_summary :: "('h, 'r) run_summary option"
  to_success :: bool

datatype ('h, 'r) terminal_effect =
    RunStartedCall
  | HookStartCall
  | HookEndCall
  | ReceiptWriteAttempt
  | ReceiptWrittenCall string
  | RunCompletedCall "('h, 'r) run_summary option"
  | RunFailedCall string
  | EventSent event
  | ChannelClosed

text \<open>
  \<^verbatim>\<open>rf_recorder\<close> says whether there is a recorder and whether it also records failures; the
  closures of the hook session are their presence and the results the snapshot returns.
\<close>

datatype recorder = NoRecorder | PlainRecorder | FailureRecorder

record ('h, 'r) finalizer =
  rf_recorder :: recorder
  rf_finalized :: bool
  rf_recorderStarted :: bool
  rf_hookStarted :: bool
  rf_hookEnd :: bool
  rf_hookSnapshot :: "'h list option"
  rf_receiptAttempted :: bool
  rf_outcome :: "('h, 'r) terminal_outcome option"
  rf_trace :: "('h, 'r) terminal_effect list"

definition emit :: "('h, 'r) terminal_effect list \<Rightarrow> ('h, 'r) finalizer \<Rightarrow> ('h, 'r) finalizer" where
  "emit es f = f\<lparr>rf_trace := rf_trace f @ es\<rparr>"

section \<open>Texts\<close>

text \<open>\<^verbatim>\<open>redactSensitiveString\<close> and \<^verbatim>\<open>sanitizeReceiptString\<close>, which replace secrets by patterns.\<close>

record text_filters =
  tf_redact :: "string \<Rightarrow> string"
  tf_receipt :: "string \<Rightarrow> string"

definition sanitizeSnapshotText :: "text_filters \<Rightarrow> string \<Rightarrow> nat \<Rightarrow> string" where
  "sanitizeSnapshotText tf value maxBytes =
     (let v = trim_space value in
      tf_receipt tf (if maxBytes > 0 \<and> length v > maxBytes then contextUTF8Prefix v maxBytes else v))"

definition boundedRunTerminalReason :: "text_filters \<Rightarrow> string \<Rightarrow> string" where
  "boundedRunTerminalReason tf value =
     (let v = trim_space value in
      if v = [] then ''unknown'' else sanitizeSnapshotText tf (tf_redact tf v) 128)"

text \<open>A Go map as an association list without duplicate keys; assignment replaces or adds.\<close>

definition put :: "string \<Rightarrow> json \<Rightarrow> (string \<times> json) list \<Rightarrow> (string \<times> json) list" where
  "put k v m = (k, v) # filter (\<lambda>e. fst e \<noteq> k) m"

definition cloneRunTerminalData :: "(string \<times> json) list \<Rightarrow> (string \<times> json) list" where
  "cloneRunTerminalData data = data"

section \<open>Operations\<close>

definition newRunTerminalFinalizer :: "recorder \<Rightarrow> ('h, 'r) finalizer" where
  "newRunTerminalFinalizer rec =
     (let f = \<lparr>rf_recorder = rec, rf_finalized = False, rf_recorderStarted = False, rf_hookStarted = False,
                rf_hookEnd = False, rf_hookSnapshot = None, rf_receiptAttempted = False, rf_outcome = None,
                rf_trace = []\<rparr> in
      if rec = NoRecorder then f else (emit [RunStartedCall] f)\<lparr>rf_recorderStarted := True\<rparr>)"

definition BeginHookSession :: "bool \<Rightarrow> bool \<Rightarrow> 'h list option \<Rightarrow> ('h, 'r) finalizer \<Rightarrow> ('h, 'r) finalizer" where
  "BeginHookSession start end_fn snapshot f =
     (if rf_finalized f \<or> rf_hookStarted f then f
      else emit (if start then [HookStartCall] else [])
             (f\<lparr>rf_hookStarted := True, rf_hookEnd := end_fn, rf_hookSnapshot := snapshot\<rparr>))"

text \<open>The write returns a path or fails (\<^const>\<open>None\<close>).\<close>

datatype receipt_result = ReceiptPath string | ReceiptWriteFailed | ErrRunReceiptAlreadyAttempted

definition WriteReceipt :: "string option \<Rightarrow> ('h, 'r) finalizer \<Rightarrow> ('h, 'r) finalizer \<times> receipt_result" where
  "WriteReceipt written f =
     (if rf_finalized f \<or> rf_receiptAttempted f then (f, ErrRunReceiptAlreadyAttempted)
      else
        let f1 = emit [ReceiptWriteAttempt] (f\<lparr>rf_receiptAttempted := True\<rparr>) in
        (case written of
           None \<Rightarrow> (f1, ReceiptWriteFailed)
         | Some path \<Rightarrow> (emit (if rf_recorder f \<noteq> NoRecorder then [ReceiptWrittenCall path] else []) f1, ReceiptPath path)))"

definition Complete :: "text_filters \<Rightarrow> string \<Rightarrow> string \<Rightarrow> string \<Rightarrow> (string \<times> json) list \<Rightarrow> ('h, 'r) run_summary
    \<Rightarrow> ('h, 'r) finalizer \<Rightarrow> ('h, 'r) finalizer" where
  "Complete tf kind stopReason durablePolicy data summary f =
     (if rf_finalized f \<or> rf_outcome f \<noteq> None then f
      else f\<lparr>rf_outcome := Some
        \<lparr>to_kind = (if kind = [] then RunTerminalCompleted else kind),
         to_stopReason = boundedRunTerminalReason tf stopReason,
         to_durablePolicy = (if durablePolicy = [] then RunTerminalDurableCommit else durablePolicy),
         to_message = [], to_data = cloneRunTerminalData data, to_summary = Some summary, to_success = True\<rparr>\<rparr>)"

definition Fail :: "text_filters \<Rightarrow> string \<Rightarrow> string \<Rightarrow> string \<Rightarrow> (string \<times> json) list
    \<Rightarrow> ('h, 'r) finalizer \<Rightarrow> ('h, 'r) finalizer" where
  "Fail tf kind stopReason message data f =
     (if rf_finalized f \<or> rf_outcome f \<noteq> None then f
      else f\<lparr>rf_outcome := Some
        \<lparr>to_kind = (if kind = [] then RunTerminalFailed else kind),
         to_stopReason = boundedRunTerminalReason tf stopReason,
         to_durablePolicy = RunTerminalDurableReconcile,
         to_message = sanitizeSnapshotText tf (tf_redact tf message) 1000,
         to_data = cloneRunTerminalData data, to_summary = None, to_success = False\<rparr>\<rparr>)"

definition no_terminal_outcome :: "('h, 'r) terminal_outcome" where
  "no_terminal_outcome =
     \<lparr>to_kind = RunTerminalNoTerminal, to_stopReason = ''no_terminal'', to_durablePolicy = RunTerminalDurableReconcile,
      to_message = ''run exited without a terminal outcome'', to_data = [], to_summary = None, to_success = False\<rparr>"

definition done_payload :: "('h, 'r) terminal_outcome \<Rightarrow> (string \<times> json) list" where
  "done_payload oc =
     (let p = put ''durablePolicy'' (JStr (to_durablePolicy oc))
                (put ''stopReason'' (JStr (to_stopReason oc))
                  (put ''kind'' (JStr (to_kind oc)) (cloneRunTerminalData (to_data oc)))) in
      if to_success oc then p else put ''terminalState'' (JStr EvidenceTerminalBlocked) p)"

definition failRun :: "recorder \<Rightarrow> string \<Rightarrow> ('h, 'r) terminal_effect list" where
  "failRun rec message = (if rec = FailureRecorder then [RunFailedCall message] else [])"

definition Finalize :: "('h, 'r) finalizer \<Rightarrow> ('h, 'r) finalizer" where
  "Finalize f =
     (if rf_finalized f then f
      else
        let oc0 = (case rf_outcome f of None \<Rightarrow> no_terminal_outcome | Some oc \<Rightarrow> oc);
            oc = (if to_success oc0
                  then (case rf_hookSnapshot f of
                          None \<Rightarrow> oc0
                        | Some hs \<Rightarrow> oc0\<lparr>to_summary := map_option (\<lambda>s. s\<lparr>sm_Hooks := hs\<rparr>) (to_summary oc0)\<rparr>)
                  else oc0)
        in emit ((if rf_hookStarted f \<and> rf_hookEnd f then [HookEndCall] else [])
             @ (if rf_recorderStarted f
                then (if to_success oc then [RunCompletedCall (to_summary oc)] else failRun (rf_recorder f) (to_message oc))
                else [])
             @ [EventSent \<lparr>ev_Type = ''done'', ev_Data = MapData (done_payload oc)\<rparr>, ChannelClosed])
           (f\<lparr>rf_finalized := True, rf_outcome := Some oc\<rparr>))"

section \<open>The finalizer as a machine\<close>

datatype ('h, 'r) finalizer_op =
    OpBegin bool bool "'h list option"
  | OpReceipt "string option"
  | OpComplete string string string "(string \<times> json) list" "('h, 'r) run_summary"
  | OpFail string string string "(string \<times> json) list"
  | OpFinalize

fun fin_step :: "text_filters \<Rightarrow> ('h, 'r) finalizer \<Rightarrow> ('h, 'r) finalizer_op \<Rightarrow> ('h, 'r) finalizer" where
  "fin_step tf f (OpBegin start end_fn snapshot) = BeginHookSession start end_fn snapshot f"
| "fin_step tf f (OpReceipt written) = fst (WriteReceipt written f)"
| "fin_step tf f (OpComplete kind reason policy data summary) = Complete tf kind reason policy data summary f"
| "fin_step tf f (OpFail kind reason message data) = Fail tf kind reason message data f"
| "fin_step tf f OpFinalize = Finalize f"

abbreviation fin_run :: "text_filters \<Rightarrow> recorder \<Rightarrow> ('h, 'r) finalizer_op list \<Rightarrow> ('h, 'r) finalizer" where
  "fin_run tf rec ops \<equiv> foldl (fin_step tf) (newRunTerminalFinalizer rec) ops"

text \<open>What the first call of \<^verbatim>\<open>Complete\<close> or \<^verbatim>\<open>Fail\<close> before the first \<^verbatim>\<open>Finalize\<close> asks for.\<close>

fun first_outcome :: "text_filters \<Rightarrow> ('h, 'r) finalizer_op list \<Rightarrow> ('h, 'r) terminal_outcome option" where
  "first_outcome tf [] = None"
| "first_outcome tf (op # ops) = (case op of
      OpComplete kind reason policy data summary \<Rightarrow> Some
        \<lparr>to_kind = (if kind = [] then RunTerminalCompleted else kind),
         to_stopReason = boundedRunTerminalReason tf reason,
         to_durablePolicy = (if policy = [] then RunTerminalDurableCommit else policy),
         to_message = [], to_data = data, to_summary = Some summary, to_success = True\<rparr>
    | OpFail kind reason message data \<Rightarrow> Some
        \<lparr>to_kind = (if kind = [] then RunTerminalFailed else kind),
         to_stopReason = boundedRunTerminalReason tf reason,
         to_durablePolicy = RunTerminalDurableReconcile,
         to_message = sanitizeSnapshotText tf (tf_redact tf message) 1000,
         to_data = data, to_summary = None, to_success = False\<rparr>
    | OpFinalize \<Rightarrow> Some no_terminal_outcome
    | _ \<Rightarrow> first_outcome tf ops)"

text \<open>The loop passes both hook closures or none.\<close>

fun paired_hooks :: "('h, 'r) finalizer_op \<Rightarrow> bool" where
  "paired_hooks (OpBegin start end_fn snapshot) = (start = end_fn)"
| "paired_hooks op = True"

fun is_setup :: "('h, 'r) terminal_effect \<Rightarrow> bool" where
  "is_setup RunStartedCall = True"
| "is_setup HookStartCall = True"
| "is_setup ReceiptWriteAttempt = True"
| "is_setup (ReceiptWrittenCall p) = True"
| "is_setup e = False"

fun is_verdict :: "('h, 'r) terminal_effect \<Rightarrow> bool" where
  "is_verdict (RunCompletedCall s) = True"
| "is_verdict (RunFailedCall m) = True"
| "is_verdict e = False"

definition ending :: "bool \<Rightarrow> ('h, 'r) terminal_effect list \<Rightarrow> (string \<times> json) list \<Rightarrow> ('h, 'r) terminal_effect list" where
  "ending hook verdict payload = (if hook then [HookEndCall] else []) @ verdict
     @ [EventSent \<lparr>ev_Type = ''done'', ev_Data = MapData payload\<rparr>, ChannelClosed]"

definition setup_ok :: "bool \<Rightarrow> bool \<Rightarrow> ('h, 'r) terminal_effect list \<Rightarrow> bool" where
  "setup_ok hook receipt es \<longleftrightarrow> list_all is_setup es \<and> count_list es HookStartCall = (if hook then 1 else 0)
     \<and> count_list es ReceiptWriteAttempt = (if receipt then 1 else 0)"

definition trace_ok :: "('h, 'r) finalizer \<Rightarrow> bool" where
  "trace_ok f \<longleftrightarrow> (\<exists>pre. setup_ok (rf_hookStarted f \<and> rf_hookEnd f) (rf_receiptAttempted f) pre
     \<and> rf_trace f = pre @ (if rf_finalized f
         then ending (rf_hookStarted f \<and> rf_hookEnd f)
           (if rf_recorderStarted f
            then (case rf_outcome f of Some oc \<Rightarrow> if to_success oc then [RunCompletedCall (to_summary oc)]
                    else failRun (rf_recorder f) (to_message oc) | None \<Rightarrow> []) else [])
           (case rf_outcome f of Some oc \<Rightarrow> done_payload oc | None \<Rightarrow> []) else []))"

lemmas finalizer_defs = BeginHookSession_def WriteReceipt_def Complete_def Fail_def Finalize_def emit_def

lemma setup_ok_hook: "setup_ok h r es \<Longrightarrow> HookStartCall \<in> set es \<longleftrightarrow> h"
  using count_list_0_iff [of es HookStartCall] by (cases h) (auto simp: setup_ok_def)

lemma finalized_absorbs: "rf_finalized f \<Longrightarrow> fin_step tf f op = f"
  by (cases op) (auto simp: finalizer_defs)

lemma finalized_absorbs_all: "rf_finalized f \<Longrightarrow> foldl (fin_step tf) f ops = f"
  by (induction ops) (simp_all add: finalized_absorbs)

lemma new_open [simp]: "\<not> rf_finalized (newRunTerminalFinalizer rec)" "rf_outcome (newRunTerminalFinalizer rec) = None"
  by (simp_all add: newRunTerminalFinalizer_def emit_def Let_def)

lemma trace_ok_new: "trace_ok (newRunTerminalFinalizer rec)"
  by (auto simp: trace_ok_def newRunTerminalFinalizer_def emit_def setup_ok_def Let_def intro: exI [of _ "[]"])

lemma trace_ok_open: "\<not> rf_finalized f \<Longrightarrow> trace_ok f \<longleftrightarrow> setup_ok (rf_hookStarted f \<and> rf_hookEnd f) (rf_receiptAttempted f) (rf_trace f)"
  by (simp add: trace_ok_def)

lemma trace_ok_step:
  assumes "trace_ok f" and "paired_hooks op"
  shows "trace_ok (fin_step tf f op)"
proof (cases "rf_finalized f")
  case False
  note base = assms(1) [unfolded trace_ok_open [OF False]]
  show ?thesis
  proof (cases op)
    case (OpBegin start end_fn snapshot)
    with False base assms(2) show ?thesis by (auto simp: trace_ok_def setup_ok_def finalizer_defs)
  next
    case (OpReceipt written)
    with False base show ?thesis by (auto simp: trace_ok_def setup_ok_def finalizer_defs Let_def split: option.splits)
  next
    case OpFinalize
    with False base show ?thesis
      by (auto simp: trace_ok_def finalizer_defs ending_def Let_def split: option.splits)
  qed (use False base in \<open>auto simp: trace_ok_def finalizer_defs\<close>)
qed (simp add: finalized_absorbs assms(1))

lemma trace_ok_run: "trace_ok f \<Longrightarrow> list_all paired_hooks ops \<Longrightarrow> trace_ok (foldl (fin_step tf) f ops)"
  by (induction ops arbitrary: f) (auto intro: trace_ok_step)

lemma finalized_run: "rf_finalized (foldl (fin_step tf) f ops) \<longleftrightarrow> rf_finalized f \<or> OpFinalize \<in> set ops"
proof (induction ops arbitrary: f)
  case (Cons op ops)
  have "rf_finalized (fin_step tf f op) \<longleftrightarrow> rf_finalized f \<or> op = OpFinalize"
    by (cases op) (auto simp: finalizer_defs Let_def split: option.splits)
  with Cons show ?case by auto
qed simp

text \<open>The outcome, without the summary that the hook results are added to, is written once.\<close>

definition outcome_cell :: "('h, 'r) finalizer \<Rightarrow> unit \<Rightarrow> ('h, 'r) terminal_outcome option" where
  "outcome_cell f u = map_option (\<lambda>oc. oc\<lparr>to_summary := None\<rparr>) (rf_outcome f)"

interpretation run_outcome: write_once "fin_step tf" "\<lambda>_. True" outcome_cell for tf
proof unfold_locales
  fix f :: "('h, 'r) finalizer" and k v and op :: "('h, 'r) finalizer_op"
  assume "outcome_cell f k = Some v"
  then show "outcome_cell (fin_step tf f op) k = Some v"
    by (cases op) (auto simp: outcome_cell_def finalizer_defs Let_def split: option.splits)
qed simp

lemma first_outcome_cell:
  "\<not> rf_finalized f \<Longrightarrow> rf_outcome f = None \<Longrightarrow>
     outcome_cell (foldl (fin_step tf) f ops) () = map_option (\<lambda>oc. oc\<lparr>to_summary := None\<rparr>) (first_outcome tf ops)"
proof (induction ops arbitrary: f)
  case (Cons op ops)
  have *: ?case if "outcome_cell (fin_step tf f op) () = map_option (\<lambda>oc. oc\<lparr>to_summary := None\<rparr>) (first_outcome tf (op # ops))"
      and "first_outcome tf (op # ops) = Some oc" for oc
    using run_outcome.cell_run [of "fin_step tf f op" "()" "oc\<lparr>to_summary := None\<rparr>" tf ops] that by simp
  show ?case
  proof (cases op)
    case (OpBegin start end_fn snapshot)
    with Cons show ?thesis by (simp add: finalizer_defs)
  next
    case (OpReceipt written)
    with Cons show ?thesis by (simp add: finalizer_defs Let_def split: option.splits)
  qed (use * Cons.prems in \<open>auto simp: outcome_cell_def finalizer_defs cloneRunTerminalData_def no_terminal_outcome_def Let_def
    split: option.splits\<close>)
qed (simp add: outcome_cell_def)

lemma done_payload_summary [simp]: "done_payload (oc\<lparr>to_summary := sm\<rparr>) = done_payload oc"
  by (simp add: done_payload_def)

lemma run_payload:
  assumes "OpFinalize \<in> set ops"
  shows "\<exists>oc oc'. first_outcome tf ops = Some oc \<and> rf_outcome (fin_run tf rec ops) = Some oc'
    \<and> oc'\<lparr>to_summary := None\<rparr> = oc\<lparr>to_summary := None\<rparr>"
proof -
  have "first_outcome tf ops \<noteq> None" using assms
    by (induction ops) (auto split: finalizer_op.splits)
  with first_outcome_cell [of "newRunTerminalFinalizer rec" tf ops] show ?thesis
    by (auto simp: outcome_cell_def)
qed

section \<open>Properties\<close>

text \<open>
  C31. A run ends exactly once and in order, whatever the sequence of calls on the finalizer:
  if \<^verbatim>\<open>Finalize\<close> is among them, the trace is the setup calls, then the end of the hook session
  (exactly if one began), then at most one verdict to the recorder, then the done frame, then
  the close of the channel, and nothing after it; otherwise nothing but setup calls happened.
  The done frame carries the first outcome that was asked for, later ones being ignored, and
  the receipt write is attempted at most once.
\<close>

theorem run_ends_exactly_once:
  assumes "list_all paired_hooks ops"
  shows "\<exists>pre verdict. list_all is_setup pre \<and> list_all is_verdict verdict \<and> length verdict \<le> 1
     \<and> count_list pre HookStartCall \<le> 1 \<and> count_list pre ReceiptWriteAttempt \<le> 1
     \<and> rf_trace (fin_run tf rec ops) = pre @ (if OpFinalize \<in> set ops
         then (if HookStartCall \<in> set pre then [HookEndCall] else []) @ verdict
           @ [EventSent \<lparr>ev_Type = ''done'', ev_Data = MapData (done_payload (the (first_outcome tf ops)))\<rparr>, ChannelClosed]
         else [])"
proof -
  let ?f = "fin_run tf rec ops"
  have fin: "rf_finalized ?f \<longleftrightarrow> OpFinalize \<in> set ops" by (simp add: finalized_run)
  define verdict where "verdict = (if rf_recorderStarted ?f
            then (case rf_outcome ?f of Some oc \<Rightarrow> if to_success oc then [RunCompletedCall (to_summary oc)]
                    else failRun (rf_recorder ?f) (to_message oc) | None \<Rightarrow> []) else [])"
  obtain pre where pre: "setup_ok (rf_hookStarted ?f \<and> rf_hookEnd ?f) (rf_receiptAttempted ?f) pre"
    and tr: "rf_trace ?f = pre @ (if rf_finalized ?f
         then ending (rf_hookStarted ?f \<and> rf_hookEnd ?f) verdict
           (case rf_outcome ?f of Some oc \<Rightarrow> done_payload oc | None \<Rightarrow> []) else [])"
    using trace_ok_run [OF trace_ok_new assms, of tf rec] unfolding trace_ok_def verdict_def by blast
  have payload: "(case rf_outcome ?f of Some oc \<Rightarrow> done_payload oc | None \<Rightarrow> []) = done_payload (the (first_outcome tf ops))"
    if fo: "OpFinalize \<in> set ops"
  proof -
    from run_payload [OF fo, of tf rec] obtain oc oc' where o: "first_outcome tf ops = Some oc" "rf_outcome ?f = Some oc'"
      and eq: "oc'\<lparr>to_summary := None\<rparr> = oc\<lparr>to_summary := None\<rparr>" by blast
    from arg_cong [OF eq, of done_payload] o show ?thesis by simp
  qed
  have verdict: "list_all is_verdict verdict \<and> length verdict \<le> 1"
    by (auto simp: verdict_def failRun_def split: option.splits)
  have pre': "list_all is_setup pre" "count_list pre HookStartCall \<le> 1" "count_list pre ReceiptWriteAttempt \<le> 1"
    using pre by (auto simp: setup_ok_def)
  have "rf_trace ?f = pre @ (if OpFinalize \<in> set ops
         then (if HookStartCall \<in> set pre then [HookEndCall] else []) @ verdict
           @ [EventSent \<lparr>ev_Type = ''done'', ev_Data = MapData (done_payload (the (first_outcome tf ops)))\<rparr>, ChannelClosed]
         else [])"
    using tr payload setup_ok_hook [OF pre] unfolding fin ending_def by (cases "OpFinalize \<in> set ops") simp_all
  with verdict pre' show ?thesis by blast
qed

definition sample_filters :: text_filters where
  "sample_filters = \<lparr>tf_redact = id, tf_receipt = id\<rparr>"

definition sample_ops :: "(nat, unit) finalizer_op list" where
  "sample_ops = [OpBegin True True (Some [0]), OpFail ''failed'' ''x'' ''m'' [], OpFinalize, OpFinalize]"

theorem run_ends_exactly_once_witness:
  "\<exists>pre verdict. rf_trace (fin_run sample_filters FailureRecorder sample_ops)
     = pre @ (if HookStartCall \<in> set pre then [HookEndCall] else []) @ verdict
         @ [EventSent \<lparr>ev_Type = ''done'', ev_Data = MapData (done_payload (the (first_outcome sample_filters sample_ops)))\<rparr>,
            ChannelClosed]"
proof -
  have ops: "list_all paired_hooks sample_ops" "OpFinalize \<in> set sample_ops" by (simp_all add: sample_ops_def)
  from run_ends_exactly_once [OF ops(1), of sample_filters FailureRecorder, unfolded if_P [OF ops(2)]]
  show ?thesis by blast
qed

end
