(* ===== verification/Durable_Run.thy ===== *)
theory Durable_Run
  imports Run_Terminal
begin

text \<open>
  The durable observer of \<^verbatim>\<open>internal/agent/durable_run.go\<close>: it turns the events of a run into a
  bounded transcript and, if the run is interrupted, into a marker that asks for
  reconciliation. Every method is one section under the observer's lock. The clock, the text
  filters and the SHA-256 of the aggregate tool states are arguments.
\<close>

section \<open>State\<close>

abbreviation SessionSideEffectStarted :: string where "SessionSideEffectStarted \<equiv> ''started''"
abbreviation SessionSideEffectMayHaveApplied :: string where "SessionSideEffectMayHaveApplied \<equiv> ''may_have_applied''"
abbreviation SessionSideEffectApplied :: string where "SessionSideEffectApplied \<equiv> ''applied''"
abbreviation StatusIncomplete :: string where "StatusIncomplete \<equiv> ''incomplete''"
abbreviation StatusComplete :: string where "StatusComplete \<equiv> ''complete''"
abbreviation StatusBlocked :: string where "StatusBlocked \<equiv> ''blocked''"

abbreviation durableRunAssistantLimitBytes :: nat where "durableRunAssistantLimitBytes \<equiv> 1048576"
abbreviation durableRunToolResultLimitBytes :: nat where "durableRunToolResultLimitBytes \<equiv> 65536"

record terminal_metadata =
  tm_TerminalState :: string
  tm_CompletionStatus :: string
  tm_CompletionRevision :: uint64
  tm_CompletionCriteria :: int
  tm_CompletionSatisfied :: int
  tm_CompletionBlocked :: int

definition no_metadata :: terminal_metadata where
  "no_metadata = \<lparr>tm_TerminalState = [], tm_CompletionStatus = [], tm_CompletionRevision = 0,
     tm_CompletionCriteria = 0, tm_CompletionSatisfied = 0, tm_CompletionBlocked = 0\<rparr>"

record durable_tool =
  dt_RunID :: string
  dt_ToolName :: string
  dt_ToolCallID :: string
  dt_InputDigest :: string
  dt_SideEffect :: string
  dt_ResultSeen :: bool

record session_message =
  sg_Role :: string
  sg_Content :: string
  sg_ToolName :: string
  sg_ToolInput :: "(string \<times> string) list option"
  sg_ToolResult :: string
  sg_IsError :: bool
  sg_Timestamp :: gotime

record session_interruption =
  si_At :: gotime
  si_Reason :: string
  si_RunID :: string
  si_ToolName :: string
  si_ToolCallID :: string
  si_InputDigest :: string
  si_SideEffectState :: string
  si_Summary :: string

record durable_observer =
  do_runID :: string
  do_assistant :: string
  do_assistantClipped :: bool
  do_messages :: "session_message list"
  do_tools :: "durable_tool list"
  do_toolIndexes :: "string \<Rightarrow> nat list"
  do_ambiguousToolIDs :: bool
  do_completed :: bool
  do_terminal :: terminal_metadata
  do_terminalSet :: bool

section \<open>Texts\<close>

definition durableRunBoundedText :: "string \<Rightarrow> nat \<Rightarrow> string" where
  "durableRunBoundedText value limit =
     (let v = trim_space value;
          w = (if \<not> valid_utf8 v then to_valid_utf8 v else v) in
      if limit > 0 \<and> length w > limit then contextUTF8Prefix w limit else w)"

definition durableRunToolResult :: "text_filters \<Rightarrow> string \<Rightarrow> string" where
  "durableRunToolResult tf value = tf_receipt tf (durableRunBoundedText value durableRunToolResultLimitBytes)"

definition durableRunToolReference :: "durable_tool \<Rightarrow> (string \<times> string) list" where
  "durableRunToolReference t = [(''toolCallId'', dt_ToolCallID t), (''inputDigest'', dt_InputDigest t)]"

definition truncated_mark :: string where
  "truncated_mark = [CHR 0x0A, CHR 0x0A] @ ''[durable transcript truncated]''"

definition appendAssistantLocked :: "string \<Rightarrow> durable_observer \<Rightarrow> durable_observer" where
  "appendAssistantLocked value0 ob =
     (if value0 = [] \<or> do_assistantClipped ob then ob
      else
        let value = (if \<not> valid_utf8 value0 then to_valid_utf8 value0 else value0);
            used = length (do_assistant ob) in
        if used \<ge> durableRunAssistantLimitBytes then ob\<lparr>do_assistantClipped := True\<rparr>
        else if length value > durableRunAssistantLimitBytes - used then
          ob\<lparr>do_assistant := do_assistant ob @ contextUTF8Prefix value (durableRunAssistantLimitBytes - used),
             do_assistantClipped := True\<rparr>
        else ob\<lparr>do_assistant := do_assistant ob @ value\<rparr>)"

definition flushAssistantLocked :: "text_filters \<Rightarrow> gotime \<Rightarrow> durable_observer \<Rightarrow> durable_observer" where
  "flushAssistantLocked tf now ob =
     (if length (do_assistant ob) = 0 \<and> \<not> do_assistantClipped ob then ob
      else
        let content = do_assistant ob @ (if do_assistantClipped ob then truncated_mark else []) in
        ob\<lparr>do_messages := do_messages ob @
             [\<lparr>sg_Role = ''assistant'', sg_Content = tf_redact tf content, sg_ToolName = [], sg_ToolInput = None,
               sg_ToolResult = [], sg_IsError = False, sg_Timestamp = now\<rparr>],
           do_assistant := [], do_assistantClipped := False\<rparr>)"

section \<open>Terminal metadata\<close>

definition durableRunTerminalState :: "string \<Rightarrow> string" where
  "durableRunTerminalState value =
     (if value = EvidenceTerminalVerified \<or> value = EvidenceTerminalPartiallyVerified
         \<or> value = EvidenceTerminalUnverified \<or> value = EvidenceTerminalBlocked then value else [])"

definition validDurableRunCompletionCount :: "int \<Rightarrow> bool" where
  "validDurableRunCompletionCount value \<longleftrightarrow> 0 \<le> value \<and> value \<le> int maxCompletionCriteria"

definition sanitizeCompletionContractStatus :: "string \<Rightarrow> string" where
  "sanitizeCompletionContractStatus value =
     (if value = StatusComplete \<or> value = StatusIncomplete \<or> value = StatusBlocked then value else StatusIncomplete)"

record terminal_input =
  ti_TerminalState :: "string option"
  ti_CompletionStatus :: "string option"
  ti_CompletionRevision :: "uint64 option"
  ti_CompletionCriteria :: "int option"
  ti_CompletionSatisfied :: "int option"
  ti_CompletionBlocked :: "int option"

definition decode_terminal :: "(string \<times> json) list \<Rightarrow> terminal_input option" where
  "decode_terminal es =
     (case (decode_field (store_pointer json_to_string) ''terminalState'' es None,
            decode_field (store_pointer json_to_string) ''completionStatus'' es None,
            decode_field (store_pointer json_to_uint64) ''completionRevision'' es None,
            decode_field (store_pointer json_to_int) ''completionCriteria'' es None,
            decode_field (store_pointer json_to_int) ''completionSatisfied'' es None,
            decode_field (store_pointer json_to_int) ''completionBlocked'' es None) of
        (Some a, Some b, Some c, Some d, Some e, Some f) \<Rightarrow>
          Some \<lparr>ti_TerminalState = a, ti_CompletionStatus = b, ti_CompletionRevision = c,
                ti_CompletionCriteria = d, ti_CompletionSatisfied = e, ti_CompletionBlocked = f\<rparr>
      | _ \<Rightarrow> None)"

definition valid_count :: "int option \<Rightarrow> int option" where
  "valid_count c = (case c of None \<Rightarrow> None | Some n \<Rightarrow> if validDurableRunCompletionCount n then Some n else None)"

definition or_zero :: "int option \<Rightarrow> int" where
  "or_zero c = (case c of None \<Rightarrow> 0 | Some n \<Rightarrow> n)"

definition terminal_of_input :: "terminal_input \<Rightarrow> terminal_metadata \<times> bool" where
  "terminal_of_input inp =
     (let state = (case ti_TerminalState inp of None \<Rightarrow> [] | Some s \<Rightarrow> durableRunTerminalState s);
          status = (case ti_CompletionStatus inp of None \<Rightarrow> [] | Some s \<Rightarrow> sanitizeCompletionContractStatus s);
          criteria = valid_count (ti_CompletionCriteria inp);
          satisfied = valid_count (ti_CompletionSatisfied inp);
          blocked = valid_count (ti_CompletionBlocked inp);
          is_set = (state \<noteq> [] \<or> ti_CompletionStatus inp \<noteq> None \<or> ti_CompletionRevision inp \<noteq> None
            \<or> criteria \<noteq> None \<or> satisfied \<noteq> None \<or> blocked \<noteq> None);
          status1 = (if or_zero blocked > 0 then StatusBlocked else status);
          state1 = (if status1 = StatusIncomplete \<or> status1 = StatusBlocked then EvidenceTerminalBlocked else state)
      in (\<lparr>tm_TerminalState = state1, tm_CompletionStatus = status1,
           tm_CompletionRevision = (case ti_CompletionRevision inp of None \<Rightarrow> 0 | Some r \<Rightarrow> r),
           tm_CompletionCriteria = or_zero criteria, tm_CompletionSatisfied = or_zero satisfied,
           tm_CompletionBlocked = or_zero blocked\<rparr>, is_set))"

definition durableRunTerminalFromEvent :: "event_data \<Rightarrow> terminal_metadata \<times> bool" where
  "durableRunTerminalFromEvent value =
     (if value = NoData then (no_metadata, False)
      else (case Option.bind (decodeDurableRunEvent value) decode_terminal of
              None \<Rightarrow> (no_metadata, False)
            | Some inp \<Rightarrow> terminal_of_input inp))"

definition DecodeDurableRunTerminalMetadata :: "event_data \<Rightarrow> terminal_metadata \<times> bool" where
  "DecodeDurableRunTerminalMetadata value = durableRunTerminalFromEvent value"

definition BlocksSuccess :: "terminal_metadata \<Rightarrow> bool" where
  "BlocksSuccess m \<longleftrightarrow> tm_TerminalState m = EvidenceTerminalBlocked \<or> tm_CompletionStatus m = StatusIncomplete
     \<or> tm_CompletionStatus m = StatusBlocked \<or> tm_CompletionBlocked m > 0"

section \<open>Events\<close>

definition NewDurableRunObserver :: "string \<Rightarrow> durable_observer" where
  "NewDurableRunObserver runID =
     \<lparr>do_runID = durableRunBoundedText runID 256, do_assistant = [], do_assistantClipped = False, do_messages = [],
      do_tools = [], do_toolIndexes = (\<lambda>_. []), do_ambiguousToolIDs = False, do_completed = False,
      do_terminal = no_metadata, do_terminalSet = False\<rparr>"

definition SetRunID :: "string \<Rightarrow> durable_observer \<Rightarrow> durable_observer" where
  "SetRunID runID ob = (if do_completed ob then ob else ob\<lparr>do_runID := durableRunBoundedText runID 256\<rparr>)"

definition sessionInputDigestPattern :: "string \<Rightarrow> bool" where
  "sessionInputDigestPattern s \<longleftrightarrow> has_prefix s ''sha256:'' \<and> length s = 71 \<and> list_all lower_hex_digit (drop 7 s)"

abbreviation string_field :: "string \<Rightarrow> (string \<times> json) list \<Rightarrow> string option" where
  "string_field name es \<equiv> decode_field (store_value json_to_string) name es []"

abbreviation bool_field :: "string \<Rightarrow> (string \<times> json) list \<Rightarrow> bool option" where
  "bool_field name es \<equiv> decode_field (store_value json_to_bool) name es False"

text \<open>The identifier, name, digest and run of a start event that is recorded.\<close>

definition decode_start :: "event_data \<Rightarrow> (string \<times> string \<times> string \<times> string) option" where
  "decode_start d = (case decodeDurableRunEvent d of
      None \<Rightarrow> None
    | Some es \<Rightarrow>
       (case (string_field ''id'' es, string_field ''name'' es, string_field ''inputDigest'' es, string_field ''runId'' es) of
          (Some i, Some n, Some dg, Some r) \<Rightarrow>
            let i1 = durableRunBoundedText i 256; n1 = durableRunBoundedText n 128 in
            if i1 = [] \<or> n1 = [] \<or> \<not> sessionInputDigestPattern dg then None
            else Some (i1, n1, dg, durableRunBoundedText r 256)
        | _ \<Rightarrow> None))"

text \<open>The identifier, text and error flag of a result event of an executed call.\<close>

definition decode_result :: "event_data \<Rightarrow> (string \<times> string \<times> bool) option" where
  "decode_result d = (case decodeDurableRunEvent d of
      None \<Rightarrow> None
    | Some es \<Rightarrow>
       (case (string_field ''id'' es, string_field ''name'' es, string_field ''result'' es, bool_field ''isError'' es,
              bool_field ''executed'' es) of
          (Some i, Some n, Some r, Some err, Some executed) \<Rightarrow>
            if executed then Some (durableRunBoundedText i 256, r, err) else None
        | _ \<Rightarrow> None))"

definition unresolved :: "durable_observer \<Rightarrow> string \<Rightarrow> nat list" where
  "unresolved ob i = filter (\<lambda>x. x < length (do_tools ob) \<and> \<not> dt_ResultSeen (do_tools ob ! x)) (do_toolIndexes ob i)"

definition observe_start :: "text_filters \<Rightarrow> gotime \<Rightarrow> event_data \<Rightarrow> durable_observer \<Rightarrow> durable_observer" where
  "observe_start tf now d ob = (case decode_start d of
      None \<Rightarrow> ob
    | Some (i, n, dg, r) \<Rightarrow>
        let ob1 = (if unresolved ob i \<noteq> [] then ob\<lparr>do_ambiguousToolIDs := True\<rparr> else ob);
            ob2 = flushAssistantLocked tf now ob1;
            index = length (do_tools ob2) in
        ob2\<lparr>do_tools := do_tools ob2 @
              [\<lparr>dt_RunID = (if r = [] then do_runID ob2 else r), dt_ToolName = n, dt_ToolCallID = i,
                dt_InputDigest = dg, dt_SideEffect = SessionSideEffectStarted, dt_ResultSeen = False\<rparr>],
            do_toolIndexes := (do_toolIndexes ob2)(i := do_toolIndexes ob2 i @ [index])\<rparr>)"

definition observe_result :: "text_filters \<Rightarrow> gotime \<Rightarrow> event_data \<Rightarrow> durable_observer \<Rightarrow> durable_observer" where
  "observe_result tf now d ob = (case decode_result d of
      None \<Rightarrow> ob
    | Some (i, res, err) \<Rightarrow>
        let un = unresolved ob i in
        if un = [] then ob
        else
          let ob1 = (if length un > 1 then ob\<lparr>do_ambiguousToolIDs := True\<rparr> else ob);
              ob2 = flushAssistantLocked tf now ob1;
              index = last un;
              t = do_tools ob2 ! index;
              t' = t\<lparr>dt_SideEffect := (if err then SessionSideEffectMayHaveApplied else SessionSideEffectApplied),
                     dt_ResultSeen := True\<rparr>;
              txt_result = durableRunToolResult tf res in
          ob2\<lparr>do_tools := (do_tools ob2)[index := t'],
              do_messages := do_messages ob2 @
                [\<lparr>sg_Role = ''tool'', sg_Content = txt_result, sg_ToolName = dt_ToolName t',
                  sg_ToolInput = Some (durableRunToolReference t'), sg_ToolResult = txt_result,
                  sg_IsError = err, sg_Timestamp = now\<rparr>]\<rparr>)"

definition observe_done :: "text_filters \<Rightarrow> gotime \<Rightarrow> event_data \<Rightarrow> durable_observer \<Rightarrow> durable_observer" where
  "observe_done tf now d ob =
     (let (m, ok) = durableRunTerminalFromEvent d;
          ob1 = (if ok then ob\<lparr>do_terminal := m, do_terminalSet := True\<rparr> else ob)
      in (flushAssistantLocked tf now ob1)\<lparr>do_completed := True\<rparr>)"

definition observer_Observe :: "text_filters \<Rightarrow> gotime \<Rightarrow> event \<Rightarrow> durable_observer \<Rightarrow> durable_observer" where
  "observer_Observe tf now e ob =
     (if do_completed ob then ob
      else if ev_Type e = ''text'' then (case ev_Data e of TextData s \<Rightarrow> appendAssistantLocked s ob | _ \<Rightarrow> ob)
      else if ev_Type e = ''tool_execution_start'' then observe_start tf now (ev_Data e) ob
      else if ev_Type e = ''tool_result'' then observe_result tf now (ev_Data e) ob
      else if ev_Type e = ''done'' then observe_done tf now (ev_Data e) ob
      else ob)"

section \<open>Queries\<close>

definition TerminalMetadata :: "durable_observer \<Rightarrow> terminal_metadata \<times> bool" where
  "TerminalMetadata ob =
     (if \<not> do_completed ob \<or> \<not> do_terminalSet ob then (no_metadata, False) else (do_terminal ob, True))"

text \<open>\<^const>\<open>None\<close> is the nil slice of a run that has not completed.\<close>

text \<open>
  \<^const>\<open>None\<close> is a nil slice. The observer's transcript starts as nil and only grows by appending, so
  it is nil exactly if it is empty. The copies of the maps in a clone are not told apart from them.
\<close>

definition cloneDurableRunMessages :: "session_message list \<Rightarrow> session_message list option" where
  "cloneDurableRunMessages messages = (if messages = [] then None else Some messages)"

definition Messages :: "durable_observer \<Rightarrow> session_message list option" where
  "Messages ob = (if \<not> do_completed ob then None else cloneDurableRunMessages (do_messages ob))"

definition ReconciliationRequired :: "durable_observer \<Rightarrow> bool" where
  "ReconciliationRequired ob \<longleftrightarrow> do_ambiguousToolIDs ob \<or> list_ex (\<lambda>t. \<not> dt_ResultSeen t) (do_tools ob)"

definition HasToolActivity :: "durable_observer \<Rightarrow> bool" where
  "HasToolActivity ob \<longleftrightarrow> length (do_tools ob) > 0"

definition combine_run_ids :: "string \<Rightarrow> durable_tool list \<Rightarrow> string" where
  "combine_run_ids own tools =
     foldl (\<lambda>r t. if r = [] then dt_RunID t else if r \<noteq> dt_RunID t then own else r) [] tools"

definition digest_state :: "durable_tool \<Rightarrow> string \<times> string \<times> string \<times> string" where
  "digest_state t = (dt_ToolCallID t, dt_ToolName t, dt_InputDigest t, dt_SideEffect t)"

text \<open>The argument is the hexadecimal SHA-256 of the JSON encoding of the tool states.\<close>

definition interruptionToolLocked :: "((string \<times> string \<times> string \<times> string) list \<Rightarrow> string) \<Rightarrow> durable_observer
    \<Rightarrow> durable_tool \<times> string" where
  "interruptionToolLocked sha ob =
     (if length (do_tools ob) = 1 then
        (do_tools ob ! 0, ''Agent run ended after tool execution began; reconcile the recorded side effect before resuming.'')
      else
        let tools = sort_key (\<lambda>t. (dt_ToolCallID t, dt_InputDigest t, dt_ToolName t)) (do_tools ob);
            states = map digest_state tools in
        (\<lparr>dt_RunID = combine_run_ids (do_runID ob) tools, dt_ToolName = ''multiple_tools'', dt_ToolCallID = ''multiple'',
          dt_InputDigest = ''sha256:'' @ sha states,
          dt_SideEffect = (if list_all (\<lambda>t. dt_SideEffect t = SessionSideEffectApplied) tools
            then SessionSideEffectApplied else SessionSideEffectMayHaveApplied),
          dt_ResultSeen = False\<rparr>,
         ''Agent run ended after '' @ show_nat (length states) @ '' tool executions began; reconcile every side effect represented by the aggregate digest before resuming.''))"

definition reconciliationMarker :: "((string \<times> string \<times> string \<times> string) list \<Rightarrow> string) \<Rightarrow> gotime \<Rightarrow> string \<Rightarrow> bool
    \<Rightarrow> durable_observer \<Rightarrow> session_interruption option" where
  "reconciliationMarker sha now reason includeCompleted ob =
     (if (\<not> includeCompleted \<and> do_completed ob) \<or> length (do_tools ob) = 0 then None
      else
        let (tool, summary) = interruptionToolLocked sha ob in
        if dt_RunID tool = [] then
          Some \<lparr>si_At = now, si_Reason = durableRunBoundedText reason 1024, si_RunID = [], si_ToolName = [],
                si_ToolCallID = [], si_InputDigest = [], si_SideEffectState = [], si_Summary = []\<rparr>
        else
          Some \<lparr>si_At = now, si_Reason = durableRunBoundedText reason 1024, si_RunID = dt_RunID tool,
                si_ToolName = dt_ToolName tool, si_ToolCallID = dt_ToolCallID tool, si_InputDigest = dt_InputDigest tool,
                si_SideEffectState = dt_SideEffect tool, si_Summary = summary\<rparr>)"

definition Interruption :: "((string \<times> string \<times> string \<times> string) list \<Rightarrow> string) \<Rightarrow> gotime \<Rightarrow> string
    \<Rightarrow> durable_observer \<Rightarrow> session_interruption option" where
  "Interruption sha now reason ob = reconciliationMarker sha now reason False ob"

definition ReconciliationMarker :: "((string \<times> string \<times> string \<times> string) list \<Rightarrow> string) \<Rightarrow> gotime \<Rightarrow> string
    \<Rightarrow> durable_observer \<Rightarrow> session_interruption option" where
  "ReconciliationMarker sha now reason ob = reconciliationMarker sha now reason True ob"

end
