(* ===== verification/Durable_Laws.thy ===== *)
theory Durable_Laws
  imports Durable_Run "HOL-Library.Multiset"
begin

text \<open>
  The durable observer against an abstract log of open tool calls: the log only counts, per
  call identifier, the executions that began and have no result yet, and remembers whether two
  executions with one identifier ever overlapped.
\<close>

section \<open>Counting in lists\<close>

lemma length_filter_update:
  "x < length xs \<Longrightarrow> length (filter P (xs[x := y])) + (if P (xs ! x) then 1 else 0)
     = length (filter P xs) + (if P y then 1 else 0)"
proof (induction xs arbitrary: x)
  case (Cons a xs)
  then show ?case by (cases x) auto
qed simp

lemma length_filter_nth: "length (filter P xs) = length (filter (\<lambda>x. P (xs ! x)) [0..<length xs])"
proof -
  have "filter P xs = filter P (map (\<lambda>x. xs ! x) [0..<length xs])" by (simp add: map_nth)
  then show ?thesis by (simp add: filter_map comp_def)
qed

section \<open>The machine and its invariant\<close>

datatype observer_event = ObserverEvent gotime event | ObserverRunID string

fun observer_step :: "text_filters \<Rightarrow> durable_observer \<Rightarrow> observer_event \<Rightarrow> durable_observer" where
  "observer_step tf ob (ObserverEvent now e) = observer_Observe tf now e ob"
| "observer_step tf ob (ObserverRunID r) = SetRunID r ob"

definition indexes_ok :: "durable_tool list \<Rightarrow> (string \<Rightarrow> nat list) \<Rightarrow> bool" where
  "indexes_ok tools ix \<longleftrightarrow> (\<forall>i. ix i = filter (\<lambda>x. dt_ToolCallID (tools ! x) = i) [0..<length tools])"

definition tool_messages :: "durable_observer \<Rightarrow> nat" where
  "tool_messages ob = length (filter (\<lambda>m. sg_Role m = ''tool'') (do_messages ob))"

definition observer_inv :: "durable_observer \<Rightarrow> bool" where
  "observer_inv ob \<longleftrightarrow> indexes_ok (do_tools ob) (do_toolIndexes ob)
     \<and> tool_messages ob = length (filter dt_ResultSeen (do_tools ob))
     \<and> length (do_assistant ob) \<le> durableRunAssistantLimitBytes"

definition open_calls :: "durable_observer \<Rightarrow> string \<Rightarrow> nat" where
  "open_calls ob i = length (filter (\<lambda>t. dt_ToolCallID t = i \<and> \<not> dt_ResultSeen t) (do_tools ob))"

lemma flush_fields [simp]:
  "do_tools (flushAssistantLocked tf now ob) = do_tools ob"
  "do_toolIndexes (flushAssistantLocked tf now ob) = do_toolIndexes ob"
  "do_ambiguousToolIDs (flushAssistantLocked tf now ob) = do_ambiguousToolIDs ob"
  "do_completed (flushAssistantLocked tf now ob) = do_completed ob"
  "do_runID (flushAssistantLocked tf now ob) = do_runID ob"
  "do_terminal (flushAssistantLocked tf now ob) = do_terminal ob"
  "do_terminalSet (flushAssistantLocked tf now ob) = do_terminalSet ob"
  "tool_messages (flushAssistantLocked tf now ob) = tool_messages ob"
  "do_assistant (flushAssistantLocked tf now ob) = []"
  by (simp_all add: flushAssistantLocked_def tool_messages_def Let_def)

lemma append_fields [simp]:
  "do_tools (appendAssistantLocked s ob) = do_tools ob"
  "do_toolIndexes (appendAssistantLocked s ob) = do_toolIndexes ob"
  "do_ambiguousToolIDs (appendAssistantLocked s ob) = do_ambiguousToolIDs ob"
  "do_completed (appendAssistantLocked s ob) = do_completed ob"
  "tool_messages (appendAssistantLocked s ob) = tool_messages ob"
  by (simp_all add: appendAssistantLocked_def tool_messages_def Let_def)

lemma append_bound:
  assumes "length (do_assistant ob) \<le> durableRunAssistantLimitBytes"
  shows "length (do_assistant (appendAssistantLocked s ob)) \<le> durableRunAssistantLimitBytes"
proof -
  have "length (contextUTF8Prefix v (durableRunAssistantLimitBytes - length (do_assistant ob)))
      \<le> durableRunAssistantLimitBytes - length (do_assistant ob)" for v
    by (rule length_contextUTF8Prefix)
  with assms show ?thesis by (auto simp: appendAssistantLocked_def Let_def le_diff_conv2 add.commute)
qed

lemma indexes_start:
  assumes "indexes_ok tools ix" and "dt_ToolCallID t = i"
  shows "indexes_ok (tools @ [t]) (ix(i := ix i @ [length tools]))"
proof -
  have old: "filter (\<lambda>x. dt_ToolCallID ((tools @ [t]) ! x) = j) [0..<length tools]
      = filter (\<lambda>x. dt_ToolCallID (tools ! x) = j) [0..<length tools]" for j
    by (rule filter_cong) (auto simp: nth_append)
  show ?thesis using assms old by (auto simp: indexes_ok_def nth_append)
qed

lemma indexes_update:
  assumes "indexes_ok tools ix" and "dt_ToolCallID t = dt_ToolCallID (tools ! x)"
  shows "indexes_ok (tools[x := t]) ix"
proof -
  have "filter (\<lambda>y. dt_ToolCallID (tools[x := t] ! y) = j) [0..<length tools]
      = filter (\<lambda>y. dt_ToolCallID (tools ! y) = j) [0..<length tools]" for j
    using assms(2) by (intro filter_cong) (auto simp: nth_update_read)
  with assms(1) show ?thesis by (simp add: indexes_ok_def)
qed

lemma unresolved_open:
  assumes "indexes_ok (do_tools ob) (do_toolIndexes ob)"
  shows "length (unresolved ob i) = open_calls ob i"
    and "x \<in> set (unresolved ob i) \<Longrightarrow> x < length (do_tools ob) \<and> dt_ToolCallID (do_tools ob ! x) = i
      \<and> \<not> dt_ResultSeen (do_tools ob ! x)"
proof -
  have "unresolved ob i = filter (\<lambda>x. dt_ToolCallID (do_tools ob ! x) = i \<and> \<not> dt_ResultSeen (do_tools ob ! x)) [0..<length (do_tools ob)]"
    using assms by (auto simp: unresolved_def indexes_ok_def intro!: filter_cong)
  then show "length (unresolved ob i) = open_calls ob i"
    and "x \<in> set (unresolved ob i) \<Longrightarrow> x < length (do_tools ob) \<and> dt_ToolCallID (do_tools ob ! x) = i
      \<and> \<not> dt_ResultSeen (do_tools ob ! x)"
    by (auto simp: open_calls_def length_filter_nth [of _ "do_tools ob"])
qed

section \<open>Refinement of the call log\<close>

record call_log =
  lg_open :: "string \<Rightarrow> nat"
  lg_overlap :: bool
  lg_closed :: bool

definition log_start :: "string \<Rightarrow> call_log \<Rightarrow> call_log" where
  "log_start i l = l\<lparr>lg_overlap := lg_overlap l \<or> lg_open l i > 0, lg_open := (lg_open l)(i := Suc (lg_open l i))\<rparr>"

definition log_result :: "string \<Rightarrow> call_log \<Rightarrow> call_log" where
  "log_result i l = (if lg_open l i = 0 then l
     else l\<lparr>lg_overlap := lg_overlap l \<or> lg_open l i > 1, lg_open := (lg_open l)(i := lg_open l i - 1)\<rparr>)"

definition log_event :: "event \<Rightarrow> call_log \<Rightarrow> call_log" where
  "log_event e l =
     (if lg_closed l then l
      else if ev_Type e = ''tool_execution_start'' then
        (case decode_start (ev_Data e) of None \<Rightarrow> l | Some (i, _) \<Rightarrow> log_start i l)
      else if ev_Type e = ''tool_result'' then
        (case decode_result (ev_Data e) of None \<Rightarrow> l | Some (i, _) \<Rightarrow> log_result i l)
      else if ev_Type e = ''done'' then l\<lparr>lg_closed := True\<rparr>
      else l)"

fun log_step :: "call_log \<Rightarrow> observer_event \<Rightarrow> call_log" where
  "log_step l (ObserverEvent now e) = log_event e l"
| "log_step l (ObserverRunID r) = l"

definition call_view :: "durable_observer \<Rightarrow> call_log" where
  "call_view ob = \<lparr>lg_open = open_calls ob, lg_overlap = do_ambiguousToolIDs ob, lg_closed = do_completed ob\<rparr>"

lemma start_refines:
  assumes "observer_inv ob"
  shows "observer_inv (observe_start tf now d ob)
    \<and> call_view (observe_start tf now d ob) = (case decode_start d of None \<Rightarrow> call_view ob | Some (i, _) \<Rightarrow> log_start i (call_view ob))"
proof (cases "decode_start d")
  case (Some p)
  then obtain i n dg r where p: "decode_start d = Some (i, n, dg, r)" by (metis prod_cases4)
  define t where "t = \<lparr>dt_RunID = (if r = [] then do_runID ob else r), dt_ToolName = n, dt_ToolCallID = i,
    dt_InputDigest = dg, dt_SideEffect = SessionSideEffectStarted, dt_ResultSeen = False\<rparr>"
  define ob' where "ob' = observe_start tf now d ob"
  have ix: "indexes_ok (do_tools ob) (do_toolIndexes ob)" using assms by (simp add: observer_inv_def)
  have f: "do_tools ob' = do_tools ob @ [t]" "do_toolIndexes ob' = (do_toolIndexes ob)(i := do_toolIndexes ob i @ [length (do_tools ob)])"
    "do_ambiguousToolIDs ob' = (do_ambiguousToolIDs ob \<or> unresolved ob i \<noteq> [])" "do_completed ob' = do_completed ob"
    "tool_messages ob' = tool_messages ob" "do_assistant ob' = []"
    by (auto simp: ob'_def observe_start_def p t_def Let_def tool_messages_def flushAssistantLocked_def)
  have "observer_inv ob'"
    using assms indexes_start [OF ix, of t i] f by (simp add: observer_inv_def t_def)
  moreover have "unresolved ob i \<noteq> [] \<longleftrightarrow> 0 < open_calls ob i" using unresolved_open(1) [OF ix, of i] by (metis length_greater_0_conv)
  then have "call_view ob' = log_start i (call_view ob)"
    using f by (auto simp: call_view_def log_start_def open_calls_def t_def)
  ultimately show ?thesis using p by (simp add: ob'_def)
qed (simp add: observe_start_def assms)

lemma result_refines:
  assumes "observer_inv ob"
  shows "observer_inv (observe_result tf now d ob)
    \<and> call_view (observe_result tf now d ob) = (case decode_result d of None \<Rightarrow> call_view ob | Some (i, _) \<Rightarrow> log_result i (call_view ob))"
proof (cases "decode_result d")
  case (Some p)
  then obtain i res err where p: "decode_result d = Some (i, res, err)" by (metis prod_cases3)
  have ix: "indexes_ok (do_tools ob) (do_toolIndexes ob)" using assms by (simp add: observer_inv_def)
  show ?thesis
  proof (cases "unresolved ob i = []")
    case True
    with p assms unresolved_open(1) [OF ix, of i] show ?thesis
      by (simp add: observe_result_def log_result_def call_view_def)
  next
    case False
    define x where "x = last (unresolved ob i)"
    define t where "t = (do_tools ob ! x)\<lparr>dt_SideEffect := (if err then SessionSideEffectMayHaveApplied
      else SessionSideEffectApplied), dt_ResultSeen := True\<rparr>"
    define ob' where "ob' = observe_result tf now d ob"
    have x: "x < length (do_tools ob)" "dt_ToolCallID (do_tools ob ! x) = i" "\<not> dt_ResultSeen (do_tools ob ! x)"
      using unresolved_open(2) [OF ix, of x i] False by (auto simp: x_def)
    have f: "do_tools ob' = (do_tools ob)[x := t]" "do_toolIndexes ob' = do_toolIndexes ob"
      "do_ambiguousToolIDs ob' = (do_ambiguousToolIDs ob \<or> length (unresolved ob i) > 1)"
      "do_completed ob' = do_completed ob" "tool_messages ob' = Suc (tool_messages ob)" "do_assistant ob' = []"
      using False by (auto simp: ob'_def observe_result_def p x_def t_def Let_def tool_messages_def flushAssistantLocked_def)
    have count: "length (filter P ((do_tools ob)[x := t])) + (if P (do_tools ob ! x) then 1 else 0)
        = length (filter P (do_tools ob)) + (if P t then 1 else 0)" for P
      by (rule length_filter_update [OF x(1)])
    have "observer_inv ob'"
      using assms indexes_update [OF ix, of t x] f count [of dt_ResultSeen] x by (simp add: observer_inv_def t_def)
    moreover have "open_calls ob' j = (if j = i then open_calls ob i - 1 else open_calls ob j)" for j
      using count [of "\<lambda>t. dt_ToolCallID t = j \<and> \<not> dt_ResultSeen t"] x f by (auto simp: open_calls_def t_def)
    then have "open_calls ob' = (open_calls ob)(i := open_calls ob i - 1)" by auto
    then have "call_view ob' = log_result i (call_view ob)"
      using f False unresolved_open(1) [OF ix, of i] by (auto simp: call_view_def log_result_def)
    ultimately show ?thesis using p by (simp add: ob'_def)
  qed
qed (simp add: observe_result_def assms)

lemma observer_refines:
  assumes "observer_inv ob"
  shows "observer_inv (observer_step tf ob e) \<and> call_view (observer_step tf ob e) = log_step (call_view ob) e"
proof (cases e)
  case (ObserverEvent now ev)
  have "observer_inv (appendAssistantLocked s ob)" for s
    using assms append_bound [of ob s] by (simp add: observer_inv_def)
  moreover have "call_view (appendAssistantLocked s ob) = call_view ob" for s
    by (simp add: call_view_def open_calls_def fun_eq_iff)
  moreover have "observer_inv (observe_done tf now d ob) \<and> call_view (observe_done tf now d ob) = (call_view ob)\<lparr>lg_closed := True\<rparr>" for d
    using assms by (auto simp: observe_done_def observer_inv_def call_view_def open_calls_def tool_messages_def
        flushAssistantLocked_def Let_def split: prod.splits)
  moreover have "lg_closed (call_view ob) = do_completed ob" by (simp add: call_view_def)
  ultimately show ?thesis
    using assms ObserverEvent start_refines [OF assms, of tf now "ev_Data ev"] result_refines [OF assms, of tf now "ev_Data ev"]
    by (auto simp: observer_Observe_def log_event_def split: event_data.splits)
next
  case (ObserverRunID r)
  with assms show ?thesis
    by (simp add: SetRunID_def observer_inv_def call_view_def open_calls_def tool_messages_def fun_eq_iff)
qed

interpretation durable_machine: invariant_machine "observer_step tf" observer_inv for tf
  by unfold_locales (rule conjunct1 [OF observer_refines])

lemma observer_run_refines:
  "observer_inv ob \<Longrightarrow> call_view (foldl (observer_step tf) ob es) = foldl log_step (call_view ob) es"
proof (induction es arbitrary: ob)
  case (Cons e es)
  from observer_refines [OF Cons.prems, of tf e] Cons.IH [of "observer_step tf ob e"] show ?case by simp
qed simp

lemma observer_new: "observer_inv (NewDurableRunObserver r)"
  "call_view (NewDurableRunObserver r) = \<lparr>lg_open = (\<lambda>_. 0), lg_overlap = False, lg_closed = False\<rparr>"
  by (auto simp: observer_inv_def NewDurableRunObserver_def indexes_ok_def tool_messages_def call_view_def open_calls_def)

lemma reconciliation_view: "ReconciliationRequired ob \<longleftrightarrow> lg_overlap (call_view ob) \<or> (\<exists>i. lg_open (call_view ob) i > 0)"
  by (auto simp: ReconciliationRequired_def call_view_def open_calls_def list_ex_iff filter_empty_conv)

section \<open>Properties\<close>

text \<open>
  C32. The observer implements the log of open tool calls, for every sequence of events and
  run identifiers: it asks for reconciliation exactly if some execution that began has no
  result, or executions with the same identifier overlapped, and it stops at the done event.
  It hands out its transcript after that event, whole, and nothing before it or if there is
  none; the transcript holds exactly one tool message for every execution with a result, so a
  result without a recorded start adds nothing; and the pending text stays within its limit.
\<close>

theorem durable_observer_refines_log:
  fixes es :: "observer_event list" and tf :: text_filters and r :: string
  defines "ob \<equiv> foldl (observer_step tf) (NewDurableRunObserver r) es"
    and "l \<equiv> foldl log_step \<lparr>lg_open = (\<lambda>_. 0), lg_overlap = False, lg_closed = False\<rparr> es"
  shows "(ReconciliationRequired ob \<longleftrightarrow> lg_overlap l \<or> (\<exists>i. lg_open l i > 0))
    \<and> Messages ob = (if lg_closed l \<and> do_messages ob \<noteq> [] then Some (do_messages ob) else None)
    \<and> length (filter (\<lambda>m. sg_Role m = ''tool'') (do_messages ob)) = length (filter dt_ResultSeen (do_tools ob))
    \<and> length (do_assistant ob) \<le> durableRunAssistantLimitBytes"
proof -
  have view: "call_view ob = l"
    unfolding ob_def l_def using observer_run_refines [OF observer_new(1), of tf r es] by (simp add: observer_new(2))
  have "observer_inv ob"
    unfolding ob_def by (rule durable_machine.inv_run [OF observer_new(1)])
  moreover have "Messages ob = (if lg_closed (call_view ob) \<and> do_messages ob \<noteq> [] then Some (do_messages ob) else None)"
    by (simp add: Messages_def cloneDurableRunMessages_def call_view_def)
  ultimately show ?thesis
    using reconciliation_view [of ob] unfolding view observer_inv_def tool_messages_def by blast
qed

text \<open>
  The marker of an interrupted run with several tools does not depend on the order in
  which the parallel executions began: if the recorded executions are the same up to order,
  and no two agree in call identifier, input digest and name, then tool name, run, aggregate
  digest, side effect and summary of the marker are the same.
\<close>

theorem marker_order_independent:
  assumes "mset (do_tools a) = mset (do_tools b)" and "do_runID a = do_runID b" and "do_completed a = do_completed b"
    and "distinct (map (\<lambda>t. (dt_ToolCallID t, dt_InputDigest t, dt_ToolName t)) (do_tools a))"
  shows "reconciliationMarker sha now reason all a = reconciliationMarker sha now reason all b"
proof -
  let ?k = "\<lambda>t. (dt_ToolCallID t, dt_InputDigest t, dt_ToolName t)"
  have "inj_on ?k (set (do_tools a))" using assms(4) by (simp add: distinct_map)
  then have srt: "sort_key ?k (do_tools a) = sort_key ?k (do_tools b)"
    by (intro sort_key_inj_key_eq) (simp_all add: assms(1))
  have len: "length (do_tools a) = length (do_tools b)" using mset_eq_length [OF assms(1)] .
  have one: "do_tools a = do_tools b" if "length (do_tools a) = 1"
  proof -
    from that obtain x where x: "do_tools a = [x]" by (cases "do_tools a") auto
    from that len obtain y where y: "do_tools b = [y]" by (cases "do_tools b") auto
    from assms(1) have "{#x#} = {#y#}" by (simp add: x y)
    then show ?thesis by (simp add: x y)
  qed
  have "interruptionToolLocked sha a = interruptionToolLocked sha b"
  proof (cases "length (do_tools a) = 1")
    case True
    show ?thesis unfolding interruptionToolLocked_def one [OF True] assms(2) ..
  next
    case False
    then have "length (do_tools b) \<noteq> 1" by (simp only: len not_False_eq_True)
    then show ?thesis unfolding interruptionToolLocked_def if_not_P [OF False] srt assms(2) by (simp only: if_False)
  qed
  then show ?thesis unfolding reconciliationMarker_def len assms(3) by (simp only:)
qed

definition sample_tool :: "string \<Rightarrow> durable_tool" where
  "sample_tool i = \<lparr>dt_RunID = ''r'', dt_ToolName = ''Bash'', dt_ToolCallID = i, dt_InputDigest = ''d'',
     dt_SideEffect = SessionSideEffectStarted, dt_ResultSeen = False\<rparr>"

definition sample_observer :: "string list \<Rightarrow> durable_observer" where
  "sample_observer calls = (NewDurableRunObserver ''r'')\<lparr>do_tools := map sample_tool calls\<rparr>"

theorem marker_order_independent_witness:
  "reconciliationMarker (\<lambda>_. ''x'') 1 ''stop'' False (sample_observer [''a'', ''b''])
     = reconciliationMarker (\<lambda>_. ''x'') 1 ''stop'' False (sample_observer [''b'', ''a''])"
  by (rule marker_order_independent) (simp_all add: sample_observer_def sample_tool_def NewDurableRunObserver_def)

end
