(* ===== verification/Team_Plan.thy ===== *)
theory Team_Plan
  imports Interfaces
begin

text \<open>
  Team plans (\<^verbatim>\<open>internal/agent/team_plan.go\<close>): the capacity configuration, the task
  contract, validation of a plan with its search for dependency cycles, and the scheduler that
  selects the tasks that may run now. The clock is an argument; the order in which Go ranges
  over a map is an argument too (the list of keys it visits). Problems that validation reports
  are constructors instead of formatted texts. Paths are those of a Unix build. Reading and
  writing plans on disk is not modelled; the JSON form of a capacity is, as the struct the
  encoder sees.
\<close>

abbreviation TaskKindResearch :: string where "TaskKindResearch \<equiv> ''research''"
abbreviation TaskKindPropose :: string where "TaskKindPropose \<equiv> ''propose''"
abbreviation TaskKindBlueprint :: string where "TaskKindBlueprint \<equiv> ''blueprint''"
abbreviation TaskKindImplement :: string where "TaskKindImplement \<equiv> ''implement''"
abbreviation TaskKindReview :: string where "TaskKindReview \<equiv> ''review''"
abbreviation TaskKindVerify :: string where "TaskKindVerify \<equiv> ''verify''"
abbreviation AgentTaskPending :: string where "AgentTaskPending \<equiv> ''pending''"
abbreviation AgentTaskCompleted :: string where "AgentTaskCompleted \<equiv> ''completed''"

record capacity_config =
  ca_ModelSlots :: int
  ca_ToolSlots :: int
  ca_WebFetchSlots :: int
  ca_TestSlots :: int
  ca_MaxParallelTasks :: int
  ca_FileScopeLock :: bool
  ca_FileScopeLockConfigured :: bool

record task_resources =
  tr_ModelSlots :: int
  tr_ToolSlots :: int
  tr_WebFetchSlots :: int
  tr_TestSlots :: int

record agent_spec =
  ag_ID :: string
  ag_Role :: string
  ag_Description :: string
  ag_SystemPrompt :: string
  ag_Tools :: "string list"
  ag_ReadOnly :: bool
  ag_Provider :: string
  ag_Model :: string

record agent_task =
  at_ID :: string
  at_Name :: string
  at_Kind :: string
  at_Stage :: string
  at_Role :: string
  at_Goal :: string
  at_Description :: string
  at_Files :: "string list"
  at_DependsOn :: "string list"
  at_Tools :: "string list"
  at_AcceptanceCriteria :: "string list"
  at_OutOfScope :: "string list"
  at_BlueprintNodes :: "string list"
  at_OutputContract :: string
  at_ReadOnly :: bool
  at_Provider :: string
  at_Model :: string
  at_Priority :: int
  at_Resources :: task_resources
  at_CreatedAt :: gotime

record plan_stage =
  ps_ID :: string
  ps_Name :: string
  ps_Kind :: string
  ps_TaskIDs :: "string list"

record team_plan =
  tp_Version :: int
  tp_Name :: string
  tp_Objective :: string
  tp_VerifyCommand :: string
  tp_Agents :: "agent_spec list"
  tp_Stages :: "plan_stage list"
  tp_Tasks :: "agent_task list"
  tp_Capacity :: capacity_config

datatype plan_problem =
  ObjectiveRequired | TaskRequired | TaskIDRequired | DuplicateTaskID string
| NeedsGoal string | NeedsFileScope string | UnknownDependency string string
| DependsOnItself string | StageIDRequired | DuplicateStageID string
| UnknownStageTask string string | UnknownStage string string | DependencyCycle

section \<open>Capacity\<close>

definition DefaultLocalCapacity :: capacity_config where
  "DefaultLocalCapacity = \<lparr>ca_ModelSlots = 1, ca_ToolSlots = 3, ca_WebFetchSlots = 4, ca_TestSlots = 1,
     ca_MaxParallelTasks = 2, ca_FileScopeLock = True, ca_FileScopeLockConfigured = False\<rparr>"

definition DefaultCloudCapacity :: capacity_config where
  "DefaultCloudCapacity = \<lparr>ca_ModelSlots = 4, ca_ToolSlots = 8, ca_WebFetchSlots = 8, ca_TestSlots = 2,
     ca_MaxParallelTasks = 4, ca_FileScopeLock = True, ca_FileScopeLockConfigured = False\<rparr>"

record capacity_json =
  cj_ModelSlots :: int
  cj_ToolSlots :: int
  cj_WebFetchSlots :: int
  cj_TestSlots :: int
  cj_MaxParallelTasks :: int
  cj_FileScopeLock :: "bool option"

text \<open>\<^verbatim>\<open>UnmarshalJSON\<close> after the decoder has filled the raw struct.\<close>

definition capacity_UnmarshalJSON :: "capacity_json \<Rightarrow> capacity_config \<Rightarrow> capacity_config" where
  "capacity_UnmarshalJSON raw c = \<lparr>ca_ModelSlots = cj_ModelSlots raw, ca_ToolSlots = cj_ToolSlots raw,
     ca_WebFetchSlots = cj_WebFetchSlots raw, ca_TestSlots = cj_TestSlots raw,
     ca_MaxParallelTasks = cj_MaxParallelTasks raw,
     ca_FileScopeLock = (case cj_FileScopeLock raw of None \<Rightarrow> ca_FileScopeLock c | Some b \<Rightarrow> b),
     ca_FileScopeLockConfigured = (cj_FileScopeLock raw \<noteq> None)\<rparr>"

definition capacity_MarshalJSON :: "capacity_config \<Rightarrow> capacity_json" where
  "capacity_MarshalJSON c = \<lparr>cj_ModelSlots = ca_ModelSlots c, cj_ToolSlots = ca_ToolSlots c,
     cj_WebFetchSlots = ca_WebFetchSlots c, cj_TestSlots = ca_TestSlots c,
     cj_MaxParallelTasks = ca_MaxParallelTasks c,
     cj_FileScopeLock = (if ca_FileScopeLock c \<or> ca_FileScopeLockConfigured c then Some (ca_FileScopeLock c) else None)\<rparr>"

definition capacity_Normalized :: "capacity_config \<Rightarrow> bool \<Rightarrow> capacity_config" where
  "capacity_Normalized c local =
     (let defaults = (if local then DefaultLocalCapacity else DefaultCloudCapacity) in
      \<lparr>ca_ModelSlots = (if ca_ModelSlots c \<le> 0 then ca_ModelSlots defaults else ca_ModelSlots c),
       ca_ToolSlots = (if ca_ToolSlots c \<le> 0 then ca_ToolSlots defaults else ca_ToolSlots c),
       ca_WebFetchSlots = (if ca_WebFetchSlots c \<le> 0 then ca_WebFetchSlots defaults else ca_WebFetchSlots c),
       ca_TestSlots = (if ca_TestSlots c \<le> 0 then ca_TestSlots defaults else ca_TestSlots c),
       ca_MaxParallelTasks = (if ca_MaxParallelTasks c \<le> 0 then ca_MaxParallelTasks defaults else ca_MaxParallelTasks c),
       ca_FileScopeLock = (if \<not> ca_FileScopeLock c \<and> \<not> ca_FileScopeLockConfigured c
         then ca_FileScopeLock defaults else ca_FileScopeLock c),
       ca_FileScopeLockConfigured = ca_FileScopeLockConfigured c\<rparr>)"

definition ModelTaskLimit :: "capacity_config \<Rightarrow> int \<Rightarrow> int" where
  "ModelTaskLimit c fallback =
     (let f = (if fallback \<le> 0 then 1 else fallback);
          l1 = (if ca_MaxParallelTasks c > 0 \<and> ca_MaxParallelTasks c < f then ca_MaxParallelTasks c else f);
          l2 = (if ca_ModelSlots c > 0 \<and> ca_ModelSlots c < l1 then ca_ModelSlots c else l1)
      in if l2 \<le> 0 then 1 else l2)"

section \<open>Tasks\<close>

definition IsReadOnly :: "agent_task \<Rightarrow> bool" where
  "IsReadOnly t \<longleftrightarrow> at_ReadOnly t
     \<or> at_Kind t \<in> set [TaskKindResearch, TaskKindPropose, TaskKindBlueprint, TaskKindReview]"

definition defaultRoleForTaskKind :: "string \<Rightarrow> string" where
  "defaultRoleForTaskKind kind =
     (if kind \<in> set [TaskKindResearch, TaskKindPropose, TaskKindBlueprint] then ''planner''
      else if kind = TaskKindReview then ''reviewer''
      else if kind = TaskKindVerify then ''tester''
      else ''coder'')"

definition task_Normalized :: "gotime \<Rightarrow> agent_task \<Rightarrow> agent_task" where
  "task_Normalized now t =
     (let i = trim_space (at_ID t); i1 = (if i = [] then ''task'' else i);
          n = trim_space (at_Name t); kind = (if at_Kind t = [] then TaskKindImplement else at_Kind t) in
      t\<lparr>at_ID := i1, at_Name := (if n = [] then i1 else n), at_Kind := kind,
        at_Role := (if at_Role t = [] then defaultRoleForTaskKind kind else at_Role t),
        at_CreatedAt := (if at_CreatedAt t = zero_time then now else at_CreatedAt t)\<rparr>)"

definition plan_Normalized :: "gotime \<Rightarrow> team_plan \<Rightarrow> team_plan" where
  "plan_Normalized now p =
     (let n = trim_space (tp_Name p) in
      p\<lparr>tp_Version := (if tp_Version p = 0 then 1 else tp_Version p),
        tp_Name := (if n = [] then ''team-plan'' else n),
        tp_Objective := trim_space (tp_Objective p),
        tp_Capacity := capacity_Normalized (tp_Capacity p) True,
        tp_Agents := map (\<lambda>a. a\<lparr>ag_ID := trim_space (ag_ID a), ag_Role := trim_space (ag_Role a)\<rparr>) (tp_Agents p),
        tp_Stages := map (\<lambda>s. s\<lparr>ps_ID := trim_space (ps_ID s), ps_Name := trim_space (ps_Name s)\<rparr>) (tp_Stages p),
        tp_Tasks := map (task_Normalized now) (tp_Tasks p)\<rparr>)"

definition newline :: string where "newline = [CHR 0x0A]"

definition prompt_list :: "string \<Rightarrow> string list \<Rightarrow> string" where
  "prompt_list title values =
     (if length values = 0 then []
      else newline @ title @ '':'' @ newline
        @ concat (map (\<lambda>v. if trim_space v \<noteq> [] then ''- '' @ trim_space v @ newline else []) values))"

definition prompt_block :: "string \<Rightarrow> string \<Rightarrow> string" where
  "prompt_block title value =
     (if value \<noteq> [] then newline @ title @ '':'' @ newline @ trim_space value @ newline else [])"

definition WorkerPrompt :: "gotime \<Rightarrow> agent_task \<Rightarrow> string" where
  "WorkerPrompt now t0 =
     (let t = task_Normalized now t0 in
      trim_space (''Role: '' @ at_Role t @ newline @ ''Kind: '' @ at_Kind t @ newline
        @ (if at_Stage t \<noteq> [] then ''Stage: '' @ at_Stage t @ newline else [])
        @ prompt_block ''Goal'' (at_Goal t) @ prompt_block ''Details'' (at_Description t)
        @ prompt_list ''Acceptance criteria'' (at_AcceptanceCriteria t)
        @ prompt_list ''Out of scope'' (at_OutOfScope t)
        @ prompt_list ''Blueprint nodes'' (at_BlueprintNodes t)
        @ prompt_list ''Allowed tools'' (at_Tools t)
        @ prompt_block ''Output contract'' (at_OutputContract t)
        @ (if IsReadOnly t then newline @ ''This task is read-only. Do not modify files.'' @ newline else [])))"

record team_task =
  tt_ID :: string
  tt_Name :: string
  tt_Description :: string
  tt_Kind :: string
  tt_Role :: string
  tt_Provider :: string
  tt_Model :: string
  tt_ReadOnly :: bool
  tt_Resources :: task_resources
  tt_Files :: "string list"
  tt_DependsOn :: "string list"
  tt_Status :: string
  tt_AssignedTo :: string
  tt_Result :: string
  tt_OutputPath :: string
  tt_ToolCalls :: int
  tt_Wave :: int
  tt_CreatedAt :: gotime
  tt_StartedAt :: gotime
  tt_FinishedAt :: gotime

definition ToTeamTask :: "gotime \<Rightarrow> agent_task \<Rightarrow> team_task" where
  "ToTeamTask now t0 =
     (let t = task_Normalized now t0 in
      \<lparr>tt_ID = at_ID t, tt_Name = at_Name t, tt_Description = WorkerPrompt now t, tt_Kind = at_Kind t,
       tt_Role = at_Role t, tt_Provider = at_Provider t, tt_Model = at_Model t, tt_ReadOnly = IsReadOnly t,
       tt_Resources = at_Resources t, tt_Files = at_Files t, tt_DependsOn = at_DependsOn t,
       tt_Status = [], tt_AssignedTo = [], tt_Result = [], tt_OutputPath = [], tt_ToolCalls = 0,
       tt_Wave = 0, tt_CreatedAt = at_CreatedAt t, tt_StartedAt = zero_time, tt_FinishedAt = zero_time\<rparr>)"

definition ToTeamTasks :: "gotime \<Rightarrow> team_plan \<Rightarrow> team_task list" where
  "ToTeamTasks now p = map (ToTeamTask now) (tp_Tasks p)"

section \<open>The plan skeleton\<close>

definition no_resources :: task_resources where
  "no_resources = \<lparr>tr_ModelSlots = 0, tr_ToolSlots = 0, tr_WebFetchSlots = 0, tr_TestSlots = 0\<rparr>"

text \<open>A composite literal of \<^verbatim>\<open>AgentTask\<close>: the fields it does not name are zero.\<close>

definition plan_task :: "string \<Rightarrow> string \<Rightarrow> string \<Rightarrow> string \<Rightarrow> string \<Rightarrow> string \<Rightarrow> string list \<Rightarrow> string
    \<Rightarrow> string list \<Rightarrow> bool \<Rightarrow> agent_task" where
  "plan_task i name kind stage role goal deps description files ro =
     \<lparr>at_ID = i, at_Name = name, at_Kind = kind, at_Stage = stage, at_Role = role, at_Goal = goal,
      at_Description = description, at_Files = files, at_DependsOn = deps, at_Tools = [],
      at_AcceptanceCriteria = [], at_OutOfScope = [], at_BlueprintNodes = [], at_OutputContract = [],
      at_ReadOnly = ro, at_Provider = [], at_Model = [], at_Priority = 0, at_Resources = no_resources,
      at_CreatedAt = zero_time\<rparr>"

definition plan_agent :: "string \<Rightarrow> string \<Rightarrow> bool \<Rightarrow> agent_spec" where
  "plan_agent i role ro = \<lparr>ag_ID = i, ag_Role = role, ag_Description = [], ag_SystemPrompt = [], ag_Tools = [],
     ag_ReadOnly = ro, ag_Provider = [], ag_Model = []\<rparr>"

definition daedalus_tasks :: "string \<Rightarrow> agent_task list" where
  "daedalus_tasks objective =
     [plan_task ''research'' ''Research approach'' TaskKindResearch ''research'' ''planner''
        ''Inspect the project and propose the smallest viable implementation plan.'' [] objective [] True,
      plan_task ''blueprint'' ''Define execution blueprint'' TaskKindBlueprint ''blueprint'' ''planner''
        ''Turn the approved approach into explicit task boundaries, dependencies, and verification evidence.''
        [''research''] objective [] True,
      plan_task ''implement'' ''Implement scoped change'' TaskKindImplement ''implement'' ''coder''
        ''Implement the scoped change with minimal edits.'' [''blueprint''] objective [''**''] False,
      plan_task ''review'' ''Review implementation'' TaskKindReview ''verify'' ''reviewer''
        ''Check correctness, scope drift, safety, and missing tests.'' [''implement''] objective [] True,
      plan_task ''verify'' ''Run verification'' TaskKindVerify ''verify'' ''tester''
        ''Run the configured verification command and report the exact result.'' [''review''] objective [] True]"

definition daedalus_stages :: "plan_stage list" where
  "daedalus_stages =
     [\<lparr>ps_ID = ''research'', ps_Name = ''Research and proposal'', ps_Kind = TaskKindResearch, ps_TaskIDs = [''research'']\<rparr>,
      \<lparr>ps_ID = ''blueprint'', ps_Name = ''Blueprint'', ps_Kind = TaskKindBlueprint, ps_TaskIDs = [''blueprint'']\<rparr>,
      \<lparr>ps_ID = ''implement'', ps_Name = ''Implementation'', ps_Kind = TaskKindImplement, ps_TaskIDs = [''implement'']\<rparr>,
      \<lparr>ps_ID = ''verify'', ps_Name = ''Review and verification'', ps_Kind = TaskKindVerify, ps_TaskIDs = [''review'', ''verify'']\<rparr>]"

definition NewDaedalusTeamPlan :: "string \<Rightarrow> string \<Rightarrow> team_plan" where
  "NewDaedalusTeamPlan name objective =
     (let n = trim_space name in
      \<lparr>tp_Version = 1, tp_Name = (if n = [] then ''daedalus-plan'' else n), tp_Objective = trim_space objective,
       tp_VerifyCommand = [],
       tp_Agents = [plan_agent ''planner'' ''planner'' True, plan_agent ''implementer'' ''coder'' False,
         plan_agent ''reviewer'' ''reviewer'' True],
       tp_Stages = daedalus_stages, tp_Tasks = daedalus_tasks objective, tp_Capacity = DefaultLocalCapacity\<rparr>)"

section \<open>Dependency cycles\<close>

type_synonym dep_graph = "string \<rightharpoonup> string list"

definition task_graph :: "agent_task list \<Rightarrow> dep_graph" where
  "task_graph tasks = map_of (rev (map (\<lambda>t. (at_ID t, at_DependsOn t)) tasks))"

text \<open>
  The recursive closure \<^verbatim>\<open>visit\<close> with the two maps it captures as a state, and the
  depth of the recursion as fuel: \<^const>\<open>None\<close> is a recursion deeper than the fuel.
\<close>

record visit_state =
  vs_visiting :: "string set"
  vs_visited :: "string set"

fun visit :: "nat \<Rightarrow> dep_graph \<Rightarrow> string \<Rightarrow> visit_state \<Rightarrow> (bool \<times> visit_state) option"
  and visit_deps :: "nat \<Rightarrow> dep_graph \<Rightarrow> string list \<Rightarrow> visit_state \<Rightarrow> (bool \<times> visit_state) option" where
  "visit 0 g i st = None"
| "visit (Suc n) g i st =
     (if i \<in> vs_visiting st then Some (True, st)
      else if i \<in> vs_visited st then Some (False, st)
      else (case visit_deps n g (case g i of None \<Rightarrow> [] | Some ds \<Rightarrow> ds) (st\<lparr>vs_visiting := insert i (vs_visiting st)\<rparr>) of
              None \<Rightarrow> None
            | Some (True, st') \<Rightarrow> Some (True, st')
            | Some (False, st') \<Rightarrow>
                Some (False, st'\<lparr>vs_visiting := vs_visiting st' - {i}, vs_visited := insert i (vs_visited st')\<rparr>)))"
| "visit_deps n g [] st = Some (False, st)"
| "visit_deps n g (d # ds) st =
     (if g d = None then visit_deps n g ds st
      else (case visit n g d st of
              None \<Rightarrow> None
            | Some (True, st') \<Rightarrow> Some (True, st')
            | Some (False, st') \<Rightarrow> visit_deps n g ds st'))"

fun visit_all :: "nat \<Rightarrow> dep_graph \<Rightarrow> string list \<Rightarrow> visit_state \<Rightarrow> bool option" where
  "visit_all n g [] st = Some False"
| "visit_all n g (i # is) st =
     (case visit n g i st of
        None \<Rightarrow> None
      | Some (True, _) \<Rightarrow> Some True
      | Some (False, st') \<Rightarrow> visit_all n g is st')"

text \<open>\<^verbatim>\<open>order\<close> is the order in which the outer loop ranges over the map.\<close>

definition hasTaskDependencyCycle :: "string list \<Rightarrow> agent_task list \<Rightarrow> bool option" where
  "hasTaskDependencyCycle order tasks =
     visit_all (length tasks + 2) (task_graph tasks) order \<lparr>vs_visiting = {}, vs_visited = {}\<rparr>"

section \<open>Validation\<close>

fun task_problems :: "string set \<Rightarrow> agent_task list \<Rightarrow> plan_problem list \<times> string set" where
  "task_problems ids [] = ([], ids)"
| "task_problems ids (t # ts) =
     (if at_ID t = [] then (let (ps, r) = task_problems ids ts in (TaskIDRequired # ps, r))
      else if at_ID t \<in> ids then (let (ps, r) = task_problems ids ts in (DuplicateTaskID (at_ID t) # ps, r))
      else
        let (ps, r) = task_problems (insert (at_ID t) ids) ts in
        ((if trim_space (at_Goal t) = [] \<and> trim_space (at_Description t) = [] then [NeedsGoal (at_ID t)] else [])
         @ (if \<not> IsReadOnly t \<and> length (at_Files t) = 0 then [NeedsFileScope (at_ID t)] else []) @ ps, r))"

definition dependency_problems :: "string set \<Rightarrow> agent_task \<Rightarrow> plan_problem list" where
  "dependency_problems ids t = concat (map (\<lambda>dep.
     (if dep \<notin> ids then [UnknownDependency (at_ID t) dep] else [])
     @ (if dep = at_ID t then [DependsOnItself (at_ID t)] else [])) (at_DependsOn t))"

fun stage_problems :: "string set \<Rightarrow> string set \<Rightarrow> plan_stage list \<Rightarrow> plan_problem list \<times> string set" where
  "stage_problems taskIDs sids [] = ([], sids)"
| "stage_problems taskIDs sids (s # ss) =
     (if ps_ID s = [] then (let (ps, r) = stage_problems taskIDs sids ss in (StageIDRequired # ps, r))
      else
        let (ps, r) = stage_problems taskIDs (insert (ps_ID s) sids) ss in
        ((if ps_ID s \<in> sids then [DuplicateStageID (ps_ID s)] else [])
         @ concat (map (\<lambda>tid. if tid \<notin> taskIDs then [UnknownStageTask (ps_ID s) tid] else []) (ps_TaskIDs s))
         @ ps, r))"

definition stage_reference_problems :: "string set \<Rightarrow> agent_task \<Rightarrow> plan_problem list" where
  "stage_reference_problems sids t =
     (if at_Stage t \<noteq> [] \<and> sids \<noteq> {} \<and> at_Stage t \<notin> sids then [UnknownStage (at_ID t) (at_Stage t)] else [])"

text \<open>The problems of a plan, \<^verbatim>\<open>[]\<close> being a nil error; \<^const>\<open>None\<close> if the search runs out of fuel.\<close>

definition ValidateTeamPlan :: "gotime \<Rightarrow> string list \<Rightarrow> team_plan \<Rightarrow> plan_problem list option" where
  "ValidateTeamPlan now order plan0 =
     (let plan = plan_Normalized now plan0;
          (p2, taskIDs) = task_problems {} (tp_Tasks plan);
          (p4, stageIDs) = stage_problems taskIDs {} (tp_Stages plan) in
      map_option (\<lambda>cycle.
          (if trim_space (tp_Objective plan) = [] then [ObjectiveRequired] else [])
          @ (if length (tp_Tasks plan) = 0 then [TaskRequired] else [])
          @ p2 @ concat (map (dependency_problems taskIDs) (tp_Tasks plan)) @ p4
          @ concat (map (stage_reference_problems stageIDs) (tp_Tasks plan))
          @ (if cycle then [DependencyCycle] else []))
        (hasTaskDependencyCycle order (tp_Tasks plan)))"

section \<open>Scheduling\<close>

definition dependenciesComplete :: "agent_task \<Rightarrow> (string \<Rightarrow> string) \<Rightarrow> bool" where
  "dependenciesComplete t statuses = list_all (\<lambda>dep. statuses dep = AgentTaskCompleted) (at_DependsOn t)"

definition taskModelSlots :: "agent_task \<Rightarrow> int" where
  "taskModelSlots t = (if tr_ModelSlots (at_Resources t) > 0 then tr_ModelSlots (at_Resources t) else 1)"

definition ownershipPrefix :: "string \<Rightarrow> string" where
  "ownershipPrefix pattern =
     trim_right_chars ''/'' (trim_suffix (trim_suffix (trim_suffix pattern ''/**'') ''/*'') ''*'')"

definition ownershipPatternsOverlap :: "string \<Rightarrow> string \<Rightarrow> bool" where
  "ownershipPatternsOverlap a0 b0 =
     (let a = trim_space a0; b = trim_space b0 in
      if a = [] \<or> b = [] then True
      else if a = b then True
      else has_prefix (ownershipPrefix a) (ownershipPrefix b) \<or> has_prefix (ownershipPrefix b) (ownershipPrefix a))"

definition fileScopesConflict :: "agent_task \<Rightarrow> agent_task \<Rightarrow> bool" where
  "fileScopesConflict a b =
     (if IsReadOnly a \<or> IsReadOnly b then False
      else if length (at_Files a) = 0 \<or> length (at_Files b) = 0 then True
      else list_ex (\<lambda>l. list_ex (\<lambda>r. ownershipPatternsOverlap l r) (at_Files b)) (at_Files a))"

definition conflictsWithAny :: "agent_task \<Rightarrow> agent_task list \<Rightarrow> bool" where
  "conflictsWithAny t others = list_ex (fileScopesConflict t) others"

text \<open>A map read of an absent key is the empty string, so the statuses are a total function.\<close>

definition runnable_candidates :: "gotime \<Rightarrow> agent_task list \<Rightarrow> (string \<Rightarrow> string) \<Rightarrow> agent_task list" where
  "runnable_candidates now tasks statuses =
     filter (\<lambda>t. (statuses (at_ID t) = [] \<or> statuses (at_ID t) = AgentTaskPending) \<and> dependenciesComplete t statuses)
       (map (task_Normalized now) tasks)"

fun select_tasks :: "capacity_config \<Rightarrow> agent_task list \<Rightarrow> int \<Rightarrow> int \<Rightarrow> agent_task list \<Rightarrow> agent_task list
    \<Rightarrow> agent_task list" where
  "select_tasks capacity running availableTasks slots selected [] = selected"
| "select_tasks capacity running availableTasks slots selected (t # ts) =
     (if int (length selected) \<ge> availableTasks then selected
      else if taskModelSlots t > slots then select_tasks capacity running availableTasks slots selected ts
      else if ca_FileScopeLock capacity \<and> conflictsWithAny t (running @ selected) then
        select_tasks capacity running availableTasks slots selected ts
      else select_tasks capacity running availableTasks (slots - taskModelSlots t) (selected @ [t]) ts)"

definition used_slots :: "agent_task list \<Rightarrow> int" where
  "used_slots running = foldl (\<lambda>used t. wrap_int (used + taskModelSlots t)) 0 running"

definition SelectRunnable :: "gotime \<Rightarrow> capacity_config \<Rightarrow> agent_task list \<Rightarrow> (string \<Rightarrow> string)
    \<Rightarrow> agent_task list \<Rightarrow> agent_task list" where
  "SelectRunnable now cap0 tasks statuses running =
     (let capacity = capacity_Normalized cap0 True;
          slots = wrap_int (ca_ModelSlots capacity - used_slots running) in
      if slots \<le> 0 then []
      else
        let candidates = sort_key (\<lambda>t. (- at_Priority t, at_ID t)) (runnable_candidates now tasks statuses);
            limit = ModelTaskLimit capacity (ca_MaxParallelTasks capacity) in
        if int (length running) \<ge> limit then []
        else select_tasks capacity running (limit - int (length running)) slots [] candidates)"

end
