(* ===== verification/Team_Laws.thy ===== *)
theory Team_Laws
  imports Team_Plan
begin

text \<open>
  The laws of team plans: the search for dependency cycles decides cyclicity of the dependency
  graph whatever the map order, the scheduler never oversubscribes slots nor admits two
  writers of overlapping scopes, and validation accepts the plans it should.
\<close>

section \<open>The dependency graph\<close>

definition dep_edges :: "dep_graph \<Rightarrow> (string \<times> string) set" where
  "dep_edges g = {(i, d). \<exists>ds. g i = Some ds \<and> d \<in> set ds \<and> g d \<noteq> None}"

definition dep_cyclic :: "dep_graph \<Rightarrow> bool" where
  "dep_cyclic g \<longleftrightarrow> (\<exists>i. (i, i) \<in> (dep_edges g)\<^sup>+)"

text \<open>A set of nodes that is finished: closed under dependencies and free of cycles.\<close>

definition finished :: "dep_graph \<Rightarrow> string set \<Rightarrow> bool" where
  "finished g D \<longleftrightarrow> dep_edges g `` D \<subseteq> D \<and> (\<forall>i \<in> D. (i, i) \<notin> (dep_edges g)\<^sup>+)"

lemma closed_reach: "(x, y) \<in> r\<^sup>+ \<Longrightarrow> r `` D \<subseteq> D \<Longrightarrow> x \<in> D \<Longrightarrow> y \<in> D"
  by (induction rule: trancl_induct) auto

lemma finished_insert:
  assumes "finished g D" and "i \<notin> D" and "\<And>d. (i, d) \<in> dep_edges g \<Longrightarrow> d \<in> D"
  shows "finished g (insert i D)"
proof -
  have "(i, i) \<notin> (dep_edges g)\<^sup>+"
  proof
    assume "(i, i) \<in> (dep_edges g)\<^sup>+"
    then obtain d where "(i, d) \<in> dep_edges g" "(d, i) \<in> (dep_edges g)\<^sup>*" by (auto dest: tranclD)
    with assms(3) have "d \<in> D" by blast
    moreover have "dep_edges g `` D \<subseteq> D" using assms(1) by (simp add: finished_def)
    ultimately have "i \<in> D"
      using \<open>(d, i) \<in> (dep_edges g)\<^sup>*\<close> closed_reach [of d i "dep_edges g" D] by (auto simp: rtrancl_eq_or_trancl)
    with assms(2) show False ..
  qed
  with assms show ?thesis by (auto simp: finished_def)
qed

section \<open>The search\<close>

text \<open>What a search step owes its caller, for a stack \<^verbatim>\<open>V\<close> and finished nodes \<^verbatim>\<open>D\<close>.\<close>

definition search_pre :: "dep_graph \<Rightarrow> visit_state \<Rightarrow> bool" where
  "search_pre g st \<longleftrightarrow> finite (dom g) \<and> vs_visiting st \<subseteq> dom g \<and> finished g (vs_visited st)
     \<and> vs_visiting st \<inter> vs_visited st = {}"

definition search_post :: "dep_graph \<Rightarrow> visit_state \<Rightarrow> string set \<Rightarrow> (bool \<times> visit_state) option \<Rightarrow> bool" where
  "search_post g st goals r \<longleftrightarrow> (case r of
     None \<Rightarrow> False
   | Some (b, st') \<Rightarrow>
       if b then dep_cyclic g
       else vs_visiting st' = vs_visiting st \<and> vs_visited st \<subseteq> vs_visited st' \<and> goals \<subseteq> vs_visited st'
         \<and> search_pre g st')"

definition room :: "dep_graph \<Rightarrow> visit_state \<Rightarrow> nat" where
  "room g st = card (dom g - vs_visiting st)"

lemma room_insert:
  assumes "search_pre g st" and "i \<in> dom g" and "i \<notin> vs_visiting st"
  shows "Suc (room g (st\<lparr>vs_visiting := insert i (vs_visiting st)\<rparr>)) = room g st"
proof -
  have "dom g - insert i (vs_visiting st) = (dom g - vs_visiting st) - {i}" by blast
  moreover have "Suc (card ((dom g - vs_visiting st) - {i})) = card (dom g - vs_visiting st)"
    using assms by (intro card_Suc_Diff1) (auto simp: search_pre_def)
  ultimately show ?thesis by (simp only: room_def) simp
qed

lemma search_postE:
  assumes "search_post g st goals r"
  obtains (cycle) st' where "r = Some (True, st')" "dep_cyclic g"
  | (fin) st' where "r = Some (False, st')" "vs_visiting st' = vs_visiting st" "vs_visited st \<subseteq> vs_visited st'"
      "goals \<subseteq> vs_visited st'" "search_pre g st'"
  using assms by (auto simp: search_post_def split: option.splits if_splits)

text \<open>One node on top of the search of its dependencies, and one dependency before the others.\<close>

lemma search_node:
  assumes deps: "search_post g (st\<lparr>vs_visiting := insert i (vs_visiting st)\<rparr>) (set ds \<inter> dom g)
      (visit_deps n g ds (st\<lparr>vs_visiting := insert i (vs_visiting st)\<rparr>))"
    and i: "g i = Some ds" "search_pre g st" "i \<notin> vs_visiting st" "i \<notin> vs_visited st"
  shows "search_post g st {i} (visit (Suc n) g i st)"
  using deps
proof (cases rule: search_postE)
  case (cycle st')
  with i show ?thesis by (simp add: search_post_def)
next
  case (fin st')
  then have "finished g (insert i (vs_visited st'))"
    using i by (intro finished_insert) (auto simp: search_pre_def dep_edges_def)
  with fin i show ?thesis by (auto simp: search_post_def search_pre_def)
qed

lemma search_edge:
  assumes first: "search_post g st {d} (visit n g d st)" and d: "g d \<noteq> None"
    and rest: "\<And>st'. visit n g d st = Some (False, st') \<Longrightarrow> search_pre g st' \<Longrightarrow> vs_visiting st' = vs_visiting st
      \<Longrightarrow> search_post g st' (set ds \<inter> dom g) (visit_deps n g ds st')"
  shows "search_post g st (set (d # ds) \<inter> dom g) (visit_deps n g (d # ds) st)"
  using first
proof (cases rule: search_postE)
  case (cycle st')
  with d show ?thesis by (auto simp: search_post_def)
next
  case one: (fin st')
  from rest [OF one(1) one(5) one(2)] show ?thesis
  proof (cases rule: search_postE)
    case (cycle st'')
    with one d show ?thesis by (auto simp: search_post_def)
  next
    case (fin st'')
    moreover from one fin have "vs_visited st \<subseteq> vs_visited st''" "set (d # ds) \<inter> dom g \<subseteq> vs_visited st''" by auto
    ultimately show ?thesis using one d by (auto simp: search_post_def)
  qed
qed

lemma visit_search:
  "search_pre g st \<Longrightarrow> i \<in> dom g \<Longrightarrow> room g st < n \<Longrightarrow> (\<And>v. v \<in> vs_visiting st \<Longrightarrow> (v, i) \<in> (dep_edges g)\<^sup>+)
     \<Longrightarrow> search_post g st {i} (visit n g i st)"
  "search_pre g st \<Longrightarrow> parent \<in> dom g \<Longrightarrow> set ds \<subseteq> set (the (g parent)) \<Longrightarrow> room g st < n
     \<Longrightarrow> (\<And>v. v \<in> vs_visiting st \<Longrightarrow> (v, parent) \<in> (dep_edges g)\<^sup>*)
     \<Longrightarrow> search_post g st (set ds \<inter> dom g) (visit_deps n g ds st)"
proof (induction n g i st and n g ds st arbitrary: and parent rule: visit_visit_deps.induct)
  case (2 n g i st)
  let ?st = "st\<lparr>vs_visiting := insert i (vs_visiting st)\<rparr>"
  obtain ds where ds: "g i = Some ds" using "2.prems"(2) by auto
  show ?case
  proof (cases "i \<in> vs_visiting st \<or> i \<in> vs_visited st")
    case True
    with "2.prems" show ?thesis by (auto simp: search_post_def dep_cyclic_def)
  next
    case False
    have "search_pre g ?st" using "2.prems"(1,2) False by (auto simp: search_pre_def)
    then have "search_post g ?st (set ds \<inter> dom g) (visit_deps n g ds ?st)"
      using "2.IH" [of i] False "2.prems" ds room_insert [OF "2.prems"(1,2)]
      by (auto intro: trancl_into_rtrancl)
    with ds "2.prems"(1) False show ?thesis by (intro search_node) auto
  qed
next
  case (4 n g d ds st)
  show ?case
  proof (cases "g d = None")
    case True
    with "4.IH"(1) "4.prems" show ?thesis by (auto simp: domIff)
  next
    case False
    have edge: "(parent, d) \<in> dep_edges g"
      using False "4.prems"(2,3) by (auto simp: dep_edges_def)
    show ?thesis
    proof (rule search_edge)
      show "g d \<noteq> None" by (rule False)
    next
      show "search_post g st {d} (visit n g d st)"
        using "4.IH"(2) [OF False "4.prems"(1)] False "4.prems"(4,5) edge
        by (auto intro: rtrancl_into_trancl1)
    next
      fix st'
      assume r: "visit n g d st = Some (False, st')" "search_pre g st'" "vs_visiting st' = vs_visiting st"
      then show "search_post g st' (set ds \<inter> dom g) (visit_deps n g ds st')"
        using "4.IH"(3) [OF False r(1) refl] "4.prems" by (auto simp: room_def)
    qed
  qed
qed (simp_all add: search_post_def)

lemma visit_all_search:
  "search_pre g st \<Longrightarrow> vs_visiting st = {} \<Longrightarrow> card (dom g) < n \<Longrightarrow> set is \<subseteq> dom g \<Longrightarrow>
     (visit_all n g is st = Some True \<and> dep_cyclic g)
     \<or> (visit_all n g is st = Some False \<and> (\<exists>D. finished g D \<and> vs_visited st \<union> set is \<subseteq> D))"
proof (induction n g "is" st rule: visit_all.induct)
  case (1 n g st)
  then show ?case by (auto simp: search_pre_def)
next
  case (2 n g i "is" st)
  have "search_post g st {i} (visit n g i st)"
    using 2 by (intro visit_search(1)) (auto simp: room_def)
  then show ?case
  proof (cases rule: search_postE)
    case (cycle st')
    then show ?thesis by simp
  next
    case (fin st')
    with "2.prems" have "(visit_all n g is st' = Some True \<and> dep_cyclic g)
      \<or> (visit_all n g is st' = Some False \<and> (\<exists>D. finished g D \<and> vs_visited st' \<union> set is \<subseteq> D))"
      by (intro "2.IH" [OF fin(1)]) auto
    then show ?thesis
    proof (elim disjE conjE exE)
      fix D
      assume "visit_all n g is st' = Some False" "finished g D" "vs_visited st' \<union> set is \<subseteq> D"
      moreover have "vs_visited st \<union> set (i # is) \<subseteq> D"
        using fin(3,4) \<open>vs_visited st' \<union> set is \<subseteq> D\<close> by auto
      ultimately show ?thesis using fin(1) by auto
    qed (use fin(1) in simp)
  qed
qed

lemma task_graph_dom: "dom (task_graph tasks) = at_ID ` set tasks"
  by (simp add: task_graph_def dom_map_of_conv_image_fst image_image)

lemma task_graph_edges: "dep_edges (task_graph tasks) \<subseteq> dom (task_graph tasks) \<times> dom (task_graph tasks)"
  by (auto simp: dep_edges_def)

lemma finished_all_acyclic: "finished g D \<Longrightarrow> dom g \<subseteq> D \<Longrightarrow> \<not> dep_cyclic g"
proof
  assume "finished g D" "dom g \<subseteq> D" "dep_cyclic g"
  then obtain i where i: "(i, i) \<in> (dep_edges g)\<^sup>+" by (auto simp: dep_cyclic_def)
  then have "i \<in> dom g" by (auto dest!: tranclD simp: dep_edges_def)
  with i \<open>finished g D\<close> \<open>dom g \<subseteq> D\<close> show False by (auto simp: finished_def)
qed

lemma hasTaskDependencyCycle_decides:
  assumes "set order = at_ID ` set tasks"
  shows "hasTaskDependencyCycle order tasks = Some (dep_cyclic (task_graph tasks))"
proof -
  let ?g = "task_graph tasks" and ?st = "\<lparr>vs_visiting = {}, vs_visited = {}\<rparr>"
  have "card (dom ?g) \<le> length tasks"
    using card_length [of "map at_ID tasks"] by (simp add: task_graph_dom)
  moreover have "search_pre ?g ?st"
    by (auto simp: search_pre_def finished_def task_graph_dom)
  ultimately have "(visit_all (length tasks + 2) ?g order ?st = Some True \<and> dep_cyclic ?g)
      \<or> (visit_all (length tasks + 2) ?g order ?st = Some False \<and> (\<exists>D. finished ?g D \<and> set order \<subseteq> D))"
    using visit_all_search [of ?g ?st "length tasks + 2" order] assms by (simp add: task_graph_dom)
  then show ?thesis
    using assms finished_all_acyclic [of ?g] by (auto simp: task_graph_dom hasTaskDependencyCycle_def)
qed

section \<open>The scheduler\<close>

definition total_slots :: "agent_task list \<Rightarrow> int" where
  "total_slots ts = sum_list (map taskModelSlots ts)"

lemma taskModelSlots_pos: "0 < taskModelSlots t"
  by (simp add: taskModelSlots_def)

lemma total_slots_simps [simp]:
  "total_slots [] = 0" "total_slots (t # ts) = taskModelSlots t + total_slots ts"
  "total_slots (xs @ ys) = total_slots xs + total_slots ys"
  by (simp_all add: total_slots_def)

lemma total_slots_nonneg: "0 \<le> total_slots ts"
  by (induction ts) (simp_all add: add_nonneg_nonneg less_imp_le [OF taskModelSlots_pos])

lemma used_slots_total: "total_slots running \<le> max_int \<Longrightarrow> used_slots running = total_slots running"
proof -
  have "0 \<le> u \<Longrightarrow> u + total_slots running \<le> max_int \<Longrightarrow>
      foldl (\<lambda>used t. wrap_int (used + taskModelSlots t)) u running = u + total_slots running" for u
  proof (induction running arbitrary: u)
    case (Cons t ts)
    have t: "0 < taskModelSlots t" "0 \<le> total_slots ts" by (rule taskModelSlots_pos, rule total_slots_nonneg)
    with Cons.prems have "wrap_int (u + taskModelSlots t) = u + taskModelSlots t" by (intro wrap_int_id) auto
    with Cons.IH [of "u + taskModelSlots t"] Cons.prems t show ?case by simp
  qed simp
  from this [of 0] show "total_slots running \<le> max_int \<Longrightarrow> used_slots running = total_slots running"
    by (simp add: used_slots_def)
qed

text \<open>What the loop adds to the tasks selected so far.\<close>

definition admissible :: "capacity_config \<Rightarrow> agent_task list \<Rightarrow> int \<Rightarrow> int \<Rightarrow> agent_task list \<Rightarrow> agent_task list
    \<Rightarrow> agent_task list \<Rightarrow> bool" where
  "admissible cap run avail slots sel ts extra \<longleftrightarrow> set extra \<subseteq> set ts
    \<and> total_slots extra \<le> slots \<and> (extra \<noteq> [] \<longrightarrow> int (length (sel @ extra)) \<le> avail)
    \<and> (ca_FileScopeLock cap \<longrightarrow> (\<forall>i < length extra. \<not> conflictsWithAny (extra ! i) (run @ sel @ take i extra)))"

lemma admissible_Nil: "0 \<le> slots \<Longrightarrow> admissible cap run avail slots sel ts []"
  by (simp add: admissible_def)

lemma admissible_skip: "admissible cap run avail slots sel ts extra \<Longrightarrow> admissible cap run avail slots sel (t # ts) extra"
  by (auto simp: admissible_def)

lemma admissible_take:
  assumes "admissible cap run avail (slots - taskModelSlots t) (sel @ [t]) ts extra"
    and "int (length sel) < avail" and "\<not> (ca_FileScopeLock cap \<and> conflictsWithAny t (run @ sel))"
  shows "admissible cap run avail slots sel (t # ts) (t # extra)"
proof -
  have "\<not> conflictsWithAny ((t # extra) ! i) (run @ sel @ take i (t # extra))"
    if "ca_FileScopeLock cap" "i < length (t # extra)" for i
    using that assms by (cases i) (auto simp: admissible_def)
  moreover have "int (length (sel @ t # extra)) \<le> avail"
    using assms by (cases "extra = []") (auto simp: admissible_def)
  ultimately show ?thesis using assms by (auto simp: admissible_def)
qed

lemma select_tasks_spec:
  "0 \<le> slots \<Longrightarrow> \<exists>extra. select_tasks cap run avail slots sel ts = sel @ extra
     \<and> admissible cap run avail slots sel ts extra"
proof (induction cap run avail slots sel ts rule: select_tasks.induct)
  case (1 cap run avail slots sel)
  then show ?case by (simp add: admissible_Nil)
next
  case (2 cap run avail slots sel t ts)
  consider "int (length sel) \<ge> avail"
    | "\<not> int (length sel) \<ge> avail" "taskModelSlots t > slots"
    | "\<not> int (length sel) \<ge> avail" "\<not> taskModelSlots t > slots" "ca_FileScopeLock cap \<and> conflictsWithAny t (run @ sel)"
    | "\<not> int (length sel) \<ge> avail" "\<not> taskModelSlots t > slots" "\<not> (ca_FileScopeLock cap \<and> conflictsWithAny t (run @ sel))"
    by blast
  then show ?case
  proof cases
    case 1
    with "2.prems" show ?thesis by (simp add: admissible_Nil)
  next
    case 2
    with "2.IH"(1) "2.prems" show ?thesis by (auto intro: admissible_skip)
  next
    case 3
    with "2.IH"(2) "2.prems" show ?thesis by (auto intro: admissible_skip)
  next
    case 4
    with "2.IH"(3) "2.prems" obtain extra where
      "select_tasks cap run avail (slots - taskModelSlots t) (sel @ [t]) ts = (sel @ [t]) @ extra"
      "admissible cap run avail (slots - taskModelSlots t) (sel @ [t]) ts extra" by force
    with 4 show ?thesis by (intro exI [of _ "t # extra"]) (auto intro: admissible_take)
  qed
qed

lemma Normalized_slots: "0 < ca_ModelSlots (capacity_Normalized c local)" "0 < ca_MaxParallelTasks (capacity_Normalized c local)"
  by (simp_all add: capacity_Normalized_def DefaultLocalCapacity_def DefaultCloudCapacity_def Let_def)

lemma ModelTaskLimit_bounds:
  "0 < ModelTaskLimit c f \<and> (ca_ModelSlots c > 0 \<longrightarrow> ModelTaskLimit c f \<le> ca_ModelSlots c)
     \<and> (ca_MaxParallelTasks c > 0 \<longrightarrow> ModelTaskLimit c f \<le> ca_MaxParallelTasks c)"
  by (auto simp: ModelTaskLimit_def Let_def)

section \<open>Observations on the code\<close>

text \<open>A blank task identifier is replaced before the check for it, which therefore never fires.\<close>

lemma task_problems_named: "\<forall>t \<in> set ts. at_ID t \<noteq> [] \<Longrightarrow> TaskIDRequired \<notin> set (fst (task_problems ids ts))"
  by (induction ids ts rule: task_problems.induct) (auto simp: Let_def split: prod.splits if_splits)

lemma stage_problems_no_task: "TaskIDRequired \<notin> set (fst (stage_problems ids sids ss))"
  by (induction ids sids ss rule: stage_problems.induct) (auto simp: Let_def split: prod.splits if_splits)

lemma task_id_never_required:
  assumes "ValidateTeamPlan now order plan = Some ps"
  shows "TaskIDRequired \<notin> set ps"
proof -
  have "\<forall>t \<in> set (tp_Tasks (plan_Normalized now plan)). at_ID t \<noteq> []"
    by (auto simp: plan_Normalized_def task_Normalized_def Let_def)
  from task_problems_named [OF this] have tasks: "TaskIDRequired \<notin> set (fst (task_problems {} (tp_Tasks (plan_Normalized now plan))))" .
  show ?thesis
    using assms tasks stage_problems_no_task
    by (auto simp: ValidateTeamPlan_def dependency_problems_def stage_reference_problems_def Let_def
        split: prod.splits if_splits) (metis fst_conv)+
qed

section \<open>Properties\<close>

text \<open>
  C25. The search for dependency cycles terminates and is right: for every order in which the
  map of tasks is ranged over, it returns, within a recursion depth of the number of tasks
  plus two, whether some task depends on itself through known tasks.
\<close>

theorem cycle_search_decides:
  assumes "set order = at_ID ` set tasks"
  shows "hasTaskDependencyCycle order tasks = Some (\<exists>i. (i, i) \<in> (dep_edges (task_graph tasks))\<^sup>+)"
  using hasTaskDependencyCycle_decides [OF assms] by (simp add: dep_cyclic_def)

definition sample_task :: "string \<Rightarrow> string list \<Rightarrow> agent_task" where
  "sample_task i ds = \<lparr>at_ID = i, at_Name = i, at_Kind = TaskKindImplement, at_Stage = [], at_Role = ''coder'',
     at_Goal = ''g'', at_Description = [], at_Files = [''src/'' @ i @ ''/**''], at_DependsOn = ds, at_Tools = [],
     at_AcceptanceCriteria = [], at_OutOfScope = [], at_BlueprintNodes = [], at_OutputContract = [],
     at_ReadOnly = False, at_Provider = [], at_Model = [], at_Priority = 0,
     at_Resources = \<lparr>tr_ModelSlots = 1, tr_ToolSlots = 0, tr_WebFetchSlots = 0, tr_TestSlots = 0\<rparr>, at_CreatedAt = 1\<rparr>"

theorem cycle_search_decides_witness:
  "\<exists>i. (i, i) \<in> (dep_edges (task_graph [sample_task ''a'' [''b''], sample_task ''b'' [''a'']]))\<^sup>+"
proof -
  have "set [''b'', ''a''] = at_ID ` set [sample_task ''a'' [''b''], sample_task ''b'' [''a'']]"
    by (auto simp: sample_task_def)
  from cycle_search_decides [OF this]
  have "hasTaskDependencyCycle [''b'', ''a''] [sample_task ''a'' [''b''], sample_task ''b'' [''a'']]
    = Some (\<exists>i. (i, i) \<in> (dep_edges (task_graph [sample_task ''a'' [''b''], sample_task ''b'' [''a'']]))\<^sup>+)" .
  moreover have "hasTaskDependencyCycle [''b'', ''a''] [sample_task ''a'' [''b''], sample_task ''b'' [''a'']] = Some True"
    by code_simp
  ultimately show ?thesis by simp
qed

text \<open>
  C26. The scheduler is safe: the tasks it selects are pending with all dependencies completed,
  together with the running ones they fit the model slots and the task limit, and under the
  file lock no selected task conflicts with a running one or with one selected before it.
\<close>

theorem schedule_safe:
  assumes "total_slots running \<le> max_int" and "ca_ModelSlots cap \<le> max_int"
    and sel: "sel = SelectRunnable now cap tasks statuses running" and "sel \<noteq> []"
  defines "c \<equiv> capacity_Normalized cap True"
  shows "total_slots running + total_slots sel \<le> ca_ModelSlots c
    \<and> int (length running + length sel) \<le> ModelTaskLimit c (ca_MaxParallelTasks c)
    \<and> list_all (\<lambda>t. t \<in> task_Normalized now ` set tasks \<and> statuses (at_ID t) \<in> {[], AgentTaskPending}
        \<and> dependenciesComplete t statuses) sel
    \<and> (ca_FileScopeLock c \<longrightarrow>
        (\<forall>i < length sel. \<not> conflictsWithAny (sel ! i) (running @ take i sel)))"
proof -
  let ?limit = "ModelTaskLimit c (ca_MaxParallelTasks c)"
  let ?slots = "ca_ModelSlots c - total_slots running"
  let ?cands = "sort_key (\<lambda>t. (- at_Priority t, at_ID t)) (runnable_candidates now tasks statuses)"
  have "ca_ModelSlots c \<le> max_int" "0 < ca_ModelSlots c"
    using assms(2) Normalized_slots(1) [of cap True]
    by (auto simp: c_def capacity_Normalized_def DefaultLocalCapacity_def Let_def)
  then have "wrap_int (ca_ModelSlots c - used_slots running) = ?slots"
    using assms(1) total_slots_nonneg [of running] by (simp add: used_slots_total)
  then have go: "?slots > 0" "int (length running) < ?limit"
    and eq: "sel = select_tasks c running (?limit - int (length running)) ?slots [] ?cands"
    using sel assms(4) unfolding SelectRunnable_def c_def [symmetric] by (auto simp: Let_def split: if_splits)
  from select_tasks_spec [of ?slots c running "?limit - int (length running)" "[]" ?cands] go(1) assms(4)
  have "set sel \<subseteq> set ?cands" "total_slots sel \<le> ?slots" "int (length sel) \<le> ?limit - int (length running)"
    "ca_FileScopeLock c \<longrightarrow> (\<forall>i < length sel. \<not> conflictsWithAny (sel ! i) (running @ take i sel))"
    by (auto simp: eq [symmetric] admissible_def)
  then show ?thesis by (auto simp: list_all_iff runnable_candidates_def)
qed

definition sample_capacity :: capacity_config where
  "sample_capacity = DefaultLocalCapacity\<lparr>ca_ModelSlots := 2\<rparr>"

theorem schedule_safe_witness:
  "total_slots [sample_task ''a'' []] + total_slots
     (SelectRunnable 0 sample_capacity [sample_task ''b'' [], sample_task ''c'' []] (\<lambda>_. []) [sample_task ''a'' []])
   \<le> ca_ModelSlots (capacity_Normalized sample_capacity True)"
proof -
  have "SelectRunnable 0 sample_capacity [sample_task ''b'' [], sample_task ''c'' []] (\<lambda>_. []) [sample_task ''a'' []] \<noteq> []"
    by code_simp
  moreover have "total_slots [sample_task ''a'' []] \<le> max_int" "ca_ModelSlots sample_capacity \<le> max_int" by code_simp+
  ultimately show ?thesis using schedule_safe [OF _ _ refl] by blast
qed

lemma select_first_fit:
  "t \<in> set ts \<Longrightarrow> taskModelSlots t \<le> slots \<Longrightarrow> 0 < avail \<Longrightarrow> select_tasks cap [] avail slots [] ts \<noteq> []"
proof (induction ts)
  case (Cons u ts)
  show ?case
  proof (cases "taskModelSlots u \<le> slots")
    case True
    then obtain extra where "select_tasks cap [] avail (slots - taskModelSlots u) [u] ts = [u] @ extra"
      using select_tasks_spec [of "slots - taskModelSlots u" cap "[]" avail "[u]" ts] by auto
    with True Cons.prems show ?thesis by (simp add: conflictsWithAny_def)
  next
    case False
    with Cons show ?thesis by auto
  qed
qed simp

text \<open>
  C27. The scheduler makes progress: with nothing running, as long as some pending task has its
  dependencies completed and needs no more model slots than there are, at least one task is
  selected; so a plan is never stuck on capacity or locks alone.
\<close>

theorem schedule_progress:
  assumes "t \<in> set (runnable_candidates now tasks statuses)"
    and "taskModelSlots t \<le> ca_ModelSlots (capacity_Normalized cap True)" and "ca_ModelSlots cap \<le> max_int"
  shows "SelectRunnable now cap tasks statuses [] \<noteq> []"
proof -
  let ?c = "capacity_Normalized cap True"
  have "0 < ca_ModelSlots ?c" "ca_ModelSlots ?c \<le> max_int"
    using assms(3) Normalized_slots(1) [of cap True]
    by (auto simp: capacity_Normalized_def DefaultLocalCapacity_def Let_def)
  then have "wrap_int (ca_ModelSlots ?c - used_slots []) = ca_ModelSlots ?c"
    by (simp add: used_slots_def)
  moreover have "0 < ModelTaskLimit ?c (ca_MaxParallelTasks ?c)" using ModelTaskLimit_bounds by blast
  moreover from this have "select_tasks ?c [] (ModelTaskLimit ?c (ca_MaxParallelTasks ?c)) (ca_ModelSlots ?c) []
      (sort_key (\<lambda>t. (- at_Priority t, at_ID t)) (runnable_candidates now tasks statuses)) \<noteq> []"
    using assms(1,2) by (intro select_first_fit [of t]) auto
  ultimately show ?thesis
    using \<open>0 < ca_ModelSlots ?c\<close> by (simp add: SelectRunnable_def Let_def)
qed

theorem schedule_progress_witness:
  "SelectRunnable 0 sample_capacity [sample_task ''b'' [''a''], sample_task ''a'' []] (\<lambda>_. []) [] \<noteq> []"
proof (rule schedule_progress)
  show "sample_task ''a'' [] \<in> set (runnable_candidates 0 [sample_task ''b'' [''a''], sample_task ''a'' []] (\<lambda>_. []))"
    by code_simp
qed (code_simp)+

definition zero_capacity :: capacity_config where
  "zero_capacity = \<lparr>ca_ModelSlots = 0, ca_ToolSlots = 0, ca_WebFetchSlots = 0, ca_TestSlots = 0,
     ca_MaxParallelTasks = 0, ca_FileScopeLock = False, ca_FileScopeLockConfigured = False\<rparr>"

text \<open>
  A saved capacity loads back with the same effect: decoding what was encoded gives the
  same slots and the same file lock, and normalises to the same capacity, for local and cloud
  defaults; a disabled lock survives exactly if it was configured.
\<close>

theorem capacity_roundtrip:
  "let d = capacity_UnmarshalJSON (capacity_MarshalJSON c) zero_capacity in
     d\<lparr>ca_FileScopeLockConfigured := ca_FileScopeLockConfigured c\<rparr> = c
     \<and> (capacity_Normalized d local)\<lparr>ca_FileScopeLockConfigured := False\<rparr>
         = (capacity_Normalized c local)\<lparr>ca_FileScopeLockConfigured := False\<rparr>"
  by (auto simp: capacity_UnmarshalJSON_def capacity_MarshalJSON_def capacity_Normalized_def zero_capacity_def Let_def)

lemma daedalus_literals:
  "map trim_space [''research'', ''blueprint'', ''implement'', ''review'', ''verify'']
     = [''research'', ''blueprint'', ''implement'', ''review'', ''verify'']"
  by code_simp

text \<open>The edges of the skeleton go down this rank, so it has no cycle.\<close>

definition daedalus_order :: "string list" where
  "daedalus_order = [''research'', ''blueprint'', ''implement'', ''review'', ''verify'']"

lemma daedalus_graph: "task_graph (map (task_Normalized now) (daedalus_tasks objective))
    = map_of (rev [(''research'', []), (''blueprint'', [''research'']), (''implement'', [''blueprint'']),
        (''review'', [''implement'']), (''verify'', [''review''])])"
  using daedalus_literals
  by (simp add: task_graph_def daedalus_tasks_def plan_task_def task_Normalized_def Let_def)

lemma daedalus_no_cycle:
  "hasTaskDependencyCycle daedalus_order (map (task_Normalized now) (daedalus_tasks objective)) = Some False"
proof -
  have "visit_all 7 (map_of (rev [(''research'', []), (''blueprint'', [''research'']), (''implement'', [''blueprint'']),
        (''review'', [''implement'']), (''verify'', [''review''])])) daedalus_order
      \<lparr>vs_visiting = {}, vs_visited = {}\<rparr> = Some False" by code_simp
  moreover have "length (map (task_Normalized now) (daedalus_tasks objective)) + 2 = 7"
    by (simp add: daedalus_tasks_def)
  ultimately show ?thesis by (simp only: hasTaskDependencyCycle_def daedalus_graph)
qed

text \<open>The parts of validation, each from a condition on all tasks or stages.\<close>

lemma task_problems_none:
  "distinct (map at_ID ts) \<Longrightarrow> at_ID ` set ts \<inter> ids = {} \<Longrightarrow>
     \<forall>t \<in> set ts. at_ID t \<noteq> [] \<and> trim_space (at_Goal t) \<noteq> [] \<and> (IsReadOnly t \<or> at_Files t \<noteq> []) \<Longrightarrow>
     task_problems ids ts = ([], ids \<union> at_ID ` set ts)"
  by (induction ts arbitrary: ids) auto

lemma dependency_problems_none:
  "set (at_DependsOn t) \<subseteq> ids - {at_ID t} \<Longrightarrow> dependency_problems ids t = []"
  by (auto simp: dependency_problems_def)

lemma stage_problems_none:
  "distinct (map ps_ID ss) \<Longrightarrow> ps_ID ` set ss \<inter> sids = {} \<Longrightarrow>
     \<forall>s \<in> set ss. ps_ID s \<noteq> [] \<and> set (ps_TaskIDs s) \<subseteq> ids \<Longrightarrow>
     stage_problems ids sids ss = ([], sids \<union> ps_ID ` set ss)"
  by (induction ss arbitrary: sids) auto

definition daedalus_task_ok :: "agent_task \<Rightarrow> bool" where
  "daedalus_task_ok t \<longleftrightarrow> at_ID t \<noteq> [] \<and> trim_space (at_Goal t) \<noteq> [] \<and> (IsReadOnly t \<or> at_Files t \<noteq> [])
     \<and> set (at_DependsOn t) \<subseteq> set daedalus_order - {at_ID t}
     \<and> at_Stage t \<in> {''research'', ''blueprint'', ''implement'', ''verify''}"

lemma daedalus_tasks_ok:
  "list_all daedalus_task_ok (map (task_Normalized now) (daedalus_tasks objective))"
  "map at_ID (map (task_Normalized now) (daedalus_tasks objective)) = daedalus_order"
proof -
  have goals: "list_all (\<lambda>g. trim_space g \<noteq> []) (map at_Goal (daedalus_tasks []))"
    by code_simp
  show ids: "map at_ID (map (task_Normalized now) (daedalus_tasks objective)) = daedalus_order"
    using daedalus_literals
    by (simp add: daedalus_tasks_def plan_task_def task_Normalized_def Let_def daedalus_order_def)
  have "list_all (\<lambda>t. trim_space (at_Goal t) \<noteq> []) (daedalus_tasks objective)"
    using goals by (simp add: daedalus_tasks_def plan_task_def)
  moreover have "list_all (\<lambda>t. trim_space (at_ID t) = at_ID t \<and> at_ID t \<noteq> [] \<and> at_Kind t \<noteq> []
      \<and> (IsReadOnly t \<or> at_Files t \<noteq> []) \<and> set (at_DependsOn t) \<subseteq> set daedalus_order - {at_ID t}
      \<and> at_Stage t \<in> {''research'', ''blueprint'', ''implement'', ''verify''}) (daedalus_tasks objective)"
    using daedalus_literals
    by (simp add: daedalus_tasks_def plan_task_def daedalus_order_def IsReadOnly_def)
  ultimately show "list_all daedalus_task_ok (map (task_Normalized now) (daedalus_tasks objective))"
    by (auto simp: list_all_iff daedalus_task_ok_def task_Normalized_def IsReadOnly_def Let_def)
qed

lemma daedalus_stages_trim:
  "map (\<lambda>s. s\<lparr>ps_ID := trim_space (ps_ID s), ps_Name := trim_space (ps_Name s)\<rparr>) daedalus_stages = daedalus_stages"
  by code_simp

text \<open>
  The plan skeleton is a valid plan: for every name and every objective that is not
  blank, validation of the skeleton reports no problem, whatever the map order.
\<close>

theorem daedalus_plan_valid:
  assumes "trim_space objective \<noteq> []" and "set order = set daedalus_order"
  shows "ValidateTeamPlan now order (NewDaedalusTeamPlan name objective) = Some []"
proof -
  let ?tasks = "map (task_Normalized now) (daedalus_tasks objective)"
  have ids: "at_ID ` set ?tasks = set daedalus_order"
    using daedalus_tasks_ok(2) [of now objective] by (metis set_map)
  have "hasTaskDependencyCycle order ?tasks = Some False"
    using daedalus_no_cycle [of now objective] hasTaskDependencyCycle_decides [of order ?tasks]
      hasTaskDependencyCycle_decides [of daedalus_order ?tasks] assms(2) ids by simp
  moreover have "task_problems {} ?tasks = ([], set daedalus_order)"
    using task_problems_none [of ?tasks "{}"] daedalus_tasks_ok [of now objective] ids
    by (simp add: list_all_iff daedalus_task_ok_def daedalus_order_def del: map_map)
  moreover have "\<forall>t \<in> set ?tasks. dependency_problems (set daedalus_order) t = []"
    using daedalus_tasks_ok(1) [of now objective]
    by (auto simp: list_all_iff daedalus_task_ok_def intro!: dependency_problems_none)
  moreover have "stage_problems (set daedalus_order) {} daedalus_stages = ([], {''research'', ''blueprint'', ''implement'', ''verify''})"
    using stage_problems_none [of daedalus_stages "{}" "set daedalus_order"]
    by (simp add: daedalus_stages_def daedalus_order_def insert_commute)
  moreover have "\<forall>t \<in> set ?tasks. stage_reference_problems {''research'', ''blueprint'', ''implement'', ''verify''} t = []"
    using daedalus_tasks_ok(1) [of now objective]
    by (auto simp: list_all_iff daedalus_task_ok_def stage_reference_problems_def)
  moreover have "?tasks \<noteq> []" by (simp add: daedalus_tasks_def)
  ultimately show ?thesis
    using assms(1)
    by (simp add: ValidateTeamPlan_def NewDaedalusTeamPlan_def plan_Normalized_def daedalus_stages_trim Let_def)
qed

theorem daedalus_plan_valid_witness:
  "ValidateTeamPlan 0 daedalus_order (NewDaedalusTeamPlan [] ''ship'') = Some []"
  by (rule daedalus_plan_valid) (code_simp, rule refl)

end
