(* ===== verification/Team_Waves.thy ===== *)
theory Team_Waves
  imports Team_Laws
begin

text \<open>
  The wave planner of \<^verbatim>\<open>internal/agent/team.go\<close>: Kahn's algorithm that groups tasks into
  waves, the selection of batches inside a wave under the capacity, and the ownership of files
  by running tasks. Running the tasks themselves (goroutines, providers, timers) is not
  modelled. The map of in-degrees is a partial map over the task identifiers; the loop that
  empties it has fuel, and \<^const>\<open>None\<close> stands for a loop that is still running.
\<close>

datatype wave_error = CircularDependency

section \<open>Waves\<close>

definition degree_of :: "(string \<rightharpoonup> int) \<Rightarrow> string \<Rightarrow> int" where
  "degree_of m i = (case m i of None \<Rightarrow> 0 | Some n \<Rightarrow> n)"

definition add_degree :: "(string \<rightharpoonup> int) \<Rightarrow> team_task \<Rightarrow> (string \<rightharpoonup> int)" where
  "add_degree m t = m(tt_ID t \<mapsto> degree_of m (tt_ID t) + int (length (tt_DependsOn t)))"

definition inDegree0 :: "team_task list \<Rightarrow> (string \<rightharpoonup> int)" where
  "inDegree0 tasks = foldl add_degree Map.empty tasks"

definition dependents :: "team_task list \<Rightarrow> string \<Rightarrow> string list" where
  "dependents tasks dep = concat (map (\<lambda>t. map (\<lambda>_. tt_ID t) (filter (\<lambda>d. d = dep) (tt_DependsOn t))) tasks)"

text \<open>\<^verbatim>\<open>inDegree[dep]--\<close>, which creates an absent key.\<close>

definition dec_degree :: "(string \<rightharpoonup> int) \<Rightarrow> string \<Rightarrow> (string \<rightharpoonup> int)" where
  "dec_degree m x = m(x \<mapsto> degree_of m x - 1)"

definition remove_one :: "team_task list \<Rightarrow> (string \<rightharpoonup> int) \<Rightarrow> string \<Rightarrow> (string \<rightharpoonup> int)" where
  "remove_one tasks m i = foldl dec_degree (m(i := None)) (dependents tasks i)"

definition remove_processed :: "team_task list \<Rightarrow> (string \<rightharpoonup> int) \<Rightarrow> string list \<Rightarrow> (string \<rightharpoonup> int)" where
  "remove_processed tasks m current = foldl (remove_one tasks) m current"

fun split_wave :: "nat \<Rightarrow> nat \<Rightarrow> string list \<Rightarrow> string list list" where
  "split_wave 0 width current = []"
| "split_wave (Suc n) width current =
     (if current = [] then [] else take width current # split_wave n width (drop width current))"

text \<open>
  The loop splits a level of \<^verbatim>\<open>length current\<close> tasks in at most that many pieces; with a
  width of 0 it would not end. \<^verbatim>\<open>NewTeam\<close> replaces a width that is not positive by 5.
\<close>

fun wave_loop :: "nat \<Rightarrow> nat \<Rightarrow> team_task list \<Rightarrow> (string \<rightharpoonup> int) \<Rightarrow> string list list
    \<Rightarrow> (string list list \<times> wave_error option) option" where
  "wave_loop 0 width tasks m waves = None"
| "wave_loop (Suc n) width tasks m waves =
     (let live = filter (\<lambda>i. m i \<noteq> None) (remdups (map tt_ID tasks)) in
      if live = [] then Some (waves, None)
      else
        let current = sort (filter (\<lambda>i. m i = Some 0) live) in
        if current = [] then Some (waves, Some CircularDependency)
        else if width = 0 then None
        else wave_loop n width tasks (remove_processed tasks m current)
               (waves @ split_wave (length current) width current))"

definition NewTeam_MaxWaveSize :: "int \<Rightarrow> int" where
  "NewTeam_MaxWaveSize configured = (if configured \<le> 0 then 5 else configured)"

text \<open>
  \<^verbatim>\<open>taskMap\<close> holds the last task with an identifier: that one gets its wave number, also for the
  waves found before a circular dependency is reported.
\<close>

fun set_wave :: "int \<Rightarrow> team_task list \<Rightarrow> string \<Rightarrow> team_task list" where
  "set_wave k [] i = []"
| "set_wave k (t # ts) i =
     (if tt_ID t = i \<and> i \<notin> tt_ID ` set ts then t\<lparr>tt_Wave := k\<rparr> # ts else t # set_wave k ts i)"

fun assign_waves :: "int \<Rightarrow> string list list \<Rightarrow> team_task list \<Rightarrow> team_task list" where
  "assign_waves k [] tasks = tasks"
| "assign_waves k (w # ws) tasks = assign_waves (k + 1) ws (foldl (set_wave k) tasks w)"

definition ComputeWaves :: "int \<Rightarrow> team_task list \<Rightarrow> (team_task list \<times> (wave_error + string list list)) option" where
  "ComputeWaves maxWaveSize tasks =
     (case wave_loop (Suc (length tasks)) (nat maxWaveSize) tasks (inDegree0 tasks) [] of
        None \<Rightarrow> None
      | Some (waves, err) \<Rightarrow> Some (assign_waves 0 waves tasks,
          (case err of None \<Rightarrow> Inr waves | Some e \<Rightarrow> Inl e)))"

definition AddTask :: "gotime \<Rightarrow> team_task \<Rightarrow> team_task list \<Rightarrow> team_task list" where
  "AddTask now task tasks = tasks @ [task\<lparr>tt_Status := ''pending'', tt_CreatedAt := now\<rparr>]"

section \<open>Batches\<close>

definition teamTaskResources :: "team_task \<Rightarrow> task_resources" where
  "teamTaskResources t =
     (let r = tt_Resources t; r1 = (if tr_ModelSlots r \<le> 0 then r\<lparr>tr_ModelSlots := 1\<rparr> else r) in
      if tr_TestSlots r1 \<le> 0 \<and> tt_Kind t = TaskKindVerify then r1\<lparr>tr_TestSlots := 1\<rparr> else r1)"

definition resourceSlotFits :: "int \<Rightarrow> int \<Rightarrow> int \<Rightarrow> bool" where
  "resourceSlotFits limit used need \<longleftrightarrow> limit \<le> 0 \<or> wrap_int (used + need) \<le> limit"

definition resourcesFit :: "capacity_config \<Rightarrow> task_resources \<Rightarrow> task_resources \<Rightarrow> bool" where
  "resourcesFit cap used need \<longleftrightarrow>
     resourceSlotFits (ca_ModelSlots cap) (tr_ModelSlots used) (tr_ModelSlots need)
     \<and> resourceSlotFits (ca_ToolSlots cap) (tr_ToolSlots used) (tr_ToolSlots need)
     \<and> resourceSlotFits (ca_WebFetchSlots cap) (tr_WebFetchSlots used) (tr_WebFetchSlots need)
     \<and> resourceSlotFits (ca_TestSlots cap) (tr_TestSlots used) (tr_TestSlots need)"

definition teamTasksConflict :: "team_task \<Rightarrow> team_task \<Rightarrow> bool" where
  "teamTasksConflict a b =
     (if tt_ReadOnly a \<or> tt_ReadOnly b then False
      else if length (tt_Files a) = 0 \<or> length (tt_Files b) = 0 then True
      else list_ex (\<lambda>l. list_ex (\<lambda>r. ownershipPatternsOverlap l r) (tt_Files b)) (tt_Files a))"

definition conflictsWithSelectedTeamTask :: "team_task \<Rightarrow> team_task list \<Rightarrow> bool" where
  "conflictsWithSelectedTeamTask t selected = list_ex (teamTasksConflict t) selected"

definition add_resources :: "task_resources \<Rightarrow> task_resources \<Rightarrow> task_resources" where
  "add_resources used need =
     \<lparr>tr_ModelSlots = wrap_int (tr_ModelSlots used + tr_ModelSlots need),
      tr_ToolSlots = wrap_int (tr_ToolSlots used + tr_ToolSlots need),
      tr_WebFetchSlots = wrap_int (tr_WebFetchSlots used + tr_WebFetchSlots need),
      tr_TestSlots = wrap_int (tr_TestSlots used + tr_TestSlots need)\<rparr>"

fun batch_loop :: "capacity_config \<Rightarrow> task_resources \<Rightarrow> team_task list \<Rightarrow> team_task list \<Rightarrow> team_task list" where
  "batch_loop cap used selected [] = selected"
| "batch_loop cap used selected (t # ts) =
     (if ca_MaxParallelTasks cap > 0 \<and> int (length selected) \<ge> ca_MaxParallelTasks cap then selected
      else if \<not> resourcesFit cap used (teamTaskResources t) then batch_loop cap used selected ts
      else if ca_FileScopeLock cap \<and> conflictsWithSelectedTeamTask t selected then batch_loop cap used selected ts
      else batch_loop cap (add_resources used (teamTaskResources t)) (selected @ [t]) ts)"

definition selectWaveBatch :: "capacity_config \<Rightarrow> team_task list \<Rightarrow> team_task list" where
  "selectWaveBatch cap0 tasks =
     (let cap = (if ca_MaxParallelTasks cap0 \<le> 0 then capacity_Normalized cap0 False else cap0) in
      batch_loop cap no_resources [] (sort_key tt_ID tasks))"

section \<open>Ownership\<close>

definition matchesOwnership :: "string \<Rightarrow> string \<Rightarrow> bool" where
  "matchesOwnership filePath pattern =
     (if has_suffix pattern ''/**'' \<or> has_suffix pattern ''/*''
      then has_prefix filePath (trim_right_chars ''/*'' pattern)
      else filePath = pattern)"

text \<open>The task that owns the file against the worker, if any.\<close>

definition CheckFileOwnership :: "team_task list \<Rightarrow> string \<Rightarrow> string \<Rightarrow> team_task option" where
  "CheckFileOwnership tasks workerID filePath =
     find (\<lambda>t. \<not> (tt_AssignedTo t = workerID \<or> tt_Status t \<noteq> ''running'')
       \<and> list_ex (matchesOwnership filePath) (tt_Files t)) tasks"

section \<open>Degrees\<close>

definition deps_of :: "team_task list \<Rightarrow> string \<Rightarrow> string list" where
  "deps_of tasks i = concat (map tt_DependsOn (filter (\<lambda>t. tt_ID t = i) tasks))"

definition open_deps :: "team_task list \<Rightarrow> string set \<Rightarrow> string \<Rightarrow> int" where
  "open_deps tasks P i = int (length (filter (\<lambda>d. d \<notin> P) (deps_of tasks i)))"

lemma deps_of_Cons [simp]:
  "deps_of (t # ts) i = (if tt_ID t = i then tt_DependsOn t @ deps_of ts i else deps_of ts i)"
  by (simp add: deps_of_def)

lemma degree_of_simps [simp]: "m i = Some n \<Longrightarrow> degree_of m i = n" "m i = None \<Longrightarrow> degree_of m i = 0"
  "degree_of (m(j \<mapsto> n)) i = (if i = j then n else degree_of m i)"
  by (simp_all add: degree_of_def)

lemma degree_updates:
  "add_degree m t i = (if i = tt_ID t then Some (degree_of m i + int (length (tt_DependsOn t))) else m i)"
  "degree_of (add_degree m t) i = (if i = tt_ID t then degree_of m i + int (length (tt_DependsOn t)) else degree_of m i)"
  "dec_degree m x i = (if i = x then Some (degree_of m i - 1) else m i)"
  "degree_of (dec_degree m x) i = (if i = x then degree_of m i - 1 else degree_of m i)"
  by (simp_all add: add_degree_def dec_degree_def degree_of_def)

lemma foldl_add_degree:
  "foldl add_degree m tasks i =
     (if i \<in> tt_ID ` set tasks then Some (degree_of m i + int (length (deps_of tasks i))) else m i)"
proof (induction tasks arbitrary: m)
  case (Cons t ts)
  have "i \<notin> tt_ID ` set ts \<Longrightarrow> deps_of ts i = []" by (auto simp: deps_of_def)
  with Cons show ?case by (auto simp: degree_updates(1) [of m t i]
      degree_updates(1) [of m t "tt_ID t"] degree_updates(2))
qed simp

lemma inDegree0_spec:
  "inDegree0 tasks i = (if i \<in> tt_ID ` set tasks then Some (int (length (deps_of tasks i))) else None)"
  by (simp add: inDegree0_def foldl_add_degree)

lemma count_dependents: "count_list (dependents tasks d) i = count_list (deps_of tasks i) d"
proof (induction tasks)
  case (Cons t ts)
  have "count_list (map (\<lambda>_. tt_ID t) (filter (\<lambda>e. e = d) xs)) i = (if tt_ID t = i then count_list xs d else 0)" for xs
    by (induction xs) auto
  with Cons show ?case by (simp add: dependents_def)
qed (simp add: dependents_def deps_of_def)

lemma foldl_dec_degree:
  "foldl dec_degree m xs i = (if i \<in> set xs
     then Some (degree_of m i - int (count_list xs i)) else m i)"
proof (induction xs arbitrary: m)
  case (Cons x xs)
  have "i \<notin> set xs \<Longrightarrow> count_list xs i = 0" by simp
  with Cons show ?case by (auto simp: degree_updates(3) [of m x i]
      degree_updates(3) [of m x x] degree_updates(4))
qed simp

lemma filter_count: "e \<notin> P \<Longrightarrow> int (length (filter (\<lambda>d. d \<noteq> e \<and> d \<notin> P) xs)) =
    int (length (filter (\<lambda>d. d \<notin> P) xs)) - int (count_list xs e)"
  by (induction xs) auto

lemma open_deps_insert: "d \<notin> P \<Longrightarrow> open_deps tasks (insert d P) i = open_deps tasks P i - int (count_list (deps_of tasks i) d)"
  by (simp add: open_deps_def filter_count)

lemma open_deps_0: "open_deps tasks P i = 0 \<longleftrightarrow> set (deps_of tasks i) \<subseteq> P"
  by (auto simp: open_deps_def filter_empty_conv)

section \<open>The loop\<close>

text \<open>The map holds the open dependencies of the tasks that are not processed yet.\<close>

definition degrees_ok :: "team_task list \<Rightarrow> string set \<Rightarrow> (string \<rightharpoonup> int) \<Rightarrow> bool" where
  "degrees_ok tasks P m \<longleftrightarrow>
     (\<forall>i. m i = (if i \<in> tt_ID ` set tasks - P then Some (open_deps tasks P i) else None))"

definition ready :: "team_task list \<Rightarrow> string set \<Rightarrow> string set" where
  "ready tasks P = {i \<in> tt_ID ` set tasks - P. set (deps_of tasks i) \<subseteq> P}"

lemma degrees_start: "degrees_ok tasks {} (inDegree0 tasks)"
  by (simp add: degrees_ok_def inDegree0_spec open_deps_def)

lemma dependents_set: "i \<in> set (dependents tasks d) \<longleftrightarrow> d \<in> set (deps_of tasks i)"
  using count_dependents [of tasks d i] by (metis count_list_0_iff)

lemma deps_of_id: "deps_of tasks i \<noteq> [] \<Longrightarrow> i \<in> tt_ID ` set tasks"
  by (auto simp: deps_of_def)

text \<open>Removing one processed task; no task in \<^verbatim>\<open>P\<close> waits for it.\<close>

lemma degrees_remove:
  assumes "degrees_ok tasks P m" and "d \<notin> P" and "\<And>i. i \<in> P \<Longrightarrow> d \<notin> set (deps_of tasks i)" and "d \<notin> set (deps_of tasks d)"
  shows "degrees_ok tasks (insert d P) (remove_one tasks m d)"
  unfolding degrees_ok_def remove_one_def
proof
  fix i
  show "foldl dec_degree (m(d := None)) (dependents tasks d) i
    = (if i \<in> tt_ID ` set tasks - insert d P then Some (open_deps tasks (insert d P) i) else None)"
  proof (cases "d \<in> set (deps_of tasks i)")
    case True
    then have "i \<in> tt_ID ` set tasks" by (intro deps_of_id) auto
    moreover have "i \<noteq> d" "i \<notin> P" using True assms(3,4) by auto
    moreover from calculation have "m i = Some (open_deps tasks P i)"
      using assms(1) by (simp add: degrees_ok_def)
    ultimately show ?thesis
      using True assms(2) by (simp add: foldl_dec_degree dependents_set count_dependents open_deps_insert degree_of_def)
  next
    case False
    then have "open_deps tasks (insert d P) i = open_deps tasks P i"
      using assms(2) by (simp add: open_deps_insert)
    with False assms(1) show ?thesis by (simp add: foldl_dec_degree dependents_set degrees_ok_def)
  qed
qed

lemma degrees_remove_all:
  "degrees_ok tasks P m \<Longrightarrow> distinct current \<Longrightarrow> set current \<inter> P = {} \<Longrightarrow>
     (\<forall>i \<in> P \<union> set current. set (deps_of tasks i) \<inter> set current = {}) \<Longrightarrow>
     degrees_ok tasks (P \<union> set current) (remove_processed tasks m current)"
  unfolding remove_processed_def
proof (induction current arbitrary: P m)
  case (Cons d ds)
  have "degrees_ok tasks (insert d P) (remove_one tasks m d)"
    using Cons.prems by (intro degrees_remove) auto
  from Cons.IH [OF this] Cons.prems show ?case by auto
qed simp

lemma ready_current:
  assumes "degrees_ok tasks P m" and "P \<subseteq> tt_ID ` set tasks"
  shows "set (filter (\<lambda>i. m i \<noteq> None) (remdups (map tt_ID tasks))) = tt_ID ` set tasks - P"
    and "set (filter (\<lambda>i. m i = Some 0) (filter (\<lambda>i. m i \<noteq> None) (remdups (map tt_ID tasks)))) = ready tasks P"
  using assms by (auto simp: degrees_ok_def ready_def open_deps_0 split: if_splits)

text \<open>
  The levels the loop goes through: a run over \<^verbatim>\<open>P\<close> takes the ready tasks, until none is left
  or none is ready.
\<close>

inductive levels :: "team_task list \<Rightarrow> string set \<Rightarrow> string list list \<Rightarrow> bool \<Rightarrow> bool" for tasks where
  all_done: "tt_ID ` set tasks - P = {} \<Longrightarrow> levels tasks P [] True"
| stuck: "tt_ID ` set tasks - P \<noteq> {} \<Longrightarrow> ready tasks P = {} \<Longrightarrow> levels tasks P [] False"
| level: "set l = ready tasks P \<Longrightarrow> l \<noteq> [] \<Longrightarrow> distinct l \<Longrightarrow> levels tasks (P \<union> set l) ls b \<Longrightarrow> levels tasks P (l # ls) b"

lemma wave_loop_levels:
  assumes "degrees_ok tasks P m" and "P \<subseteq> tt_ID ` set tasks" and "card (tt_ID ` set tasks - P) < n" and "width \<noteq> 0"
    and "\<And>i. i \<in> P \<Longrightarrow> set (deps_of tasks i) \<subseteq> P"
  shows "\<exists>ls b. levels tasks P ls b
    \<and> wave_loop n width tasks m waves = Some (waves @ concat (map (\<lambda>l. split_wave (length l) width l) ls),
        if b then None else Some CircularDependency)"
  using assms
proof (induction n arbitrary: P m waves)
  case (Suc n)
  define live where "live = filter (\<lambda>i. m i \<noteq> None) (remdups (map tt_ID tasks))"
  define l where "l = sort (filter (\<lambda>i. m i = Some 0) live)"
  have step: "wave_loop (Suc n) width tasks m waves = (if live = [] then Some (waves, None)
      else if l = [] then Some (waves, Some CircularDependency)
      else wave_loop n width tasks (remove_processed tasks m l) (waves @ split_wave (length l) width l))"
    using Suc.prems(4) by (simp add: live_def l_def Let_def)
  have live: "set live = tt_ID ` set tasks - P" and l: "set l = ready tasks P" "distinct l"
    using ready_current [OF Suc.prems(1,2)] by (simp_all add: live_def l_def)
  consider "live = []" | "live \<noteq> []" "l = []" | "live \<noteq> []" "l \<noteq> []" by blast
  then show ?case
  proof cases
    case 1
    with live step show ?thesis by (intro exI [of _ "[]"] exI [of _ True]) (auto intro: all_done)
  next
    case 2
    with live l(1) step show ?thesis by (intro exI [of _ "[]"] exI [of _ False]) (auto intro!: stuck)
  next
    case 3
    have fresh: "set l \<inter> P = {}" "set l \<subseteq> tt_ID ` set tasks" and deps: "\<And>i. i \<in> set l \<Longrightarrow> set (deps_of tasks i) \<subseteq> P"
      unfolding l(1) by (auto simp: ready_def)
    have deg: "degrees_ok tasks (P \<union> set l) (remove_processed tasks m l)"
      using fresh deps Suc.prems(5) by (intro degrees_remove_all [OF Suc.prems(1) l(2)]) blast+
    have "hd l \<in> set l" using 3 by simp
    then have "tt_ID ` set tasks - (P \<union> set l) \<subset> tt_ID ` set tasks - P" using fresh by blast
    then have "card (tt_ID ` set tasks - (P \<union> set l)) < card (tt_ID ` set tasks - P)"
      by (intro psubset_card_mono) simp_all
    with Suc.prems(3) have room: "card (tt_ID ` set tasks - (P \<union> set l)) < n" by simp
    have sub: "P \<union> set l \<subseteq> tt_ID ` set tasks" using fresh Suc.prems(2) by blast
    have closed: "\<And>i. i \<in> P \<union> set l \<Longrightarrow> set (deps_of tasks i) \<subseteq> P \<union> set l"
      using deps Suc.prems(5) by blast
    obtain ls b where ls: "levels tasks (P \<union> set l) ls b"
      "wave_loop n width tasks (remove_processed tasks m l) (waves @ split_wave (length l) width l) =
        Some ((waves @ split_wave (length l) width l) @ concat (map (\<lambda>l. split_wave (length l) width l) ls),
          if b then None else Some CircularDependency)"
      using Suc.IH [OF deg sub room Suc.prems(4) closed, of "waves @ split_wave (length l) width l"] by auto
    with 3 step level [OF l(1) 3(2) l(2) ls(1)] show ?thesis
      by (intro exI [of _ "l # ls"] exI [of _ b]) simp
  qed
qed simp

section \<open>What the waves are\<close>

fun layered :: "team_task list \<Rightarrow> string set \<Rightarrow> string list list \<Rightarrow> bool" where
  "layered tasks P [] = True"
| "layered tasks P (w # ws) = ((\<forall>i \<in> set w. set (deps_of tasks i) \<subseteq> P) \<and> layered tasks (P \<union> set w) ws)"

text \<open>A plan can be scheduled if its dependencies are known tasks and go down some rank.\<close>

definition ranked :: "team_task list \<Rightarrow> (string \<Rightarrow> nat) \<Rightarrow> bool" where
  "ranked tasks rank \<longleftrightarrow> (\<forall>i \<in> tt_ID ` set tasks. \<forall>d \<in> set (deps_of tasks i). d \<in> tt_ID ` set tasks \<and> rank d < rank i)"

lemma layered_mono: "layered tasks P ws \<Longrightarrow> P \<subseteq> Q \<Longrightarrow> layered tasks Q ws"
proof (induction ws arbitrary: P Q)
  case (Cons w ws)
  then have "layered tasks (Q \<union> set w) ws" by (auto intro: Cons.IH)
  with Cons.prems show ?case by auto
qed simp

lemma layered_append: "layered tasks P (xs @ ys) \<longleftrightarrow> layered tasks P xs \<and> layered tasks (P \<union> set (concat xs)) ys"
  by (induction xs arbitrary: P) (simp_all add: Un_assoc)

lemma layered_nth:
  "layered tasks P ws \<Longrightarrow> j < length ws \<Longrightarrow> i \<in> set (ws ! j) \<Longrightarrow> d \<in> set (deps_of tasks i) \<Longrightarrow>
     d \<in> P \<or> (\<exists>k < j. d \<in> set (ws ! k))"
proof (induction ws arbitrary: P j)
  case (Cons w ws)
  show ?case
  proof (cases j)
    case 0
    with Cons.prems show ?thesis by auto
  next
    case (Suc j')
    with Cons.IH [of "P \<union> set w" j'] Cons.prems
    consider "d \<in> P" | "d \<in> set w" | k where "k < j'" "d \<in> set (ws ! k)" by auto
    then show ?thesis
    proof cases
      case 2
      with Suc show ?thesis by (intro disjI2 exI [of _ 0]) simp
    next
      case (3 k)
      with Suc show ?thesis by (intro disjI2 exI [of _ "Suc k"]) simp
    qed simp
  qed
qed simp

lemma split_wave_spec:
  "0 < width \<Longrightarrow> length l \<le> n \<Longrightarrow> concat (split_wave n width l) = l
     \<and> (\<forall>w \<in> set (split_wave n width l). w \<noteq> [] \<and> length w \<le> width)"
proof (induction n width l rule: split_wave.induct)
  case (2 n width l)
  then have "length (drop width l) \<le> n" by simp
  with 2 show ?case by (auto simp: append_take_drop_id)
qed simp

lemma layered_split:
  assumes "\<forall>i \<in> set l. set (deps_of tasks i) \<subseteq> P"
  shows "layered tasks P (split_wave n width l)"
  using assms
proof (induction n width l arbitrary: P rule: split_wave.induct)
  case (2 n width l)
  have "layered tasks P (split_wave n width (drop width l))" if "l \<noteq> []"
    using 2 that by (auto dest: in_set_dropD)
  with "2.prems" show ?case by (auto dest: in_set_takeD intro: layered_mono)
qed simp

definition waves_of :: "nat \<Rightarrow> string list list \<Rightarrow> string list list" where
  "waves_of width ls = concat (map (\<lambda>l. split_wave (length l) width l) ls)"

lemma waves_of_concat: "0 < width \<Longrightarrow> concat (waves_of width ls) = concat ls"
  by (induction ls) (simp_all add: waves_of_def split_wave_spec)

lemma waves_of_pieces:
  assumes "0 < width" and "w \<in> set (waves_of width ls)"
  shows "w \<noteq> [] \<and> length w \<le> width"
proof -
  from assms(2) obtain l where "w \<in> set (split_wave (length l) width l)" by (auto simp: waves_of_def)
  with split_wave_spec [OF assms(1), of l "length l"] show ?thesis by blast
qed

lemma levels_layered: "levels tasks P ls b \<Longrightarrow> 0 < width \<Longrightarrow> layered tasks P (waves_of width ls)"
proof (induction rule: levels.induct)
  case (level l P ls b)
  have "layered tasks P (split_wave (length l) width l)"
    using level.hyps(1) by (intro layered_split) (auto simp: ready_def)
  with level split_wave_spec [of width l "length l"] show ?case
    by (simp add: waves_of_def layered_append)
qed (simp_all add: waves_of_def)

lemma levels_set:
  "levels tasks P ls b \<Longrightarrow> distinct (concat ls) \<and> set (concat ls) \<inter> P = {} \<and> set (concat ls) \<subseteq> tt_ID ` set tasks"
proof (induction rule: levels.induct)
  case (level l P ls b)
  have "set l \<inter> P = {}" "set l \<subseteq> tt_ID ` set tasks" using level.hyps(1) by (auto simp: ready_def)
  with level.IH level.hyps(3) show ?case by auto
qed simp_all

lemma levels_end:
  "levels tasks P ls b \<Longrightarrow> (if b then tt_ID ` set tasks \<subseteq> P \<union> set (concat ls)
     else tt_ID ` set tasks - (P \<union> set (concat ls)) \<noteq> {} \<and> ready tasks (P \<union> set (concat ls)) = {})"
proof (induction rule: levels.induct)
  case (level l P ls b)
  have "P \<union> set (concat (l # ls)) = P \<union> set l \<union> set (concat ls)" by auto
  with level.IH show ?case by (simp only:)
qed auto

lemma stuck_not_ranked:
  assumes "tt_ID ` set tasks - P \<noteq> {}" and "ready tasks P = {}"
  shows "\<not> ranked tasks rank"
proof
  assume r: "ranked tasks rank"
  define i where "i = arg_min_on rank (tt_ID ` set tasks - P)"
  have i: "i \<in> tt_ID ` set tasks - P" and least: "\<And>j. j \<in> tt_ID ` set tasks - P \<Longrightarrow> rank i \<le> rank j"
    unfolding i_def using assms(1) arg_min_if_finite(1) [of "tt_ID ` set tasks - P" rank]
      arg_min_least [of "tt_ID ` set tasks - P" _ rank] by auto
  with assms(2) obtain d where "d \<in> set (deps_of tasks i)" "d \<notin> P" by (auto simp: ready_def)
  moreover from this r i have "d \<in> tt_ID ` set tasks" "rank d < rank i" unfolding ranked_def by blast+
  ultimately show False using least [of d] by simp
qed

lemma waves_ranked:
  assumes "layered tasks {} ws" and "set (concat ws) = tt_ID ` set tasks" and "distinct (concat ws)"
  shows "\<exists>rank. ranked tasks rank"
proof -
  define rank where "rank i = (LEAST j. j < length ws \<and> i \<in> set (ws ! j))" for i
  have in_wave: "rank i < length ws \<and> i \<in> set (ws ! rank i)" if "i \<in> tt_ID ` set tasks" for i
  proof -
    from that assms(2) obtain w where "w \<in> set ws" "i \<in> set w" by auto
    then obtain j where "j < length ws \<and> i \<in> set (ws ! j)" by (metis in_set_conv_nth)
    then show ?thesis unfolding rank_def by (rule LeastI)
  qed
  have "d \<in> tt_ID ` set tasks \<and> rank d < rank i" if "i \<in> tt_ID ` set tasks" "d \<in> set (deps_of tasks i)" for i d
  proof -
    from layered_nth [OF assms(1) _ _ that(2), of "rank i"] in_wave [OF that(1)]
    obtain k where k: "k < rank i" "d \<in> set (ws ! k)" by auto
    with in_wave [OF that(1)] have "k < length ws" by simp
    with k have "rank d \<le> k" unfolding rank_def by (intro Least_le) simp
    moreover have "d \<in> tt_ID ` set tasks"
      unfolding assms(2) [symmetric] using k(2) \<open>k < length ws\<close> by (auto intro: nth_mem)
    ultimately show ?thesis using k(1) by simp
  qed
  then show ?thesis by (auto simp: ranked_def)
qed

section \<open>Wave numbers\<close>

lemma set_wave_ids [simp]: "map tt_ID (set_wave k ts i) = map tt_ID ts"
  by (induction k ts i rule: set_wave.induct) simp_all

lemma foldl_set_wave_ids [simp]: "map tt_ID (foldl (set_wave k) ts w) = map tt_ID ts"
  by (induction w arbitrary: ts) simp_all

lemma assign_waves_ids [simp]: "map tt_ID (assign_waves k ws ts) = map tt_ID ts"
  by (induction k ws ts rule: assign_waves.induct) simp_all

lemma set_wave_distinct:
  "distinct (map tt_ID ts) \<Longrightarrow> set_wave k ts i = map (\<lambda>t. if tt_ID t = i then t\<lparr>tt_Wave := k\<rparr> else t) ts"
proof (induction k ts i rule: set_wave.induct)
  case (2 k t ts i)
  have "map (\<lambda>t. if tt_ID t = i then t\<lparr>tt_Wave := k\<rparr> else t) ts = ts" if "i \<notin> tt_ID ` set ts"
    using that by (intro map_idI) auto
  with 2 show ?case by auto
qed simp

lemma foldl_set_wave:
  "distinct (map tt_ID ts) \<Longrightarrow> foldl (set_wave k) ts w = map (\<lambda>t. if tt_ID t \<in> set w then t\<lparr>tt_Wave := k\<rparr> else t) ts"
proof (induction w arbitrary: ts)
  case (Cons i w)
  have "distinct (map tt_ID (set_wave k ts i))" using Cons.prems by simp
  from Cons.IH [OF this] Cons.prems show ?case
    by (auto simp: set_wave_distinct comp_def)
qed simp

lemma assign_waves_keeps:
  "distinct (map tt_ID ts) \<Longrightarrow> t \<in> set (assign_waves k ws ts) \<Longrightarrow> tt_ID t \<notin> set (concat ws) \<Longrightarrow> t \<in> set ts"
proof (induction k ws ts rule: assign_waves.induct)
  case (2 k w ws ts)
  then have "t \<in> set (foldl (set_wave k) ts w)" by simp
  with 2(2,4) show ?case by (auto simp: foldl_set_wave split: if_splits)
qed simp

lemma assign_waves_number:
  "distinct (map tt_ID ts) \<Longrightarrow> distinct (concat ws) \<Longrightarrow> t \<in> set (assign_waves k ws ts) \<Longrightarrow> j < length ws
     \<Longrightarrow> tt_ID t \<in> set (ws ! j) \<Longrightarrow> tt_Wave t = k + int j"
proof (induction k ws ts arbitrary: j rule: assign_waves.induct)
  case (2 k w ws ts)
  have d: "distinct (map tt_ID (foldl (set_wave k) ts w))" using 2(2) by simp
  show ?case
  proof (cases j)
    case 0
    with 2(3,6) have i: "tt_ID t \<in> set w" "tt_ID t \<notin> set (concat ws)" by auto
    then have "t \<in> set (foldl (set_wave k) ts w)" using assign_waves_keeps [OF d] 2(4) by simp
    with i 0 2(2) show ?thesis by (auto simp: foldl_set_wave split: if_splits)
  next
    case (Suc l)
    with 2 d show ?thesis by auto
  qed
qed simp

text \<open>The two outcomes of the planner, as its properties and its clients use them.\<close>

lemma ComputeWaves_cases:
  obtains (planned) waves where "ComputeWaves (NewTeam_MaxWaveSize configured) tasks = Some (assign_waves 0 waves tasks, Inr waves)"
      and "distinct (concat waves)" and "set (concat waves) = tt_ID ` set tasks" and "layered tasks {} waves"
      and "\<And>w. w \<in> set waves \<Longrightarrow> w \<noteq> [] \<and> int (length w) \<le> NewTeam_MaxWaveSize configured"
  | (circular) waves where "ComputeWaves (NewTeam_MaxWaveSize configured) tasks = Some (assign_waves 0 waves tasks, Inl CircularDependency)"
      and "\<not> (\<exists>rank. ranked tasks rank)"
proof -
  let ?width = "nat (NewTeam_MaxWaveSize configured)"
  have width: "0 < ?width" "int ?width = NewTeam_MaxWaveSize configured" by (simp_all add: NewTeam_MaxWaveSize_def)
  have "card (tt_ID ` set tasks) \<le> length tasks" using card_length [of "map tt_ID tasks"] by simp
  then obtain ls b where ls: "levels tasks {} ls b"
    and r: "ComputeWaves (NewTeam_MaxWaveSize configured) tasks = Some (assign_waves 0 (waves_of ?width ls) tasks,
      if b then Inr (waves_of ?width ls) else Inl CircularDependency)"
    using wave_loop_levels [OF degrees_start, of tasks "Suc (length tasks)" ?width "[]"] width(1)
    by (auto simp: ComputeWaves_def waves_of_def)
  have cc: "concat (waves_of ?width ls) = concat ls" by (rule waves_of_concat [OF width(1)])
  show thesis
  proof (cases b)
    case True
    have "set (concat (waves_of ?width ls)) = tt_ID ` set tasks" "distinct (concat (waves_of ?width ls))"
      using levels_set [OF ls] levels_end [OF ls] True unfolding cc by auto
    moreover have "w \<noteq> [] \<and> int (length w) \<le> NewTeam_MaxWaveSize configured" if "w \<in> set (waves_of ?width ls)" for w
      using waves_of_pieces [OF width(1) that] width(2) of_nat_le_iff [of "length w" ?width, where ?'a = int] by simp
    moreover have "ComputeWaves (NewTeam_MaxWaveSize configured) tasks = Some (assign_waves 0 (waves_of ?width ls) tasks, Inr (waves_of ?width ls))"
      using r True by simp
    ultimately show thesis using planned levels_layered [OF ls width(1)] by blast
  next
    case False
    have "\<not> ranked tasks rank" for rank
      using stuck_not_ranked levels_end [OF ls] False by (metis Un_empty_left)
    with r False circular show thesis by auto
  qed
qed

section \<open>Properties\<close>

text \<open>
  C30. The wave planner is a correct topological sort: it always ends, within as many rounds
  as there are tasks; it reports a circular dependency exactly if no rank of the tasks exists
  that all dependencies go down (a cycle, or a dependency on an unknown task); otherwise the
  waves hold every task identifier exactly once, every dependency of a task lies in an earlier
  wave, no wave is empty or larger than the configured size, and (the identifiers being
  distinct) every task carries the number of its wave.
\<close>

theorem waves_correct:
  "if \<exists>rank. ranked tasks rank
   then \<exists>waves tasks'. ComputeWaves (NewTeam_MaxWaveSize configured) tasks = Some (tasks', Inr waves)
     \<and> distinct (concat waves) \<and> set (concat waves) = tt_ID ` set tasks
     \<and> list_all (\<lambda>w. w \<noteq> [] \<and> int (length w) \<le> NewTeam_MaxWaveSize configured) waves
     \<and> (\<forall>j i d. j < length waves \<and> i \<in> set (waves ! j) \<and> d \<in> set (deps_of tasks i)
          \<longrightarrow> (\<exists>k < j. d \<in> set (waves ! k)))
     \<and> map tt_ID tasks' = map tt_ID tasks
     \<and> (distinct (map tt_ID tasks) \<longrightarrow>
          (\<forall>t j. t \<in> set tasks' \<and> j < length waves \<and> tt_ID t \<in> set (waves ! j) \<longrightarrow> tt_Wave t = int j))
   else \<exists>tasks'. ComputeWaves (NewTeam_MaxWaveSize configured) tasks = Some (tasks', Inl CircularDependency)"
proof (cases rule: ComputeWaves_cases [of configured tasks])
  case (planned waves)
  have rk: "\<exists>rank. ranked tasks rank" by (rule waves_ranked [OF planned(4,3,2)])
  have pieces: "list_all (\<lambda>w. w \<noteq> [] \<and> int (length w) \<le> NewTeam_MaxWaveSize configured) waves"
    unfolding list_all_iff using planned(5) by blast
  have order: "\<forall>j i d. j < length waves \<and> i \<in> set (waves ! j) \<and> d \<in> set (deps_of tasks i) \<longrightarrow> (\<exists>k < j. d \<in> set (waves ! k))"
    using layered_nth [OF planned(4)] by auto
  have number: "distinct (map tt_ID tasks) \<longrightarrow> (\<forall>t j. t \<in> set (assign_waves 0 waves tasks)
      \<and> j < length waves \<and> tt_ID t \<in> set (waves ! j) \<longrightarrow> tt_Wave t = int j)"
    using assign_waves_number [OF _ planned(2), of tasks _ 0] by auto
  show ?thesis
    unfolding if_P [OF rk] using planned(1-3) pieces order number
    by (intro exI [of _ waves] exI [of _ "assign_waves 0 waves tasks"] conjI) simp_all
next
  case (circular waves)
  then show ?thesis by simp
qed

definition wave_task :: "string \<Rightarrow> string list \<Rightarrow> team_task" where
  "wave_task i ds = ToTeamTask 1 (sample_task i ds)"

lemma wave_task_deps: "tt_ID (wave_task i ds) = (if trim_space i = [] then ''task'' else trim_space i)"
  "tt_DependsOn (wave_task i ds) = ds"
  by (simp_all add: wave_task_def ToTeamTask_def task_Normalized_def sample_task_def Let_def)

theorem waves_correct_witness:
  "\<exists>waves tasks'. ComputeWaves (NewTeam_MaxWaveSize 0) [wave_task ''b'' [''a''], wave_task ''a'' []] = Some (tasks', Inr waves)
     \<and> distinct (concat waves)"
proof -
  have "trim_space ''a'' = ''a''" "trim_space ''b'' = ''b''" by code_simp+
  then have "ranked [wave_task ''b'' [''a''], wave_task ''a'' []] (\<lambda>i. if i = ''b'' then 1 else 0)"
    by (auto simp: ranked_def deps_of_def wave_task_deps split: if_splits)
  then have r: "\<exists>rank. ranked [wave_task ''b'' [''a''], wave_task ''a'' []] rank" by blast
  from waves_correct [of "[wave_task ''b'' [''a''], wave_task ''a'' []]" 0, unfolded if_P [OF r]]
  show ?thesis by blast
qed

end
