(* ===== verification/Team_Exec.thy ===== *)
theory Team_Exec
  imports Durable_Laws Team_Waves
begin

text \<open>
  The execution half of \<^verbatim>\<open>internal/agent/team.go\<close>: how the events of a worker's run decide the
  status of its task, how a batch of workers runs, and how waves follow one another. The
  agent loop, the provider and the clock of a worker are an argument: the events the consumer
  receives, each with the cancellation cause it sees at that moment. \<^verbatim>\<open>quote\<close> stands for
  the \<^verbatim>\<open>%q\<close> verb of \<^verbatim>\<open>fmt.Sprintf\<close>. Workers of a batch run in parallel on tasks of their own;
  their effects on the team are merged in the order of the batch. The output file on disk, the
  log lines and the text of idle messages are not modelled.
\<close>

section \<open>The outcome of a worker run\<close>

abbreviation teamTaskResultPrefixLimit :: nat where "teamTaskResultPrefixLimit \<equiv> 500"
abbreviation teamRunFailureLimit :: nat where "teamRunFailureLimit \<equiv> 1000"

definition teamBoundedText :: "string \<Rightarrow> nat \<Rightarrow> string" where
  "teamBoundedText value limit =
     (let v = trim_space (to_valid_utf8 value) in
      if limit \<le> 0 \<or> length v \<le> limit then v
      else if limit \<le> 3 then contextUTF8Prefix v limit
      else contextUTF8Prefix v (limit - 3) @ ''...'')"

record terminal_reducer =
  rd_terminalSeen :: bool
  rd_failure :: string

definition new_reducer :: terminal_reducer where
  "new_reducer = \<lparr>rd_terminalSeen = False, rd_failure = []\<rparr>"

definition reducer_fail :: "string \<Rightarrow> terminal_reducer \<Rightarrow> terminal_reducer" where
  "reducer_fail message r =
     (if rd_failure r \<noteq> [] then r
      else
        let f = teamBoundedText message teamRunFailureLimit in
        r\<lparr>rd_failure := (if f = [] then ''worker run failed'' else f)\<rparr>)"

definition teamRunDoneStopReason :: "event_data \<Rightarrow> string" where
  "teamRunDoneStopReason d = (case d of
      MapData m \<Rightarrow> (case map_of m ''stopReason'' of Some (JStr s) \<Rightarrow> trim_space s | _ \<Rightarrow> [])
    | _ \<Rightarrow> [])"

definition teamRunEventFailure :: "event \<Rightarrow> string" where
  "teamRunEventFailure e =
     (let detail = (case ev_Data e of
          NoData \<Rightarrow> []
        | TextData s \<Rightarrow> s
        | ContextBlockedData None \<Rightarrow> []
        | ContextBlockedData (Some (code, message, plan)) \<Rightarrow> message
        | MapData m \<Rightarrow> (case map_of m ''message'' of Some (JStr s) \<Rightarrow> s | _ \<Rightarrow> [])
        | OtherData s j \<Rightarrow> s) in
      if trim_space detail = [] then ''worker run reported '' @ ev_Type e else detail)"

definition failing_event_types :: "string list" where
  "failing_event_types = [''error'', ''context_blocked'', ''blocked'', ''incomplete'', ''canceled'', ''cancelled'',
     ''context_canceled'', ''context_cancelled'', ''deadline'', ''deadline_exceeded'']"

definition terminal_block_message :: "(string \<Rightarrow> string) \<Rightarrow> event_data \<Rightarrow> terminal_metadata \<Rightarrow> string" where
  "terminal_block_message quote d m =
     ''worker terminal blocks task success (stopReason='' @ quote (teamRunDoneStopReason d)
       @ '', terminalState='' @ quote (tm_TerminalState m) @ '', completionStatus='' @ quote (tm_CompletionStatus m)
       @ '', completionBlocked='' @ show_int (tm_CompletionBlocked m) @ '')''"

definition reducer_Observe :: "(string \<Rightarrow> string) \<Rightarrow> event \<Rightarrow> string option \<Rightarrow> terminal_reducer \<Rightarrow> terminal_reducer" where
  "reducer_Observe quote e contextErr r =
     (if rd_terminalSeen r then r
      else if ev_Type e = ''done'' then
        let r1 = r\<lparr>rd_terminalSeen := True\<rparr>; (m, ok) = DecodeDurableRunTerminalMetadata (ev_Data e) in
        (if ok \<and> BlocksSuccess m then reducer_fail (terminal_block_message quote (ev_Data e) m) r1 else r1)
      else
        let r1 = (if ev_Type e \<in> set failing_event_types then reducer_fail (teamRunEventFailure e) r else r) in
        (case contextErr of None \<Rightarrow> r1 | Some err \<Rightarrow> reducer_fail err r1))"

definition reducer_Result :: "string option \<Rightarrow> terminal_reducer \<Rightarrow> bool \<times> string" where
  "reducer_Result contextErr r =
     (if rd_terminalSeen r then (rd_failure r = [], rd_failure r)
      else
        let r1 = (case contextErr of None \<Rightarrow> r | Some err \<Rightarrow> reducer_fail err r);
            r2 = (if rd_failure r1 = [] then reducer_fail ''worker event stream closed without a terminal event'' r1 else r1)
        in (False, rd_failure r2))"

record partial_result =
  pr_text :: string
  pr_clipped :: bool

definition partial_Append :: "string \<Rightarrow> partial_result \<Rightarrow> partial_result" where
  "partial_Append value0 r =
     (if value0 = [] \<or> pr_clipped r then r
      else
        let value = to_valid_utf8 value0; used = length (pr_text r) in
        if used \<ge> teamTaskResultPrefixLimit then r\<lparr>pr_clipped := True\<rparr>
        else
          let pre = contextUTF8Prefix value (teamTaskResultPrefixLimit - used) in
          r\<lparr>pr_text := pr_text r @ pre, pr_clipped := (length pre < length value)\<rparr>)"

definition partial_Summary :: "string \<Rightarrow> partial_result \<Rightarrow> string" where
  "partial_Summary outputPath r =
     (if \<not> pr_clipped r then pr_text r else pr_text r @ ''... (full output: '' @ outputPath @ '')'')"

section \<open>A task\<close>

text \<open>Providers are their names; the factory, if configured, returns one or an error text.\<close>

record team_runtime =
  ru_provider :: "string option"
  ru_model :: string
  ru_factory :: "(string \<Rightarrow> string + string option) option"

definition resolveTaskRuntime :: "(string \<Rightarrow> string) \<Rightarrow> team_runtime \<Rightarrow> team_task \<Rightarrow> string + (string \<times> string)" where
  "resolveTaskRuntime quote ru task =
     (let name = trim_space (tt_Provider task);
          p = (if name = [] then Inr (ru_provider ru)
               else if ru_provider ru = Some name then Inr (ru_provider ru)
               else (case ru_factory ru of
                  Some mk \<Rightarrow> (case mk name of
                      Inl err \<Rightarrow> Inl (''create task provider '' @ quote name @ '': '' @ err)
                    | Inr next \<Rightarrow> Inr next)
                | None \<Rightarrow> Inl (''task requested provider '' @ quote name @ '' but no provider factory is configured''))) in
      case p of
        Inl err \<Rightarrow> Inl err
      | Inr None \<Rightarrow> Inl ''no provider configured''
      | Inr (Some provider) \<Rightarrow>
          let model = (if trim_space (tt_Model task) \<noteq> [] then trim_space (tt_Model task) else ru_model ru) in
          if trim_space model = [] then Inl ''no model configured'' else Inr (provider, model))"

record worker_run =
  wr_started :: gotime
  wr_finished :: gotime
  wr_events :: "(event \<times> string option) list"
  wr_cause :: "string option"
  wr_outputPath :: string

record worker_state =
  ws_ID :: string
  ws_Name :: string
  ws_TaskID :: string
  ws_Status :: string
  ws_StartedAt :: gotime
  ws_IdleSince :: gotime

record idle_message =
  im_From :: string
  im_To :: string
  im_Summary :: string

definition worker_id :: "team_task \<Rightarrow> string" where
  "worker_id task = ''worker-'' @ tt_ID task"

definition reduce_events :: "(string \<Rightarrow> string) \<Rightarrow> (event \<times> string option) list \<Rightarrow> terminal_reducer" where
  "reduce_events quote evs = foldl (\<lambda>r (e, c). reducer_Observe quote e c r) new_reducer evs"

definition partial_text :: "(event \<times> string option) list \<Rightarrow> partial_result" where
  "partial_text evs = foldl (\<lambda>r (e, c). if ev_Type e = ''text''
     then (case ev_Data e of TextData s \<Rightarrow> partial_Append s r | _ \<Rightarrow> r) else r) \<lparr>pr_text = [], pr_clipped = False\<rparr> evs"

definition failStartedTask :: "gotime \<Rightarrow> string \<Rightarrow> team_task \<Rightarrow> team_task" where
  "failStartedTask now err task =
     task\<lparr>tt_Result := ''Runtime error: '' @ err, tt_FinishedAt := now, tt_Status := ''failed''\<rparr>"

text \<open>The task, its worker and the message to the lead after \<^verbatim>\<open>executeTask\<close>.\<close>

definition executeTask :: "(string \<Rightarrow> string) \<Rightarrow> team_runtime \<Rightarrow> worker_run \<Rightarrow> team_task
    \<Rightarrow> team_task \<times> worker_state \<times> idle_message" where
  "executeTask quote ru run task0 =
     (let task = task0\<lparr>tt_Status := ''running'', tt_StartedAt := wr_started run, tt_AssignedTo := worker_id task0\<rparr>;
          worker = \<lparr>ws_ID = worker_id task0, ws_Name = tt_Name task0, ws_TaskID = tt_ID task0, ws_Status = ''idle'',
            ws_StartedAt = wr_started run, ws_IdleSince = wr_finished run\<rparr>;
          final = (case resolveTaskRuntime quote ru task of
              Inl err \<Rightarrow> failStartedTask (wr_finished run) err task
            | Inr _ \<Rightarrow>
                let (success, failure) = reducer_Result (wr_cause run) (reduce_events quote (wr_events run));
                    text0 = partial_Summary (wr_outputPath run) (partial_text (wr_events run)) in
                task\<lparr>tt_OutputPath := wr_outputPath run,
                     tt_Result := (if text0 = [] \<and> failure \<noteq> [] then failure else text0),
                     tt_ToolCalls := int (length (filter (\<lambda>(e, c). ev_Type e = ''tool_result'') (wr_events run))),
                     tt_FinishedAt := wr_finished run,
                     tt_Status := (if \<not> success then ''failed'' else ''completed'')\<rparr>)
      in (final, worker, \<lparr>im_From = worker_id task0, im_To = ''lead'', im_Summary = tt_ID task0 @ '': '' @ tt_Status final\<rparr>))"

section \<open>Batches and waves\<close>

record team_state =
  te_tasks :: "team_task list"
  te_workers :: "string \<rightharpoonup> worker_state"
  te_messages :: "idle_message list"

datatype exec_error =
    BudgetExpired string
  | NoRunnableTasks nat
  | TaskNotCompleted string string
  | WavesFailed wave_error
  | WaveFailed nat exec_error

fun replace_task :: "team_task \<Rightarrow> team_task list \<Rightarrow> team_task list" where
  "replace_task t [] = []"
| "replace_task t (u # us) = (if tt_ID u = tt_ID t then t # us else u # replace_task t us)"

definition finish_task :: "team_state \<Rightarrow> team_task \<times> worker_state \<times> idle_message \<Rightarrow> team_state" where
  "finish_task team p = (case p of (t, w, m) \<Rightarrow>
     team\<lparr>te_tasks := replace_task t (te_tasks team), te_workers := (te_workers team)(ws_ID w \<mapsto> w),
          te_messages := te_messages team @ [m]\<rparr>)"

type_synonym runs = "string \<Rightarrow> worker_run"

definition runWaveBatch :: "(string \<Rightarrow> string) \<Rightarrow> team_runtime \<Rightarrow> runs \<Rightarrow> team_task list \<Rightarrow> team_state
    \<Rightarrow> team_state \<times> exec_error option" where
  "runWaveBatch quote ru runs batch team =
     (let results = map (\<lambda>t. executeTask quote ru (runs (tt_ID t)) t) batch in
      (foldl finish_task team results,
       (case find (\<lambda>r. tt_Status (fst r) \<noteq> ''completed'') results of
          None \<Rightarrow> None
        | Some r \<Rightarrow> Some (TaskNotCompleted (tt_ID (fst r)) (tt_Status (fst r))))))"

definition getTask :: "team_task list \<Rightarrow> string \<Rightarrow> team_task option" where
  "getTask tasks i = find (\<lambda>t. tt_ID t = i) tasks"

text \<open>
  The loop of \<^verbatim>\<open>executeWave\<close>. \<^verbatim>\<open>budget k\<close> is the error of the wave budget at its \<^verbatim>\<open>k\<close>-th
  inspection. The result also names the batches that ran, in order; \<^const>\<open>None\<close> is a
  loop that is still running when the fuel ends.
\<close>

fun wave_steps :: "nat \<Rightarrow> (string \<Rightarrow> string) \<Rightarrow> team_runtime \<Rightarrow> runs \<Rightarrow> (nat \<Rightarrow> string option) \<Rightarrow> nat \<Rightarrow> capacity_config \<Rightarrow> nat
    \<Rightarrow> team_task list \<Rightarrow> team_state \<Rightarrow> string list list \<Rightarrow> (team_state \<times> exec_error option \<times> string list list) option" where
  "wave_steps 0 quote ru runs budget k cap waveIdx pending team batches = None"
| "wave_steps (Suc n) quote ru runs budget k cap waveIdx pending team batches =
     (if pending = [] then Some (team, None, batches)
      else case budget k of
        Some err \<Rightarrow> Some (team, Some (BudgetExpired err), batches)
      | None \<Rightarrow>
          let batch = selectWaveBatch cap pending in
          if batch = [] then Some (team, Some (NoRunnableTasks waveIdx), batches)
          else
            let (team', err) = runWaveBatch quote ru runs batch team; batches' = batches @ [map tt_ID batch] in
            (case err of
               Some e \<Rightarrow> Some (team', Some (case budget (Suc k) of Some b \<Rightarrow> BudgetExpired b | None \<Rightarrow> e), batches')
             | None \<Rightarrow>
                 wave_steps n quote ru runs budget (Suc k) cap waveIdx
                   (filter (\<lambda>t. tt_ID t \<notin> tt_ID ` set batch) pending) team' batches'))"

definition executeWave :: "(string \<Rightarrow> string) \<Rightarrow> team_runtime \<Rightarrow> runs \<Rightarrow> (nat \<Rightarrow> string option) \<Rightarrow> capacity_config \<Rightarrow> nat
    \<Rightarrow> string list \<Rightarrow> team_state \<Rightarrow> (team_state \<times> exec_error option \<times> string list list) option" where
  "executeWave quote ru runs budget cap waveIdx taskIDs team =
     (let pending = List.map_filter (getTask (te_tasks team)) taskIDs in
      wave_steps (Suc (length pending)) quote ru runs budget 0 cap waveIdx pending team [])"

fun run_waves :: "(string \<Rightarrow> string) \<Rightarrow> team_runtime \<Rightarrow> runs \<Rightarrow> (nat \<Rightarrow> nat \<Rightarrow> string option) \<Rightarrow> capacity_config \<Rightarrow> nat
    \<Rightarrow> string list list \<Rightarrow> team_state \<Rightarrow> string list list \<Rightarrow> (team_state \<times> exec_error option \<times> string list list) option" where
  "run_waves quote ru runs budget cap w [] team batches = Some (team, None, batches)"
| "run_waves quote ru runs budget cap w (ids # waves) team batches =
     (case executeWave quote ru runs (budget w) cap w ids team of
        None \<Rightarrow> None
      | Some (team', Some e, bs) \<Rightarrow> Some (team', Some (WaveFailed (Suc w) e), batches @ bs)
      | Some (team', None, bs) \<Rightarrow> run_waves quote ru runs budget cap (Suc w) waves team' (batches @ bs))"

text \<open>\<^verbatim>\<open>NewTeam\<close> fixes the wave size and the capacity; each wave has a budget of its own.\<close>

definition ExecuteWaves :: "(string \<Rightarrow> string) \<Rightarrow> team_runtime \<Rightarrow> runs \<Rightarrow> (nat \<Rightarrow> nat \<Rightarrow> string option) \<Rightarrow> capacity_config \<Rightarrow> int
    \<Rightarrow> team_state \<Rightarrow> (team_state \<times> exec_error option \<times> string list list) option" where
  "ExecuteWaves quote ru runs budget cap maxWaveSize team =
     (case ComputeWaves maxWaveSize (te_tasks team) of
        None \<Rightarrow> None
      | Some (tasks', Inl e) \<Rightarrow> Some (team\<lparr>te_tasks := tasks'\<rparr>, Some (WavesFailed e), [])
      | Some (tasks', Inr waves) \<Rightarrow> run_waves quote ru runs budget cap 0 waves (team\<lparr>te_tasks := tasks'\<rparr>) [])"

end
