(* ===== verification/Team_Batches.thy ===== *)
theory Team_Batches
  imports Team_Waves "HOL-Library.Multiset"
begin

text \<open>
  What the batch selection of \<^verbatim>\<open>internal/agent/team.go\<close> guarantees: the batch fits the
  capacity, respects the file-scope lock, and is not empty as long as some task fits alone;
  and what the ownership patterns of two tasks without conflict mean for the files they match.
\<close>

section \<open>The selection loop\<close>

lemma batch_loop_invariant:
  assumes "keep used selected"
    and "\<And>used selected t. keep used selected \<Longrightarrow> t \<in> set ts
      \<Longrightarrow> \<not> (ca_MaxParallelTasks cap > 0 \<and> int (length selected) \<ge> ca_MaxParallelTasks cap)
      \<Longrightarrow> resourcesFit cap used (teamTaskResources t)
      \<Longrightarrow> \<not> (ca_FileScopeLock cap \<and> conflictsWithSelectedTeamTask t selected)
      \<Longrightarrow> keep (add_resources used (teamTaskResources t)) (selected @ [t])"
  shows "\<exists>used'. keep used' (batch_loop cap used selected ts)"
  using assms by (induction cap used selected ts rule: batch_loop.induct) auto

lemma batch_loop_mset: "mset (batch_loop cap used selected ts) \<subseteq># mset selected + mset ts"
proof (induction cap used selected ts rule: batch_loop.induct)
  case (2 cap used selected t ts)
  have skip: "A \<subseteq># B \<Longrightarrow> A \<subseteq># add_mset t B" for A B :: "team_task multiset"
    unfolding add_mset_add_single [of t B] by (rule subset_mset.order_trans [OF _ mset_subset_eq_add_left])
  show ?case
    using 2 by (auto intro: skip)
qed simp

lemma batch_loop_keeps: "selected \<noteq> [] \<Longrightarrow> batch_loop cap used selected ts \<noteq> []"
  by (induction cap used selected ts rule: batch_loop.induct) auto

lemma batch_loop_first:
  assumes "0 < ca_MaxParallelTasks cap"
  shows "batch_loop cap used [] ts = [] \<longleftrightarrow> (\<forall>t \<in> set ts. \<not> resourcesFit cap used (teamTaskResources t))"
  using assms by (induction ts) (auto simp: conflictsWithSelectedTeamTask_def batch_loop_keeps)

section \<open>Slots\<close>

text \<open>Needs and limits that stay away from the ends of the 64-bit range.\<close>

definition sane :: "int \<Rightarrow> bool" where
  "sane n \<longleftrightarrow> 0 \<le> n \<and> n < 2 ^ 62"

definition sane_task :: "team_task \<Rightarrow> bool" where
  "sane_task t \<longleftrightarrow> (let r = teamTaskResources t in
     sane (tr_ModelSlots r) \<and> sane (tr_ToolSlots r) \<and> sane (tr_WebFetchSlots r) \<and> sane (tr_TestSlots r))"

definition sane_capacity :: "capacity_config \<Rightarrow> bool" where
  "sane_capacity c \<longleftrightarrow> sane (ca_ModelSlots c) \<and> sane (ca_ToolSlots c) \<and> sane (ca_WebFetchSlots c) \<and> sane (ca_TestSlots c)"

definition slots_of :: "(task_resources \<Rightarrow> int) \<Rightarrow> team_task list \<Rightarrow> int" where
  "slots_of f ts = sum_list (map (f \<circ> teamTaskResources) ts)"

definition slots_used :: "(capacity_config \<Rightarrow> int) \<Rightarrow> (task_resources \<Rightarrow> int) \<Rightarrow> capacity_config \<Rightarrow> task_resources \<Rightarrow> team_task list \<Rightarrow> bool" where
  "slots_used limit f cap used selected \<longleftrightarrow> 0 < limit cap
     \<longrightarrow> f used = slots_of f selected \<and> 0 \<le> f used \<and> f used \<le> limit cap"

lemma add_resources_fields [simp]:
  "tr_ModelSlots (add_resources u n) = wrap_int (tr_ModelSlots u + tr_ModelSlots n)"
  "tr_ToolSlots (add_resources u n) = wrap_int (tr_ToolSlots u + tr_ToolSlots n)"
  "tr_WebFetchSlots (add_resources u n) = wrap_int (tr_WebFetchSlots u + tr_WebFetchSlots n)"
  "tr_TestSlots (add_resources u n) = wrap_int (tr_TestSlots u + tr_TestSlots n)"
  by (simp_all add: add_resources_def)

lemma wrap_int_sane: "- (2 ^ 63) \<le> i \<Longrightarrow> i < 2 ^ 63 \<Longrightarrow> wrap_int i = i"
  by (simp add: wrap_int_def signed_take_bit_int_eq_self)

lemma slots_used_add:
  assumes "slots_used limit f cap used selected" and "sane (limit cap)" and "sane (f (teamTaskResources t))"
    and "resourceSlotFits (limit cap) (f used) (f (teamTaskResources t))"
    and "f (add_resources used (teamTaskResources t)) = wrap_int (f used + f (teamTaskResources t))"
  shows "slots_used limit f cap (add_resources used (teamTaskResources t)) (selected @ [t])"
proof (cases "0 < limit cap")
  case True
  with assms(1-3) have b: "0 \<le> f used" "f used < 2 ^ 62" "0 \<le> f (teamTaskResources t)" "f (teamTaskResources t) < 2 ^ 62"
    "f used = slots_of f selected" by (auto simp: slots_used_def sane_def)
  then have "wrap_int (f used + f (teamTaskResources t)) = f used + f (teamTaskResources t)"
    by (intro wrap_int_sane) simp_all
  with b True assms(4,5) show ?thesis by (auto simp: slots_used_def slots_of_def resourceSlotFits_def)
qed (simp add: slots_used_def)

definition slots_ok :: "capacity_config \<Rightarrow> team_task list \<Rightarrow> bool" where
  "slots_ok c ts \<longleftrightarrow> slots_of tr_ModelSlots ts \<le> ca_ModelSlots c \<and> slots_of tr_ToolSlots ts \<le> ca_ToolSlots c
     \<and> slots_of tr_WebFetchSlots ts \<le> ca_WebFetchSlots c \<and> slots_of tr_TestSlots ts \<le> ca_TestSlots c"

lemma normalized_positive:
  "0 < ca_ModelSlots (capacity_Normalized c local)" "0 < ca_ToolSlots (capacity_Normalized c local)"
  "0 < ca_WebFetchSlots (capacity_Normalized c local)" "0 < ca_TestSlots (capacity_Normalized c local)"
  "0 < ca_MaxParallelTasks (capacity_Normalized c local)"
  by (auto simp: capacity_Normalized_def DefaultLocalCapacity_def DefaultCloudCapacity_def Let_def)

lemma batch_slots:
  assumes "sane_capacity cap" and "\<And>t. t \<in> set ts \<Longrightarrow> sane_task t"
    and "0 < ca_ModelSlots cap" "0 < ca_ToolSlots cap" "0 < ca_WebFetchSlots cap" "0 < ca_TestSlots cap"
  shows "slots_ok cap (batch_loop cap no_resources [] ts)"
proof -
  let ?inv = "\<lambda>used sel. slots_used ca_ModelSlots tr_ModelSlots cap used sel \<and> slots_used ca_ToolSlots tr_ToolSlots cap used sel
    \<and> slots_used ca_WebFetchSlots tr_WebFetchSlots cap used sel \<and> slots_used ca_TestSlots tr_TestSlots cap used sel"
  have "\<exists>used. ?inv used (batch_loop cap no_resources [] ts)"
  proof (rule batch_loop_invariant)
    show "?inv no_resources []" by (simp add: slots_used_def slots_of_def no_resources_def)
  next
    fix used sel t
    assume "?inv used sel" "t \<in> set ts" "resourcesFit cap used (teamTaskResources t)"
    then show "?inv (add_resources used (teamTaskResources t)) (sel @ [t])"
      using assms(1) assms(2) [of t]
      by (auto intro!: slots_used_add simp: sane_capacity_def sane_task_def resourcesFit_def Let_def)
  qed
  with assms show ?thesis by (auto simp: slots_ok_def slots_used_def)
qed

section \<open>The lock\<close>

lemma batch_conflict_free:
  assumes "ca_FileScopeLock cap"
  shows "sorted_wrt (\<lambda>a b. \<not> teamTasksConflict b a) (batch_loop cap used [] ts)"
proof -
  have "\<exists>u :: task_resources. sorted_wrt (\<lambda>a b. \<not> teamTasksConflict b a) (batch_loop cap used [] ts)"
    by (rule batch_loop_invariant [where keep = "\<lambda>u sel. sorted_wrt (\<lambda>a b. \<not> teamTasksConflict b a) sel"])
      (use assms in \<open>auto simp: sorted_wrt_append conflictsWithSelectedTeamTask_def list_ex_iff\<close>)
  then show ?thesis by blast
qed

lemma batch_parallel:
  assumes "0 < ca_MaxParallelTasks cap"
  shows "int (length (batch_loop cap used [] ts)) \<le> ca_MaxParallelTasks cap"
proof -
  have "\<exists>u :: task_resources. int (length (batch_loop cap used [] ts)) \<le> ca_MaxParallelTasks cap"
    by (rule batch_loop_invariant [where keep = "\<lambda>u sel. int (length sel) \<le> ca_MaxParallelTasks cap"]) (use assms in auto)
  then show ?thesis by blast
qed

lemma select_normalized:
  "selectWaveBatch (capacity_Normalized c local) ts
     = batch_loop (capacity_Normalized c local) no_resources [] (sort_key tt_ID ts)"
  using normalized_positive(5) [of c local] by (simp add: selectWaveBatch_def)

lemma select_subset: "mset (selectWaveBatch cap ts) \<subseteq># mset ts"
  using batch_loop_mset [of _ no_resources "[]" "sort_key tt_ID ts"] by (auto simp: selectWaveBatch_def Let_def)

lemma distinct_submset:
  assumes "mset xs \<subseteq># mset ys" and "distinct ys"
  shows "distinct xs"
proof -
  have "count (mset xs) a = (if a \<in> set xs then 1 else 0)" for a
  proof -
    have "count (mset xs) a \<le> count (mset ys) a" using assms(1) by (rule mset_subset_eq_count)
    moreover have "count (mset ys) a \<le> 1" using assms(2) by (simp add: distinct_count_atmost_1)
    moreover have "0 < count (mset xs) a \<longleftrightarrow> a \<in> set xs" using count_greater_zero_iff [of "mset xs" a] by simp
    ultimately have "count (mset xs) a \<le> 1" "0 < count (mset xs) a \<longleftrightarrow> a \<in> set xs" by linarith+
    then show ?thesis by (cases "count (mset xs) a") (auto simp only: le_Suc_eq le_zero_eq One_nat_def if_True if_False)
  qed
  then show ?thesis unfolding distinct_count_atmost_1 by blast
qed

lemma select_ids:
  assumes "distinct (map tt_ID ts)"
  shows "distinct (map tt_ID (selectWaveBatch cap ts))" and "set (selectWaveBatch cap ts) \<subseteq> set ts"
proof -
  have "mset (map tt_ID (selectWaveBatch cap ts)) \<subseteq># mset (map tt_ID ts)"
    unfolding mset_map by (rule image_mset_subseteq_mono [OF select_subset])
  then show "distinct (map tt_ID (selectWaveBatch cap ts))" using assms by (rule distinct_submset)
  show "set (selectWaveBatch cap ts) \<subseteq> set ts" using set_mset_mono [OF select_subset [of cap ts]] by simp
qed

section \<open>Ownership\<close>

text \<open>A pattern as the planner writes it: a path, or a directory followed by one or two stars.\<close>

definition canonical_pattern :: "string \<Rightarrow> bool" where
  "canonical_pattern p \<longleftrightarrow> trim_space p = p
     \<and> (\<exists>base suf. p = base @ suf \<and> suf \<in> {[], ''/*'', ''/**''} \<and> base \<noteq> [] \<and> last base \<notin> {CHR ''/'', CHR ''*''})"

lemma trim_right_stop: "base \<noteq> [] \<Longrightarrow> last base \<notin> set cs \<Longrightarrow> set suf \<subseteq> set cs \<Longrightarrow> trim_right_chars cs (base @ suf) = base"
proof -
  assume a: "base \<noteq> []" "last base \<notin> set cs" "set suf \<subseteq> set cs"
  have "dropWhile (\<lambda>c. c \<in> set cs) (rev suf @ rev base) = dropWhile (\<lambda>c. c \<in> set cs) (rev base)"
    using a(3) by (intro dropWhile_append2) auto
  also have "\<dots> = rev base" using a(1,2) by (cases base rule: rev_cases) auto
  finally show ?thesis by (simp add: trim_right_chars_def)
qed

lemma has_suffix_last: "has_suffix s (xs @ [c]) \<Longrightarrow> last s = c"
  by (auto simp: has_suffix_iff)

lemma trim_suffix_other: "s \<noteq> [] \<Longrightarrow> last s \<noteq> c \<Longrightarrow> trim_suffix s (xs @ [c]) = s"
  using has_suffix_last [of s xs c] by (auto simp: trim_suffix_def)

lemma trim_suffix_append [simp]: "trim_suffix (s @ x) x = s"
  by (simp add: trim_suffix_def has_suffix_def)

lemma pattern_base:
  assumes "base \<noteq> []" and "last base \<notin> {CHR ''/'', CHR ''*''}" and "suf \<in> {[], ''/*'', ''/**''}"
  shows "ownershipPrefix (base @ suf) = base"
    and "matchesOwnership f (base @ suf) \<Longrightarrow> \<exists>t. f = base @ t"
proof -
  have plain: "trim_suffix base ''/**'' = base" "trim_suffix base ''/*'' = base" "trim_suffix base ''*'' = base"
    using assms(1,2) trim_suffix_other [of base "CHR ''*''" "''/*''"] trim_suffix_other [of base "CHR ''*''" "''/''"]
      trim_suffix_other [of base "CHR ''*''" "[]"] by simp_all
  have one: "trim_suffix (base @ ''/*'') ''/**'' = base @ ''/*''"
    using assms(2) by (auto simp: trim_suffix_def has_suffix_iff append_eq_append_conv2 append_eq_Cons_conv Cons_eq_append_conv)
  have stop: "trim_right_chars ''/'' base = base" using trim_right_stop [of base "''/''" "[]"] assms by simp
  show "ownershipPrefix (base @ suf) = base"
    using assms(3) plain one stop trim_suffix_append [of base "''/**''"] trim_suffix_append [of base "''/*''"]
    by (auto simp: ownershipPrefix_def)
  have base: "trim_right_chars ''/*'' (base @ suf) = base" using assms by (intro trim_right_stop) auto
  have "\<not> has_suffix base ''/**''" "\<not> has_suffix base ''/*''"
    using assms(1,2) has_suffix_last [of base "''/*''" "CHR ''*''"] has_suffix_last [of base "''/''" "CHR ''*''"] by auto
  then show "\<exists>t. f = base @ t" if "matchesOwnership f (base @ suf)"
    using that assms(3) base by (auto simp: matchesOwnership_def has_prefix_iff split: if_splits)
qed

lemma owned_patterns_overlap:
  assumes "canonical_pattern p" and "canonical_pattern q" and "matchesOwnership f p" and "matchesOwnership f q"
  shows "ownershipPatternsOverlap p q"
proof -
  from assms(1) obtain b x where p: "p = b @ x" "x \<in> {[], ''/*'', ''/**''}" "b \<noteq> []" "last b \<notin> {CHR ''/'', CHR ''*''}" "trim_space p = p"
    unfolding canonical_pattern_def by blast
  from assms(2) obtain c y where q: "q = c @ y" "y \<in> {[], ''/*'', ''/**''}" "c \<noteq> []" "last c \<notin> {CHR ''/'', CHR ''*''}" "trim_space q = q"
    unfolding canonical_pattern_def by blast
  from pattern_base(2) [OF p(3,4,2)] assms(3) obtain s where "f = b @ s" unfolding p(1) by blast
  moreover from pattern_base(2) [OF q(3,4,2)] assms(4) obtain t where "f = c @ t" unfolding q(1) by blast
  ultimately have "has_prefix b c \<or> has_prefix c b" by (auto simp: has_prefix_iff append_eq_append_conv2)
  then show ?thesis
    using pattern_base(1) [OF p(3,4,2)] pattern_base(1) [OF q(3,4,2)] p(1,5) q(1,5)
    by (simp add: ownershipPatternsOverlap_def Let_def)
qed

section \<open>Observations on the code\<close>

text \<open>The sum of used and needed slots wraps around, so a huge need fits once a slot is in use.\<close>

lemma slot_sum_wraps: "resourceSlotFits 1 0 9223372036854775807 = False \<and> resourceSlotFits 1 1 9223372036854775807 = True"
  by code_simp

text \<open>A directory pattern also matches a sibling whose name starts alike.\<close>

lemma pattern_matches_sibling: "matchesOwnership ''src2/a.go'' ''src/**''"
  by code_simp

text \<open>Two patterns with stars inside match a common file and are not seen as overlapping.\<close>

lemma overlap_missed:
  "matchesOwnership ''ab/x'' ''a**/*'' \<and> matchesOwnership ''ab/x'' ''ab/**'' \<and> \<not> ownershipPatternsOverlap ''a**/*'' ''ab/**''"
  by code_simp

text \<open>
  A read-only task is exempt from the lock but still owns its files while it runs, so it can
  keep a writer of the same batch from its own file.
\<close>

lemma readonly_owner_blocks_writer:
  "let a = (wave_task ''a'' [])\<lparr>tt_Files := [''x/**''], tt_ReadOnly := True, tt_Status := ''running'', tt_AssignedTo := ''worker-a''\<rparr>;
       b = (wave_task ''b'' [])\<lparr>tt_Files := [''x/**''], tt_ReadOnly := False, tt_Status := ''running'', tt_AssignedTo := ''worker-b''\<rparr>
   in \<not> teamTasksConflict a b \<and> CheckFileOwnership [a, b] ''worker-b'' ''x/f'' \<noteq> None"
  by code_simp

section \<open>Properties\<close>

text \<open>
  C36. A batch fits the capacity of the team: it takes tasks of the wave without duplicating
  any, at most as many as may run in parallel, their model, tool, web and test slots stay
  within the limits (for needs and limits below \<open>2\<^sup>6\<^sup>2\<close>), and it is empty exactly if no task
  of the wave fits the capacity alone, so a wave is never stuck on locks.
\<close>

theorem batch_within_capacity:
  assumes "sane_capacity (capacity_Normalized c local)" and "list_all sane_task ts"
  shows "mset (selectWaveBatch (capacity_Normalized c local) ts) \<subseteq># mset ts
    \<and> int (length (selectWaveBatch (capacity_Normalized c local) ts)) \<le> ca_MaxParallelTasks (capacity_Normalized c local)
    \<and> slots_ok (capacity_Normalized c local) (selectWaveBatch (capacity_Normalized c local) ts)
    \<and> (selectWaveBatch (capacity_Normalized c local) ts = []
         \<longleftrightarrow> list_all (\<lambda>t. \<not> resourcesFit (capacity_Normalized c local) no_resources (teamTaskResources t)) ts)"
proof -
  let ?cap = "capacity_Normalized c local"
  have "slots_ok ?cap (selectWaveBatch ?cap ts)"
    unfolding select_normalized using assms normalized_positive by (intro batch_slots) (auto simp: list_all_iff)
  moreover have "int (length (selectWaveBatch ?cap ts)) \<le> ca_MaxParallelTasks ?cap"
    unfolding select_normalized by (rule batch_parallel [OF normalized_positive(5)])
  moreover have "selectWaveBatch ?cap ts = []
      \<longleftrightarrow> list_all (\<lambda>t. \<not> resourcesFit ?cap no_resources (teamTaskResources t)) ts"
    unfolding select_normalized batch_loop_first [OF normalized_positive(5)] by (simp add: list_all_iff)
  ultimately show ?thesis using select_subset by blast
qed

theorem batch_within_capacity_witness:
  "slots_ok (capacity_Normalized DefaultCloudCapacity False)
     (selectWaveBatch (capacity_Normalized DefaultCloudCapacity False) [wave_task ''b'' [], wave_task ''a'' []])"
proof -
  have "sane_capacity (capacity_Normalized DefaultCloudCapacity False)" by code_simp
  moreover have "list_all sane_task [wave_task ''b'' [], wave_task ''a'' []]" by code_simp
  ultimately show ?thesis using batch_within_capacity by blast
qed

text \<open>
  C37. File ownership is exclusive in a batch, under four conditions: the batch was selected under
  the file-scope lock, the identifiers of the tasks are distinct, every ownership pattern is in
  canonical form (a path, or a directory with a trailing star), and every read-only task owns no
  files. Then, while the tasks of the batch run, the worker of a task may edit every file that the
  patterns of its task match, and no other worker may. The last two conditions are needed: see
  \<^verbatim>\<open>overlap_missed\<close> and \<^verbatim>\<open>readonly_owner_blocks_writer\<close>.
\<close>

theorem batch_ownership_exclusive:
  assumes "batch = selectWaveBatch (capacity_Normalized c local) ts" and "ca_FileScopeLock (capacity_Normalized c local)"
    and "distinct (map tt_ID ts)"
    and "list_all (\<lambda>t. list_all canonical_pattern (tt_Files t) \<and> (tt_ReadOnly t \<longrightarrow> tt_Files t = [])) ts"
    and "running = map (\<lambda>t. t\<lparr>tt_Status := ''running'', tt_AssignedTo := ''worker-'' @ tt_ID t\<rparr>) batch"
    and "t \<in> set batch" and "list_ex (matchesOwnership f) (tt_Files t)"
  shows "CheckFileOwnership running (''worker-'' @ tt_ID t) f = None
    \<and> (w \<noteq> ''worker-'' @ tt_ID t \<longrightarrow> CheckFileOwnership running w f \<noteq> None)"
proof -
  have sub: "set batch \<subseteq> set ts"
    using set_mset_mono [OF select_subset [of "capacity_Normalized c local" ts]] assms(1) by simp
  have free: "sorted_wrt (\<lambda>a b. \<not> teamTasksConflict b a) batch"
    using batch_conflict_free [OF assms(2)] unfolding assms(1) select_normalized .
  have clash: "teamTasksConflict u v" if "u \<in> set batch" "v \<in> set batch" "list_ex (matchesOwnership f) (tt_Files u)"
      "list_ex (matchesOwnership f) (tt_Files v)" for u v
  proof -
    from that obtain p q where p: "p \<in> set (tt_Files u)" "matchesOwnership f p"
      and q: "q \<in> set (tt_Files v)" "matchesOwnership f q" by (auto simp: list_ex_iff)
    with that(1,2) sub assms(4) have c: "canonical_pattern p" "canonical_pattern q" "\<not> tt_ReadOnly u" "\<not> tt_ReadOnly v"
      by (auto simp: list_all_iff subset_iff)
    from owned_patterns_overlap [OF c(1,2) p(2) q(2)] p q c show ?thesis
      by (auto simp: teamTasksConflict_def list_ex_iff)
  qed
  have only: "u = t" if "u \<in> set batch" "list_ex (matchesOwnership f) (tt_Files u)" for u
  proof (rule ccontr)
    assume "u \<noteq> t"
    from that(1) assms(6) obtain i j where ij: "i < length batch" "batch ! i = u" "j < length batch" "batch ! j = t"
      by (auto simp: in_set_conv_nth)
    with \<open>u \<noteq> t\<close> have "i < j \<or> j < i" by (cases i j rule: linorder_cases) auto
    with ij free have "\<not> teamTasksConflict t u \<or> \<not> teamTasksConflict u t"
      by (auto dest: sorted_wrt_nth_less)
    with clash that assms(6,7) show False by blast
  qed
  have "CheckFileOwnership running (''worker-'' @ tt_ID t) f = None"
    using only by (auto simp: CheckFileOwnership_def assms(5) find_None_iff)
  moreover have "CheckFileOwnership running w f \<noteq> None" if "w \<noteq> ''worker-'' @ tt_ID t"
    using that assms(6,7) by (auto simp: CheckFileOwnership_def assms(5) find_None_iff)
  ultimately show ?thesis by blast
qed

definition owner_task :: "string \<Rightarrow> string \<Rightarrow> bool \<Rightarrow> team_task" where
  "owner_task i pattern readonly = (wave_task i [])\<lparr>tt_Files := [pattern], tt_ReadOnly := readonly\<rparr>"

theorem batch_ownership_exclusive_witness:
  "CheckFileOwnership (map (\<lambda>t. t\<lparr>tt_Status := ''running'', tt_AssignedTo := ''worker-'' @ tt_ID t\<rparr>)
      (selectWaveBatch (capacity_Normalized DefaultCloudCapacity False)
         [owner_task ''a'' ''x/**'' False, owner_task ''b'' ''y/**'' False])) ''worker-a'' ''x/f'' = None"
proof -
  let ?ts = "[owner_task ''a'' ''x/**'' False, owner_task ''b'' ''y/**'' False]"
  have lock: "ca_FileScopeLock (capacity_Normalized DefaultCloudCapacity False)" by code_simp
  have d: "distinct (map tt_ID ?ts)" by code_simp
  have "trim_space ''x/**'' = ''x/**''" "trim_space ''y/**'' = ''y/**''" by code_simp+
  then have "canonical_pattern ''x/**''" "canonical_pattern ''y/**''"
    unfolding canonical_pattern_def by (intro conjI exI [of _ "''x''"] exI [of _ "''y''"] exI [of _ "''/**''"]; simp)+
  then have pats: "list_all (\<lambda>t. list_all canonical_pattern (tt_Files t) \<and> (tt_ReadOnly t \<longrightarrow> tt_Files t = [])) ?ts"
    by (simp add: owner_task_def)
  have sel: "selectWaveBatch (capacity_Normalized DefaultCloudCapacity False) ?ts = ?ts" by code_simp
  have own: "list_ex (matchesOwnership ''x/f'') (tt_Files (owner_task ''a'' ''x/**'' False))" by code_simp
  have "tt_ID (owner_task ''a'' ''x/**'' False) = ''a''" by code_simp
  with batch_ownership_exclusive [OF sel [symmetric] lock d pats refl _ own] show ?thesis by (simp add: sel)
qed

end
