(* ===== verification/Team_Run.thy ===== *)
theory Team_Run
  imports Team_Exec Team_Batches
begin

text \<open>
  What the execution of a team guarantees: when a task counts as completed, that a run which
  did not succeed can never complete its task (across the finalizer, the durable metadata and
  the reducer of the team), and that tasks start only after their dependencies completed.
\<close>

section \<open>The event stream of a worker\<close>

text \<open>A stream succeeds if its first done frame does not block success and nothing failed before it.\<close>

fun stream_success :: "(event \<times> string option) list \<Rightarrow> bool" where
  "stream_success [] = False"
| "stream_success ((e, c) # evs) =
     (if ev_Type e = ''done''
      then \<not> (snd (DecodeDurableRunTerminalMetadata (ev_Data e)) \<and> BlocksSuccess (fst (DecodeDurableRunTerminalMetadata (ev_Data e))))
      else ev_Type e \<notin> set failing_event_types \<and> c = None \<and> stream_success evs)"

abbreviation observe_all :: "(string \<Rightarrow> string) \<Rightarrow> terminal_reducer \<Rightarrow> (event \<times> string option) list \<Rightarrow> terminal_reducer" where
  "observe_all quote r evs \<equiv> foldl (\<lambda>r (e, c). reducer_Observe quote e c r) r evs"

lemma reducer_fail_keeps [simp]:
  "rd_failure (reducer_fail m r) \<noteq> []" "rd_terminalSeen (reducer_fail m r) = rd_terminalSeen r"
  "rd_failure r \<noteq> [] \<Longrightarrow> reducer_fail m r = r"
  by (simp_all add: reducer_fail_def Let_def)

lemma observe_failed: "rd_failure r \<noteq> [] \<Longrightarrow> rd_failure (reducer_Observe quote e c r) = rd_failure r"
  by (auto simp: reducer_Observe_def Let_def split: prod.splits option.splits)

lemma observe_all_failed: "rd_failure r \<noteq> [] \<Longrightarrow> rd_failure (observe_all quote r evs) = rd_failure r"
  by (induction evs arbitrary: r) (auto simp: observe_failed)

lemma observe_all_seen: "rd_terminalSeen r \<Longrightarrow> observe_all quote r evs = r"
  by (induction evs) (auto simp: reducer_Observe_def)

lemma result_failed: "rd_failure r \<noteq> [] \<Longrightarrow> reducer_Result cause r = (False, rd_failure r)"
  by (auto simp: reducer_Result_def Let_def split: option.splits)

lemma observe_clean:
  assumes "rd_failure r = []" and "\<not> rd_terminalSeen r" and "ev_Type e \<noteq> ''done''"
  shows "reducer_Observe quote e c r = r \<and> ev_Type e \<notin> set failing_event_types \<and> c = None
    \<or> rd_failure (reducer_Observe quote e c r) \<noteq> [] \<and> (ev_Type e \<in> set failing_event_types \<or> c \<noteq> None)"
  using assms by (cases c) (auto simp: reducer_Observe_def Let_def)

lemma reducer_success:
  "rd_failure r = [] \<Longrightarrow> \<not> rd_terminalSeen r \<Longrightarrow> fst (reducer_Result cause (observe_all quote r evs)) = stream_success evs"
proof (induction evs arbitrary: r)
  case Nil
  then show ?case by (auto simp: reducer_Result_def Let_def split: option.splits)
next
  case (Cons ec evs)
  obtain e c where ec: "ec = (e, c)" by (cases ec)
  show ?case
  proof (cases "ev_Type e = ''done''")
    case True
    then have "rd_terminalSeen (reducer_Observe quote e c r)"
      and "rd_failure (reducer_Observe quote e c r) = [] \<longleftrightarrow> stream_success (ec # evs)"
      using Cons.prems ec by (auto simp: reducer_Observe_def Let_def split: prod.splits)
    then show ?thesis by (simp add: ec observe_all_seen reducer_Result_def)
  next
    case False
    from observe_clean [OF Cons.prems this, of quote c] show ?thesis
      using Cons False by (auto simp: ec observe_all_failed result_failed)
  qed
qed

lemma reduce_success: "fst (reducer_Result cause (reduce_events quote evs)) = stream_success evs"
  unfolding reduce_events_def by (rule reducer_success) (simp_all add: new_reducer_def)

lemma reducer_explains: "\<not> fst (reducer_Result cause r) \<Longrightarrow> snd (reducer_Result cause r) \<noteq> []"
  by (auto simp: reducer_Result_def Let_def split: option.splits if_splits)

lemma partial_bound:
  "length (pr_text r) \<le> teamTaskResultPrefixLimit \<Longrightarrow> length (pr_text (partial_Append s r)) \<le> teamTaskResultPrefixLimit"
  using length_contextUTF8Prefix [of "to_valid_utf8 s" "teamTaskResultPrefixLimit - length (pr_text r)"]
  by (auto simp: partial_Append_def Let_def)

lemma partial_text_bound: "length (pr_text (partial_text evs)) \<le> teamTaskResultPrefixLimit"
proof -
  have "length (pr_text (foldl (\<lambda>r (e, c). if ev_Type e = ''text''
      then (case ev_Data e of TextData s \<Rightarrow> partial_Append s r | _ \<Rightarrow> r) else r) r evs)) \<le> teamTaskResultPrefixLimit"
    if "length (pr_text r) \<le> teamTaskResultPrefixLimit" for r
    using that by (induction evs arbitrary: r) (auto split: event_data.splits simp: partial_bound)
  from this [of "\<lparr>pr_text = [], pr_clipped = False\<rparr>"] show ?thesis by (simp add: partial_text_def)
qed

section \<open>A task after its run\<close>

lemma executeTask_fields:
  "tt_ID (fst (executeTask quote ru run t)) = tt_ID t" "tt_DependsOn (fst (executeTask quote ru run t)) = tt_DependsOn t"
  "ws_ID (fst (snd (executeTask quote ru run t))) = worker_id t"
  by (auto simp: executeTask_def failStartedTask_def Let_def split: sum.splits prod.splits)

lemma runtime_ignores_status:
  "resolveTaskRuntime quote ru (t\<lparr>tt_Status := a, tt_StartedAt := b, tt_AssignedTo := c\<rparr>) = resolveTaskRuntime quote ru t"
proof -
  have "tt_Model (t\<lparr>tt_Status := a, tt_StartedAt := b, tt_AssignedTo := c\<rparr>) = tt_Model t"
    "tt_Provider (t\<lparr>tt_Status := a, tt_StartedAt := b, tt_AssignedTo := c\<rparr>) = tt_Provider t" by simp_all
  then show ?thesis unfolding resolveTaskRuntime_def by (simp only:)
qed

lemma executeTask_status:
  "tt_Status (fst (executeTask quote ru run t)) =
     (if (\<exists>pm. resolveTaskRuntime quote ru t = Inr pm) \<and> stream_success (wr_events run) then ''completed'' else ''failed'')"
  using reduce_success [of "wr_cause run" quote "wr_events run"]
  by (auto simp: executeTask_def failStartedTask_def runtime_ignores_status Let_def split: sum.splits prod.splits)

section \<open>From the finalizer to the team\<close>

text \<open>
  The data the loop attaches to an outcome is well formed: no key only differs from
  \<^verbatim>\<open>terminalState\<close> in letter case, and the completion fields have the types the loop gives them.
\<close>

definition field_ok :: "string \<times> json \<Rightarrow> bool" where
  "field_ok kj = (case kj of (k, j) \<Rightarrow> let f = fold_key (json_string k) in
     (f = fold_key ''terminalState'' \<longrightarrow> k = ''terminalState'')
     \<and> (f = fold_key ''completionStatus'' \<longrightarrow> j = JNull \<or> json_to_string j \<noteq> None)
     \<and> (f = fold_key ''completionRevision'' \<longrightarrow> j = JNull \<or> json_to_uint64 j \<noteq> None)
     \<and> (f = fold_key ''completionCriteria'' \<or> f = fold_key ''completionSatisfied'' \<or> f = fold_key ''completionBlocked''
          \<longrightarrow> j = JNull \<or> json_to_int j \<noteq> None))"

lemma decode_field_total:
  "(\<And>k j v. (k, j) \<in> set es \<Longrightarrow> fold_key k = fold_key name \<Longrightarrow> store j v \<noteq> None) \<Longrightarrow> decode_field store name es v \<noteq> None"
proof (induction es arbitrary: v)
  case (Cons e es)
  obtain k j where e: "e = (k, j)" by (cases e)
  have rest: "decode_field store name es w \<noteq> None" for w
  proof (rule Cons.IH)
    fix k j v
    assume "(k, j) \<in> set es" "fold_key k = fold_key name"
    with Cons.prems [of k j v] show "store j v \<noteq> None" by simp
  qed
  from Cons.prems [of k j v] e have "fold_key k = fold_key name \<Longrightarrow> store j v \<noteq> None" by simp
  with e rest show ?case by (auto split: option.splits)
qed simp

lemma encode_typed [simp]:
  "json_encode j = JNull \<longleftrightarrow> j = JNull" "json_to_string (json_encode j) \<noteq> None \<longleftrightarrow> json_to_string j \<noteq> None"
  "json_to_int (json_encode j) = json_to_int j" "json_to_uint64 (json_encode j) = json_to_uint64 j"
  by (cases j; simp add: json_to_string_def json_to_int_def json_to_uint64_def)+

lemma field_ok_typed:
  "field_ok (k, j) \<Longrightarrow> fold_key (json_string k) = fold_key ''completionStatus'' \<Longrightarrow> json_encode j = JNull \<or> json_to_string (json_encode j) \<noteq> None"
  "field_ok (k, j) \<Longrightarrow> fold_key (json_string k) = fold_key ''completionRevision'' \<Longrightarrow> json_encode j = JNull \<or> json_to_uint64 (json_encode j) \<noteq> None"
  "field_ok (k, j) \<Longrightarrow> fold_key (json_string k) = fold_key ''completionCriteria'' \<or> fold_key (json_string k) = fold_key ''completionSatisfied''
     \<or> fold_key (json_string k) = fold_key ''completionBlocked'' \<Longrightarrow> json_encode j = JNull \<or> json_to_int (json_encode j) \<noteq> None"
  unfolding encode_typed field_ok_def prod.case Let_def by blast+

lemma frame_literals:
  "fold_key (json_string ''terminalState'') = fold_key ''terminalState''" "json_string ''blocked'' = ''blocked''"
  "list_all field_ok [(''kind'', JStr []), (''stopReason'', JStr []), (''durablePolicy'', JStr [])]"
  "fold_key ''completionStatus'' \<noteq> fold_key ''terminalState''"
  "fold_key ''completionRevision'' \<noteq> fold_key ''terminalState''"
  "fold_key ''completionCriteria'' \<noteq> fold_key ''terminalState''"
  "fold_key ''completionSatisfied'' \<noteq> fold_key ''terminalState''"
  "fold_key ''completionBlocked'' \<noteq> fold_key ''terminalState''"
  by code_simp+

definition members_ok :: "(string \<times> json) list \<Rightarrow> bool" where
  "members_ok m \<longleftrightarrow> (''terminalState'', JStr EvidenceTerminalBlocked) \<in> set m
     \<and> (\<forall>kj \<in> set m. kj = (''terminalState'', JStr EvidenceTerminalBlocked) \<or> field_ok kj \<and> fst kj \<noteq> ''terminalState'')"

lemma failed_payload_members:
  assumes "\<not> to_success oc" and "list_all field_ok (to_data oc)"
  shows "members_ok (done_payload oc)"
proof -
  have "field_ok (''kind'', JStr s)" "field_ok (''stopReason'', JStr s)" "field_ok (''durablePolicy'', JStr s)" for s
    using frame_literals(3) by (simp_all add: field_ok_def Let_def json_to_string_def json_to_int_def json_to_uint64_def)
  with assms show ?thesis
    by (auto simp: members_ok_def done_payload_def put_def cloneRunTerminalData_def list_all_iff Let_def)
qed

lemma blocked_frame:
  assumes "members_ok m"
  shows "snd (durableRunTerminalFromEvent (MapData m)) \<and> BlocksSuccess (fst (durableRunTerminalFromEvent (MapData m)))"
proof -
  define es where "es = map (\<lambda>(k, j). (json_string k, json_encode j)) (sort_key fst m)"
  have es: "(k, j) \<in> set es \<longleftrightarrow> (\<exists>k' j'. (k', j') \<in> set m \<and> k = json_string k' \<and> j = json_encode j')" for k j
    by (auto simp: es_def)
  have mem: "(k', j') = (''terminalState'', JStr ''blocked'') \<or> field_ok (k', j') \<and> k' \<noteq> ''terminalState''" if "(k', j') \<in> set m" for k' j'
    using assms that by (auto simp: members_ok_def)
  have state: "decode_field (store_pointer json_to_string) ''terminalState'' es None = Some (Some ''blocked'')"
  proof (rule decode_field_agree [where j = "JStr ''blocked''"])
    show "\<exists>k. (k, JStr ''blocked'') \<in> set es \<and> fold_key k = fold_key ''terminalState''"
      using assms frame_literals(1,2) unfolding es members_ok_def by (metis json_encode.simps(1))
    show "j = JStr ''blocked''" if "(k, j) \<in> set es" "fold_key k = fold_key ''terminalState''" for k j
      using that mem frame_literals(2) unfolding es by (fastforce simp: field_ok_def Let_def)
  qed (simp add: store_pointer_def json_to_string_def)
  have total: "decode_field (store_pointer conv) name es None \<noteq> None"
    if "\<And>k' j'. (k', j') \<in> set m \<Longrightarrow> fold_key (json_string k') = fold_key name \<Longrightarrow> json_encode j' = JNull \<or> conv (json_encode j') \<noteq> None"
    for name and conv :: "json \<Rightarrow> 'v option"
  proof (rule decode_field_total)
    fix k j v
    assume "(k, j) \<in> set es" "fold_key k = fold_key name"
    then obtain k' j' where "(k', j') \<in> set m" "fold_key (json_string k') = fold_key name" "j = json_encode j'"
      unfolding es by blast
    with that [of k' j'] show "store_pointer conv j v \<noteq> None" by (auto simp: store_pointer_def)
  qed
  have ok: "field_ok (k', j')" if "(k', j') \<in> set m" "fold_key (json_string k') \<noteq> fold_key (json_string ''terminalState'')" for k' j'
    using mem [OF that(1)] that(2) by blast
  have "decode_field (store_pointer json_to_string) ''completionStatus'' es None \<noteq> None"
    by (rule total, rule field_ok_typed(1), rule ok) (simp_all add: frame_literals)
  moreover have "decode_field (store_pointer json_to_uint64) ''completionRevision'' es None \<noteq> None"
    by (rule total, rule field_ok_typed(2), rule ok) (simp_all add: frame_literals)
  moreover have "decode_field (store_pointer json_to_int) ''completionCriteria'' es None \<noteq> None"
    by (rule total, rule field_ok_typed(3), rule ok, assumption) (metis frame_literals(1,6), blast)
  moreover have "decode_field (store_pointer json_to_int) ''completionSatisfied'' es None \<noteq> None"
    by (rule total, rule field_ok_typed(3), rule ok, assumption) (metis frame_literals(1,7), blast)
  moreover have "decode_field (store_pointer json_to_int) ''completionBlocked'' es None \<noteq> None"
    by (rule total, rule field_ok_typed(3), rule ok, assumption) (metis frame_literals(1,8), blast)
  ultimately obtain inp where "decode_terminal es = Some inp" and "ti_TerminalState inp = Some ''blocked''"
    using state by (auto simp: decode_terminal_def)
  then show ?thesis
    by (simp add: durableRunTerminalFromEvent_def decodeDurableRunEvent_def marshal_def json_members_def es_def
        terminal_of_input_def durableRunTerminalState_def BlocksSuccess_def Let_def)
qed

lemma stream_after_clean:
  "list_all (\<lambda>(x, c). ev_Type x \<noteq> ''done'') evs \<Longrightarrow> ev_Type e = ''done'' \<Longrightarrow>
     snd (DecodeDurableRunTerminalMetadata (ev_Data e)) \<Longrightarrow> BlocksSuccess (fst (DecodeDurableRunTerminalMetadata (ev_Data e)))
     \<Longrightarrow> \<not> stream_success (evs @ (e, c) # rest)"
  by (induction evs) auto

text \<open>Every event the finalizer sends is the done frame of the first outcome.\<close>

lemma finalizer_sends:
  assumes "EventSent e \<in> set (rf_trace (fin_run tf rec ops))"
  shows "ev_Type e = ''done'' \<and> (\<exists>oc. first_outcome tf ops = Some oc \<and> ev_Data e = MapData (done_payload oc))"
proof -
  have "rf_finalized f \<longrightarrow> rf_outcome f \<noteq> None" if "f = fin_run tf rec ops" for f
    using that
  proof (induction ops arbitrary: f rule: rev_induct)
    case (snoc op ops)
    then show ?case by (cases op) (auto simp: finalizer_defs Let_def split: option.splits)
  qed simp
  moreover have "\<forall>e. EventSent e \<in> set (rf_trace f) \<longrightarrow> rf_finalized f \<and> ev_Type e = ''done''
      \<and> (\<exists>oc. rf_outcome f = Some oc \<and> ev_Data e = MapData (done_payload oc))" if "f = fin_run tf rec ops" for f
    using that
  proof (induction ops arbitrary: f rule: rev_induct)
    case Nil
    then show ?case by (auto simp: newRunTerminalFinalizer_def emit_def Let_def split: if_splits)
  next
    case (snoc op ops)
    then show ?case
      by (cases op) (auto simp: finalizer_defs Let_def failRun_def split: option.splits if_splits)
  qed
  ultimately obtain oc where o: "rf_finalized (fin_run tf rec ops)" "rf_outcome (fin_run tf rec ops) = Some oc"
    "ev_Type e = ''done''" "ev_Data e = MapData (done_payload oc)" using assms by blast
  then have "OpFinalize \<in> set ops" by (simp add: finalized_run)
  from run_payload [OF this, of tf rec] o obtain fo where fo: "first_outcome tf ops = Some fo"
    "oc\<lparr>to_summary := None\<rparr> = fo\<lparr>to_summary := None\<rparr>" by auto
  from arg_cong [OF fo(2), of done_payload] fo(1) o show ?thesis by simp
qed

section \<open>Properties\<close>

text \<open>
  C34. A task is completed exactly if its provider and model resolve and the event stream of
  its worker reaches a done frame that does not block success, with no failure event and no
  cancellation seen before it; otherwise it is failed, with a reason. A cancellation after the
  done frame changes nothing, and the text kept in memory stays within its limit.
\<close>

theorem task_completed_exactly:
  "tt_Status (fst (executeTask quote ru run t)) =
      (if (\<exists>pm. resolveTaskRuntime quote ru t = Inr pm) \<and> stream_success (wr_events run) then ''completed'' else ''failed'')
   \<and> (tt_Status (fst (executeTask quote ru run t)) = ''failed'' \<longrightarrow> tt_Result (fst (executeTask quote ru run t)) \<noteq> [])
   \<and> length (pr_text (partial_text (wr_events run))) \<le> teamTaskResultPrefixLimit"
proof -
  have "tt_Result (fst (executeTask quote ru run t)) \<noteq> []" if "tt_Status (fst (executeTask quote ru run t)) = ''failed''"
    using that reducer_explains [of "wr_cause run" "reduce_events quote (wr_events run)"]
    by (auto simp: executeTask_def failStartedTask_def Let_def split: sum.splits prod.splits if_splits)
  then show ?thesis using executeTask_status partial_text_bound by blast
qed

definition sample_run :: "(event \<times> string option) list \<Rightarrow> worker_run" where
  "sample_run evs = \<lparr>wr_started = 1, wr_finished = 2, wr_events = evs, wr_cause = None, wr_outputPath = ''out''\<rparr>"

definition sample_runtime :: team_runtime where
  "sample_runtime = \<lparr>ru_provider = Some ''p'', ru_model = ''m'', ru_factory = None\<rparr>"

theorem task_completed_exactly_witness:
  "tt_Result (fst (executeTask id sample_runtime (sample_run []) (wave_task ''a'' []))) \<noteq> []"
proof -
  have "\<not> stream_success (wr_events (sample_run []))" by (simp add: sample_run_def)
  then have "tt_Status (fst (executeTask id sample_runtime (sample_run []) (wave_task ''a'' []))) = ''failed''"
    using task_completed_exactly [of id sample_runtime "sample_run []" "wave_task ''a'' []"] by simp
  then show ?thesis using task_completed_exactly [of id sample_runtime "sample_run []" "wave_task ''a'' []"] by blast
qed

text \<open>
  A run that did not succeed never completes a team task: if the finalizer of the run
  recorded a failure first, or no outcome at all, then a worker that receives the frame the
  finalizer sent, after events of any kind that are not done frames, leaves its task failed,
  whatever was seen before and whatever comes later.
\<close>

theorem failed_run_fails_task:
  assumes "first_outcome tf ops = Some oc" and "\<not> to_success oc" and "list_all field_ok (to_data oc)"
    and "EventSent e \<in> set (rf_trace (fin_run tf rec ops))"
    and "wr_events run = before @ (e, c) # rest" and "list_all (\<lambda>(x, c). ev_Type x \<noteq> ''done'') before"
  shows "tt_Status (fst (executeTask quote ru run t)) = ''failed''"
proof -
  from finalizer_sends [OF assms(4)] assms(1) have e: "ev_Type e = ''done''" "ev_Data e = MapData (done_payload oc)" by auto
  from blocked_frame [OF failed_payload_members [OF assms(2,3)]]
  have "snd (DecodeDurableRunTerminalMetadata (ev_Data e))" "BlocksSuccess (fst (DecodeDurableRunTerminalMetadata (ev_Data e)))"
    by (simp_all add: e DecodeDurableRunTerminalMetadata_def)
  with stream_after_clean [OF assms(6) e(1)] have "\<not> stream_success (wr_events run)" unfolding assms(5) by blast
  then show ?thesis by (simp add: executeTask_status)
qed

definition no_outcome_frame :: event where
  "no_outcome_frame = \<lparr>ev_Type = ''done'', ev_Data = MapData (done_payload (no_terminal_outcome :: (nat, unit) terminal_outcome))\<rparr>"

theorem failed_run_fails_task_witness:
  "tt_Status (fst (executeTask id sample_runtime (sample_run [(no_outcome_frame, None)]) (wave_task ''a'' []))) = ''failed''"
proof -
  let ?ops = "[OpFinalize] :: (nat, unit) finalizer_op list"
  have first: "first_outcome sample_filters ?ops = Some no_terminal_outcome" by simp
  have oc: "\<not> to_success (no_terminal_outcome :: (nat, unit) terminal_outcome)"
    "list_all field_ok (to_data (no_terminal_outcome :: (nat, unit) terminal_outcome))" by (simp_all add: no_terminal_outcome_def)
  have sent: "EventSent no_outcome_frame \<in> set (rf_trace (fin_run sample_filters NoRecorder ?ops))"
    by (simp add: finalizer_defs newRunTerminalFinalizer_def no_outcome_frame_def no_terminal_outcome_def Let_def)
  have "wr_events (sample_run [(no_outcome_frame, None)]) = [] @ (no_outcome_frame, None) # []" by (simp add: sample_run_def)
  from failed_run_fails_task [OF first oc sent this] show ?thesis by simp
qed

end
