(* ===== verification/Team_Order.thy ===== *)
theory Team_Order
  imports Team_Run
begin

text \<open>
  The order in which a team runs its tasks: a batch starts only when all waves before it are
  completed, no task starts twice, and the run ends.
\<close>

section \<open>Tasks by identifier\<close>

definition done_ids :: "team_state \<Rightarrow> string set" where
  "done_ids team = {i. \<exists>t. getTask (te_tasks team) i = Some t \<and> tt_Status t = ''completed''}"

definition same_ids :: "team_state \<Rightarrow> team_state \<Rightarrow> bool" where
  "same_ids a b \<longleftrightarrow> map tt_ID (te_tasks b) = map tt_ID (te_tasks a)"

text \<open>Only the tasks of \<^verbatim>\<open>ids\<close> may have changed.\<close>

definition touches :: "string set \<Rightarrow> team_state \<Rightarrow> team_state \<Rightarrow> bool" where
  "touches ids a b \<longleftrightarrow> same_ids a b \<and> (\<forall>i. i \<notin> ids \<longrightarrow> getTask (te_tasks b) i = getTask (te_tasks a) i)"

lemma touches_refl [simp]: "touches ids a a"
  by (simp add: touches_def same_ids_def)

lemma touches_trans: "touches x a b \<Longrightarrow> touches y b c \<Longrightarrow> touches (x \<union> y) a c"
  by (auto simp: touches_def same_ids_def)

lemma touches_mono: "touches x a b \<Longrightarrow> x \<subseteq> y \<Longrightarrow> touches y a b"
  by (auto simp: touches_def)

lemma done_touches: "touches x a b \<Longrightarrow> i \<in> done_ids a \<Longrightarrow> i \<notin> x \<Longrightarrow> i \<in> done_ids b"
  by (auto simp: touches_def done_ids_def)

lemma replace_ids [simp]: "map tt_ID (replace_task t ts) = map tt_ID ts"
  by (induction ts) auto

lemma getTask_replace:
  "getTask (replace_task t ts) i = (if i = tt_ID t \<and> i \<in> tt_ID ` set ts then Some t else getTask ts i)"
  by (induction ts) (auto simp: getTask_def)

lemma getTask_ids: "getTask ts i \<noteq> None \<longleftrightarrow> i \<in> tt_ID ` set ts"
  by (auto simp: getTask_def find_None_iff)

lemma getTask_id: "getTask ts i = Some t \<Longrightarrow> tt_ID t = i \<and> t \<in> set ts"
  by (auto simp: getTask_def find_Some_iff)

lemma ids_same: "same_ids a b \<Longrightarrow> tt_ID ` set (te_tasks b) = tt_ID ` set (te_tasks a)"
  unfolding same_ids_def by (metis set_map)

section \<open>A batch\<close>

lemma finish_touches: "touches {tt_ID (fst r)} team (finish_task team r)"
  by (cases r) (auto simp: finish_task_def touches_def same_ids_def getTask_replace)

lemma finish_get: "tt_ID (fst r) \<in> tt_ID ` set (te_tasks team) \<Longrightarrow> getTask (te_tasks (finish_task team r)) (tt_ID (fst r)) = Some (fst r)"
  by (cases r) (simp add: finish_task_def getTask_replace)

lemma finish_all:
  assumes "distinct (map (tt_ID \<circ> fst) rs)" and "(tt_ID \<circ> fst) ` set rs \<subseteq> tt_ID ` set (te_tasks team)"
  shows "touches ((tt_ID \<circ> fst) ` set rs) team (foldl finish_task team rs)
    \<and> (\<forall>r \<in> set rs. getTask (te_tasks (foldl finish_task team rs)) (tt_ID (fst r)) = Some (fst r))"
  using assms
proof (induction rs arbitrary: team)
  case (Cons r rs)
  have one: "touches {tt_ID (fst r)} team (finish_task team r)" by (rule finish_touches)
  then have "tt_ID ` set (te_tasks (finish_task team r)) = tt_ID ` set (te_tasks team)"
    by (auto simp: touches_def dest: ids_same)
  with Cons have IH: "touches ((tt_ID \<circ> fst) ` set rs) (finish_task team r) (foldl finish_task (finish_task team r) rs)"
    "\<forall>r' \<in> set rs. getTask (te_tasks (foldl finish_task (finish_task team r) rs)) (tt_ID (fst r')) = Some (fst r')" by auto
  have "getTask (te_tasks (foldl finish_task (finish_task team r) rs)) (tt_ID (fst r)) = Some (fst r)"
    using IH(1) Cons.prems finish_get [of r team] by (auto simp: touches_def)
  with IH touches_trans [OF one IH(1)] show ?case by simp
qed simp

lemma runWaveBatch_spec:
  assumes "distinct (map tt_ID batch)" and "tt_ID ` set batch \<subseteq> tt_ID ` set (te_tasks team)"
    and "runWaveBatch quote ru runs batch team = (team', err)"
  shows "touches (tt_ID ` set batch) team team' \<and> (err = None \<longrightarrow> tt_ID ` set batch \<subseteq> done_ids team')"
proof -
  define rs where "rs = map (\<lambda>t. executeTask quote ru (runs (tt_ID t)) t) batch"
  have ids: "map (tt_ID \<circ> fst) rs = map tt_ID batch" by (simp add: rs_def executeTask_fields)
  have set_ids: "(tt_ID \<circ> fst) ` set rs = tt_ID ` set batch" using ids by (metis set_map)
  have team': "team' = foldl finish_task team rs"
    and "err = map_option (\<lambda>r. TaskNotCompleted (tt_ID (fst r)) (tt_Status (fst r))) (find (\<lambda>r. tt_Status (fst r) \<noteq> ''completed'') rs)"
    using assms(3) by (auto simp: runWaveBatch_def rs_def Let_def split: option.splits)
  then have err: "err = None \<longleftrightarrow> list_all (\<lambda>r. tt_Status (fst r) = ''completed'') rs"
    by (force simp: find_None_iff list_all_iff)
  from finish_all [of rs team] ids set_ids assms(1,2)
  have fin: "touches (tt_ID ` set batch) team team'" "\<forall>r \<in> set rs. getTask (te_tasks team') (tt_ID (fst r)) = Some (fst r)"
    by (auto simp: team')
  have "i \<in> done_ids team'" if "err = None" "i \<in> tt_ID ` set batch" for i
  proof -
    from that(2) set_ids obtain r where "r \<in> set rs" "i = tt_ID (fst r)" by (metis comp_apply image_iff)
    with fin(2) that(1) err show ?thesis by (auto simp: done_ids_def list_all_iff)
  qed
  with fin(1) show ?thesis by blast
qed

section \<open>Progress\<close>

text \<open>
  The batches \<^verbatim>\<open>extra\<close> took the team from one state to another: every task of \<^verbatim>\<open>ids\<close> started at
  most once and nothing else changed; without an error all of them started and are completed.
\<close>

definition progress :: "string set \<Rightarrow> team_state \<Rightarrow> team_state \<Rightarrow> exec_error option \<Rightarrow> string list list \<Rightarrow> bool" where
  "progress ids a b err extra \<longleftrightarrow> touches (set (concat extra)) a b \<and> distinct (concat extra) \<and> set (concat extra) \<subseteq> ids
     \<and> (err = None \<longrightarrow> set (concat extra) = ids \<and> ids \<subseteq> done_ids b)"

lemma progress_none [simp]: "progress {} a a None []"
  by (simp add: progress_def)

lemma progress_error [simp]: "progress ids a a (Some e) []"
  by (simp add: progress_def)

lemma progress_stop: "progress x a b (Some e) es \<Longrightarrow> x \<subseteq> y \<Longrightarrow> progress y a b (Some e') es"
  by (auto simp: progress_def)

lemma progress_keeps:
  assumes "progress x a b None es" and "progress y b c err fs" and "x \<inter> y = {}"
  shows "x \<subseteq> done_ids c"
proof
  fix i
  assume "i \<in> x"
  with assms(1) have "i \<in> done_ids b" by (auto simp: progress_def)
  moreover have "touches (set (concat fs)) b c" "set (concat fs) \<subseteq> y" using assms(2) by (simp_all add: progress_def)
  ultimately show "i \<in> done_ids c" using done_touches [of "set (concat fs)" b c i] \<open>i \<in> x\<close> assms(3) by blast
qed

lemma progress_append:
  assumes "progress x a b None es" and "progress y b c err fs" and "x \<inter> y = {}"
  shows "progress (x \<union> y) a c err (es @ fs)"
proof -
  have fs: "set (concat fs) \<subseteq> y" "touches (set (concat fs)) b c" and es: "set (concat es) = x" "touches (set (concat es)) a b"
    using assms(1,2) unfolding progress_def by blast+
  have "touches (set (concat (es @ fs))) a c" using touches_trans [OF es(2) fs(2)] by simp
  moreover have "distinct (concat (es @ fs))"
    using assms fs(1) es(1) by (simp only: progress_def concat_append distinct_append) blast
  moreover have "set (concat (es @ fs)) = x \<union> set (concat fs)" using es(1) by simp
  ultimately show ?thesis
    using assms(2) fs(1) progress_keeps [OF assms] unfolding progress_def by blast
qed

lemma batch_progress:
  assumes "distinct (map tt_ID batch)" and "tt_ID ` set batch \<subseteq> tt_ID ` set (te_tasks team)"
    and "runWaveBatch quote ru runs batch team = (team', err)"
  shows "progress (tt_ID ` set batch) team team' err [map tt_ID batch]"
  using runWaveBatch_spec [OF assms] assms(1) by (simp add: progress_def)

lemma wave_steps_progress:
  assumes "length pending < n" and "distinct (map tt_ID pending)" and "tt_ID ` set pending \<subseteq> tt_ID ` set (te_tasks team)"
  shows "\<exists>team' err extra. wave_steps n quote ru runs budget k cap w pending team bs = Some (team', err, bs @ extra)
    \<and> progress (tt_ID ` set pending) team team' err extra"
  using assms
proof (induction n arbitrary: k pending team bs)
  case (Suc n)
  define batch where "batch = selectWaveBatch cap pending"
  define rest where "rest = filter (\<lambda>t. tt_ID t \<notin> tt_ID ` set batch) pending"
  have bd: "distinct (map tt_ID batch)" and bset: "set batch \<subseteq> set pending"
    unfolding batch_def using select_ids [OF Suc.prems(2)] by blast+
  have bids: "tt_ID ` set batch \<subseteq> tt_ID ` set pending" by (rule image_mono [OF bset])
  consider "pending = []" | "pending \<noteq> []" "budget k \<noteq> None \<or> batch = []" | "pending \<noteq> []" "budget k = None" "batch \<noteq> []" by blast
  then show ?case
  proof cases
    case 1
    then show ?thesis by (intro exI [of _ team] exI [of _ None] exI [of _ "[]"]) simp
  next
    case 2
    then show ?thesis
      by (intro exI [of _ team] exI [of _ "[]"] exI [of _ "case budget k of Some e \<Rightarrow> Some (BudgetExpired e)
            | None \<Rightarrow> Some (NoRunnableTasks w)"]) (auto simp: batch_def split: option.splits)
  next
    case 3
    obtain team1 err1 where run: "runWaveBatch quote ru runs batch team = (team1, err1)" by (cases "runWaveBatch quote ru runs batch team")
    note step = batch_progress [OF bd order_trans [OF bids Suc.prems(3)] run]
    have unfold: "wave_steps (Suc n) quote ru runs budget k cap w pending team bs = (case err1 of
        Some e \<Rightarrow> Some (team1, Some (case budget (Suc k) of Some b \<Rightarrow> BudgetExpired b | None \<Rightarrow> e), bs @ [map tt_ID batch])
      | None \<Rightarrow> wave_steps n quote ru runs budget (Suc k) cap w rest team1 (bs @ [map tt_ID batch]))"
      using 3 run by (simp add: batch_def [symmetric] rest_def Let_def split: option.split)
    show ?thesis
    proof (cases err1)
      case (Some e)
      with unfold progress_stop [OF step [unfolded Some] bids] show ?thesis by auto
    next
      case None
      have ids: "tt_ID ` set rest = tt_ID ` set pending - tt_ID ` set batch" by (auto simp: rest_def)
      have "\<exists>t \<in> set pending. tt_ID t \<in> tt_ID ` set batch" using 3(3) bset by (cases batch) auto
      then have small: "length rest < n"
        using Suc.prems(1) length_filter_less [of _ pending "\<lambda>t. tt_ID t \<notin> tt_ID ` set batch"] unfolding rest_def by fastforce
      have dist: "distinct (map tt_ID rest)" using Suc.prems(2) by (simp add: rest_def distinct_map_filter)
      have known: "tt_ID ` set rest \<subseteq> tt_ID ` set (te_tasks team1)"
        using ids Suc.prems(3) step ids_same [of team team1] by (auto simp: progress_def touches_def)
      from Suc.IH [OF small dist known, of "Suc k" "bs @ [map tt_ID batch]"]
      obtain team' err extra where r: "wave_steps n quote ru runs budget (Suc k) cap w rest team1 (bs @ [map tt_ID batch])
          = Some (team', err, (bs @ [map tt_ID batch]) @ extra)" and p: "progress (tt_ID ` set rest) team1 team' err extra"
        by (elim exE conjE) (rule that)
      have "tt_ID ` set batch \<union> tt_ID ` set rest = tt_ID ` set pending" using ids bids by blast
      with progress_append [OF step [unfolded None] p] ids
      have "progress (tt_ID ` set pending) team team' err ([map tt_ID batch] @ extra)" by auto
      then show ?thesis using unfold None r by auto
    qed
  qed
qed simp

section \<open>Waves\<close>

lemma pending_ids:
  "set ids \<subseteq> tt_ID ` set ts \<Longrightarrow> map tt_ID (List.map_filter (getTask ts) ids) = ids"
proof (induction ids)
  case (Cons i ids)
  then obtain t where "getTask ts i = Some t" using getTask_ids [of ts i] by auto
  with Cons getTask_id [of ts i t] show ?case by (simp add: List.map_filter_simps)
qed (simp add: List.map_filter_simps)

lemma executeWave_progress:
  assumes "distinct ids" and "set ids \<subseteq> tt_ID ` set (te_tasks team)"
  shows "\<exists>team' err extra. executeWave quote ru runs budget cap w ids team = Some (team', err, extra)
    \<and> progress (set ids) team team' err extra"
proof -
  define pending where "pending = List.map_filter (getTask (te_tasks team)) ids"
  have ids: "map tt_ID pending = ids" unfolding pending_def by (rule pending_ids [OF assms(2)])
  then have "tt_ID ` set pending = set ids" by (metis set_map)
  with wave_steps_progress [of pending "Suc (length pending)" team quote ru runs budget 0 cap w "[]"] assms ids
  show ?thesis by (auto simp: executeWave_def pending_def [symmetric] Let_def)
qed

text \<open>Every started task is in some wave, and the waves before that one started earlier and are completed.\<close>

definition in_order :: "string list list \<Rightarrow> team_state \<Rightarrow> string list list \<Rightarrow> bool" where
  "in_order waves team batches \<longleftrightarrow> (\<forall>k < length batches. \<forall>i \<in> set (batches ! k). \<exists>j < length waves. i \<in> set (waves ! j)
     \<and> (\<forall>m < j. set (waves ! m) \<subseteq> set (concat (take k batches)) \<inter> done_ids team))"

lemma nth_in_concat: "k < length bs \<Longrightarrow> i \<in> set (bs ! k) \<Longrightarrow> i \<in> set (concat bs)"
  by (auto intro: nth_mem)

lemma in_order_first: "set (concat batches) \<subseteq> set w \<Longrightarrow> in_order (w # ws) team batches"
proof -
  assume "set (concat batches) \<subseteq> set w"
  then have "i \<in> set w" if "k < length batches" "i \<in> set (batches ! k)" for k i using nth_in_concat [OF that] by blast
  then show ?thesis unfolding in_order_def by (intro allI impI ballI exI [of _ 0]) simp
qed

lemma in_order_Cons:
  assumes "set (concat es) = set w" and "set w \<subseteq> done_ids team" and "in_order ws team fs"
  shows "in_order (w # ws) team (es @ fs)"
  unfolding in_order_def
proof (intro allI impI ballI)
  fix k i
  assume k: "k < length (es @ fs)" and i: "i \<in> set ((es @ fs) ! k)"
  show "\<exists>j < length (w # ws). i \<in> set ((w # ws) ! j) \<and> (\<forall>m < j. set ((w # ws) ! m) \<subseteq> set (concat (take k (es @ fs))) \<inter> done_ids team)"
  proof (cases "k < length es")
    case True
    with i have "i \<in> set (es ! k)" by (simp add: nth_append)
    with nth_in_concat [OF True] assms(1) have "i \<in> set w" by blast
    then show ?thesis by (intro exI [of _ 0]) simp
  next
    case False
    with k i have "k - length es < length fs" "i \<in> set (fs ! (k - length es))" by (auto simp: nth_append)
    with assms(3) obtain j where j: "j < length ws" "i \<in> set (ws ! j)"
      and before: "\<forall>m < j. set (ws ! m) \<subseteq> set (concat (take (k - length es) fs)) \<inter> done_ids team"
      unfolding in_order_def by blast
    have "set ((w # ws) ! m) \<subseteq> set (concat (take k (es @ fs))) \<inter> done_ids team" if "m < Suc j" for m
      using that before assms(1,2) False by (cases m) auto
    with j show ?thesis by (intro exI [of _ "Suc j"]) auto
  qed
qed

lemma run_waves_progress:
  assumes "distinct (concat waves)" and "set (concat waves) \<subseteq> tt_ID ` set (te_tasks team)"
  shows "\<exists>team' err extra. run_waves quote ru runs budget cap w waves team bs = Some (team', err, bs @ extra)
    \<and> progress (set (concat waves)) team team' err extra \<and> in_order waves team' extra"
  using assms
proof (induction waves arbitrary: w team bs)
  case Nil
  then show ?case by (simp add: in_order_def)
next
  case (Cons ids waves)
  from executeWave_progress [of ids team quote ru runs "budget w" cap w] Cons.prems
  obtain team1 err1 es where ex: "executeWave quote ru runs (budget w) cap w ids team = Some (team1, err1, es)"
    and p: "progress (set ids) team team1 err1 es" by auto
  show ?case
  proof (cases err1)
    case (Some e)
    have "progress (set (concat (ids # waves))) team team1 (Some (WaveFailed (Suc w) e)) es"
      using p Some by (auto intro: progress_stop)
    moreover have "in_order (ids # waves) team1 es" using p by (intro in_order_first) (simp add: progress_def)
    ultimately show ?thesis using ex Some by auto
  next
    case None
    have "set (concat waves) \<subseteq> tt_ID ` set (te_tasks team1)"
      using Cons.prems(2) p ids_same [of team team1] by (auto simp: progress_def touches_def)
    with Cons.IH [of team1 "Suc w" "bs @ es"] Cons.prems(1)
    obtain team' err fs where r: "run_waves quote ru runs budget cap (Suc w) waves team1 (bs @ es) = Some (team', err, (bs @ es) @ fs)"
      and q: "progress (set (concat waves)) team1 team' err fs" and o: "in_order waves team' fs" by auto
    have apart: "set ids \<inter> set (concat waves) = {}" using Cons.prems(1) by auto
    from progress_append [OF p [unfolded None] q apart] have all: "progress (set (concat (ids # waves))) team team' err (es @ fs)" by simp
    from progress_keeps [OF p [unfolded None] q apart] o p None have "in_order (ids # waves) team' (es @ fs)" by (intro in_order_Cons) (auto simp: progress_def)
    with all ex None r show ?thesis by auto
  qed
qed

lemma all_done:
  assumes "distinct (map tt_ID (te_tasks team))" and "tt_ID ` set (te_tasks team) \<subseteq> done_ids team"
  shows "list_all (\<lambda>t. tt_Status t = ''completed'') (te_tasks team)"
proof -
  have "tt_Status t = ''completed''" if "t \<in> set (te_tasks team)" for t
  proof -
    have "getTask (te_tasks team) (tt_ID t) = Some t"
      unfolding getTask_def by (rule find_key_unique [OF assms(1) that])
    moreover have "tt_ID t \<in> done_ids team" using assms(2) that by blast
    ultimately show ?thesis by (simp add: done_ids_def)
  qed
  then show ?thesis by (simp add: list_all_iff)
qed

section \<open>Properties\<close>

text \<open>
  C38. A team run ends and respects the dependencies of the plan: whatever the workers do and
  whenever the budgets expire, no task is started twice, and a task is only started when all
  tasks it depends on were started in earlier batches and are completed. If the run reports no
  error, every task was started and is completed.
\<close>

theorem team_run_ordered:
  assumes "distinct (map tt_ID (te_tasks team))"
  shows "\<exists>team' err batches.
      ExecuteWaves quote ru runs budget cap (NewTeam_MaxWaveSize configured) team = Some (team', err, batches)
    \<and> distinct (concat batches)
    \<and> (\<forall>k i d. k < length batches \<and> i \<in> set (batches ! k) \<and> d \<in> set (deps_of (te_tasks team) i)
         \<longrightarrow> d \<in> set (concat (take k batches)) \<and> d \<in> done_ids team')
    \<and> (err = None \<longrightarrow> set (concat batches) = tt_ID ` set (te_tasks team)
         \<and> list_all (\<lambda>t. tt_Status t = ''completed'') (te_tasks team'))"
proof (cases rule: ComputeWaves_cases [of configured "te_tasks team"])
  case (planned waves)
  let ?start = "team\<lparr>te_tasks := assign_waves 0 waves (te_tasks team)\<rparr>"
  have ids: "map tt_ID (te_tasks ?start) = map tt_ID (te_tasks team)" by simp
  then have start: "tt_ID ` set (te_tasks ?start) = tt_ID ` set (te_tasks team)" by (metis set_map)
  have known: "set (concat waves) \<subseteq> tt_ID ` set (te_tasks ?start)" unfolding start planned(3) ..
  obtain team' err batches where r: "run_waves quote ru runs budget cap 0 waves ?start [] = Some (team', err, [] @ batches)"
    and p: "progress (set (concat waves)) ?start team' err batches" and o: "in_order waves team' batches"
    using run_waves_progress [OF planned(2) known] by blast
  have same: "map tt_ID (te_tasks team') = map tt_ID (te_tasks team)"
    using p ids by (simp only: progress_def touches_def same_ids_def)
  have "d \<in> set (concat (take k batches)) \<and> d \<in> done_ids team'"
    if k: "k < length batches" and i: "i \<in> set (batches ! k)" and d: "d \<in> set (deps_of (te_tasks team) i)" for k i d
  proof -
    from o k i obtain j where j: "j < length waves" "i \<in> set (waves ! j)"
      and before: "\<forall>m < j. set (waves ! m) \<subseteq> set (concat (take k batches)) \<inter> done_ids team'"
      unfolding in_order_def by blast
    from layered_nth [OF planned(4) j d] obtain m where "m < j" "d \<in> set (waves ! m)" by auto
    with before show ?thesis by blast
  qed
  moreover have "list_all (\<lambda>t. tt_Status t = ''completed'') (te_tasks team')" if "err = None"
  proof (rule all_done)
    show "distinct (map tt_ID (te_tasks team'))" using assms same by (simp only:)
    have "tt_ID ` set (te_tasks team') = tt_ID ` set (te_tasks team)" using same by (metis set_map)
    then show "tt_ID ` set (te_tasks team') \<subseteq> done_ids team'" using p that planned(3) by (simp add: progress_def)
  qed
  moreover have "ExecuteWaves quote ru runs budget cap (NewTeam_MaxWaveSize configured) team = Some (team', err, batches)"
    using planned(1) r by (simp add: ExecuteWaves_def)
  moreover have "distinct (concat batches)" "err = None \<longrightarrow> set (concat batches) = tt_ID ` set (te_tasks team)"
    using p unfolding progress_def planned(3) by blast+
  ultimately show ?thesis by blast
next
  case (circular waves)
  then show ?thesis by (intro exI [of _ "team\<lparr>te_tasks := assign_waves 0 waves (te_tasks team)\<rparr>"]
      exI [of _ "Some (WavesFailed CircularDependency)"] exI [of _ "[]"]) (simp add: ExecuteWaves_def)
qed

definition sample_team :: team_state where
  "sample_team = \<lparr>te_tasks = [wave_task ''b'' [''a''], wave_task ''a'' []], te_workers = Map.empty, te_messages = []\<rparr>"

theorem team_run_ordered_witness:
  "\<exists>team' err batches. ExecuteWaves id sample_runtime (\<lambda>_. sample_run []) (\<lambda>_ _. None) DefaultCloudCapacity
     (NewTeam_MaxWaveSize 0) sample_team = Some (team', err, batches) \<and> distinct (concat batches)"
proof -
  have "distinct (map tt_ID (te_tasks sample_team))" by code_simp
  from team_run_ordered [OF this, of id sample_runtime "\<lambda>_. sample_run []" "\<lambda>_ _. None" DefaultCloudCapacity 0]
  show ?thesis by blast
qed

end
