(* ===== verification/Path_Syntax.thy ===== *)
theory Path_Syntax
  imports Evidence_Ledger
begin

text \<open>
  Lexical paths: the functions of \<^verbatim>\<open>path/filepath\<close> the workspace boundary is built from, on
  Unix, where the separator is the slash and there are no volume names, and the containment
  test \<^verbatim>\<open>pathWithin\<close> of \<^verbatim>\<open>permission.go\<close>. The lemmas show that a cleaned absolute path is determined
  by its components, and that the textual test is exactly containment component by component.
\<close>

named_theorems path_comps \<open>facts on the components of paths\<close>

section \<open>Components\<close>

abbreviation slash :: char where "slash \<equiv> CHR ''/''"

fun split_slash :: "string \<Rightarrow> string list" where
  "split_slash [] = [[]]"
| "split_slash (c # s) =
     (if c = slash then [] # split_slash s
      else (case split_slash s of [] \<Rightarrow> [[c]] | w # ws \<Rightarrow> (c # w) # ws))"

definition IsAbs :: "string \<Rightarrow> bool" where
  "IsAbs p \<longleftrightarrow> p \<noteq> [] \<and> hd p = slash"

text \<open>
  \<^verbatim>\<open>filepath.Clean\<close>: empty and dot elements are dropped, a parent element removes the element
  before it, and at the root it is dropped.
\<close>

definition clean_step :: "bool \<Rightarrow> string list \<Rightarrow> string \<Rightarrow> string list" where
  "clean_step rooted out c =
     (if c = [] \<or> c = ''.'' then out
      else if c = ''..'' then
        (if out \<noteq> [] \<and> last out \<noteq> ''..'' then butlast out else if rooted then out else out @ [c])
      else out @ [c])"

definition clean_elems :: "string \<Rightarrow> string list" where
  "clean_elems p = foldl (clean_step (IsAbs p)) [] (split_slash p)"

definition Clean :: "string \<Rightarrow> string" where
  "Clean p =
     (if IsAbs p then slash # join ''/'' (clean_elems p)
      else if clean_elems p = [] then ''.'' else join ''/'' (clean_elems p))"

definition path_Join :: "string list \<Rightarrow> string" where
  "path_Join elems =
     (case dropWhile (\<lambda>e. e = []) elems of [] \<Rightarrow> [] | es \<Rightarrow> Clean (join ''/'' es))"

text \<open>\<^verbatim>\<open>filepath.Dir\<close> cleans what precedes the last separator, the separator included.\<close>

definition path_Dir :: "string \<Rightarrow> string" where
  "path_Dir p = Clean (rev (dropWhile (\<lambda>c. c \<noteq> slash) (rev p)))"

text \<open>
  \<^verbatim>\<open>filepath.Rel\<close> compares the cleaned paths word by word; what is left of the base is climbed
  up, then what is left of the target is appended.
\<close>

definition rel_words :: "string \<Rightarrow> string list" where
  "rel_words p = (if IsAbs p then [] # (if tl p = [] then [] else split_slash (tl p))
     else if p = [] then [] else split_slash p)"

fun strip_common :: "string list \<Rightarrow> string list \<Rightarrow> string list \<times> string list" where
  "strip_common (b # bs) (t # ts) = (if b = t then strip_common bs ts else (b # bs, t # ts))"
| "strip_common bs ts = (bs, ts)"

definition path_Rel :: "string \<Rightarrow> string \<Rightarrow> string option" where
  "path_Rel basepath targpath =
     (let base = Clean basepath; targ = Clean targpath in
      if targ = base then Some ''.''
      else let base' = (if base = ''.'' then [] else base) in
        if IsAbs base' \<noteq> IsAbs targ then None
        else let (bs, ts) = strip_common (rel_words base') (rel_words targ) in
          if bs \<noteq> [] \<and> ts \<noteq> [] \<and> hd bs = ''..'' then None
          else Some (join ''/'' (map (\<lambda>_. ''..'') bs @ ts)))"

definition pathWithin :: "string \<Rightarrow> string \<Rightarrow> bool" where
  "pathWithin target base =
     (case path_Rel base target of
        None \<Rightarrow> False
      | Some rel \<Rightarrow> rel = ''.'' \<or> (rel \<noteq> ''..'' \<and> \<not> has_prefix rel ''../''))"

definition hasParentTraversalComponent :: "string \<Rightarrow> bool" where
  "hasParentTraversalComponent p =
     list_ex (\<lambda>c. c = ''..'') (split_slash (map (\<lambda>c. if c = CHR 0x5C then slash else c) p))"

section \<open>Cleaned absolute paths\<close>

definition proper_elem :: "string \<Rightarrow> bool" where
  "proper_elem c \<longleftrightarrow> c \<noteq> [] \<and> c \<noteq> ''.'' \<and> c \<noteq> ''..'' \<and> slash \<notin> set c"

definition abs_path :: "string list \<Rightarrow> string" where
  "abs_path cs = slash # join ''/'' cs"

definition clean_abs :: "string \<Rightarrow> bool" where
  "clean_abs p \<longleftrightarrow> IsAbs p \<and> Clean p = p"

lemma split_slash_nonempty [simp]: "split_slash s \<noteq> []"
  by (induction s) (auto split: list.splits)

lemma split_slash_no_slash: "w \<in> set (split_slash s) \<Longrightarrow> slash \<notin> set w"
  by (induction s arbitrary: w) (auto split: list.splits if_splits)

lemma split_slash_word [path_comps]: "slash \<notin> set w \<Longrightarrow> split_slash w = [w]"
  by (induction w) auto

lemma split_slash_append [path_comps]: "slash \<notin> set w \<Longrightarrow> split_slash (w @ slash # s) = w # split_slash s"
  by (induction w) auto

lemma split_slash_join [path_comps]:
  "cs \<noteq> [] \<Longrightarrow> list_all (\<lambda>c. slash \<notin> set c) cs \<Longrightarrow> split_slash (join ''/'' cs) = cs"
  by (induction cs rule: induct_list012) (simp_all add: path_comps)

lemma clean_step_rooted:
  assumes "list_all proper_elem out" and "slash \<notin> set c"
  shows "list_all proper_elem (clean_step True out c)"
proof -
  have "list_all proper_elem (butlast out)"
    using assms(1) unfolding list_all_iff by (blast dest: in_set_butlastD)
  moreover have "proper_elem c" if "\<not> (c = [] \<or> c = ''.'')" "c \<noteq> ''..''"
    unfolding proper_elem_def using that assms(2) by blast
  ultimately show ?thesis
    unfolding clean_step_def using assms(1) by (simp only: list_all_append list.pred_inject split: if_split) blast
qed

lemma foldl_clean_rooted:
  "list_all proper_elem out \<Longrightarrow> list_all (\<lambda>c. slash \<notin> set c) cs
     \<Longrightarrow> list_all proper_elem (foldl (clean_step True) out cs)"
proof (induction cs arbitrary: out)
  case (Cons c cs)
  then have "list_all proper_elem (clean_step True out c)"
    by (intro clean_step_rooted) simp_all
  with Cons show ?case by simp
qed simp

lemma clean_elems_proper: "IsAbs p \<Longrightarrow> list_all proper_elem (clean_elems p)"
  unfolding clean_elems_def
  using foldl_clean_rooted [of "[]" "split_slash p"] by (simp add: list_all_iff split_slash_no_slash)

lemma foldl_clean_proper: "list_all proper_elem cs \<Longrightarrow> foldl (clean_step r) out cs = out @ cs"
  by (induction cs arbitrary: out) (auto simp: clean_step_def proper_elem_def)

lemma proper_no_slash: "list_all proper_elem cs \<Longrightarrow> list_all (\<lambda>c. slash \<notin> set c) cs"
  by (auto simp: list_all_iff proper_elem_def)

lemma IsAbs_abs_path [simp]: "IsAbs (abs_path cs)"
  by (simp add: IsAbs_def abs_path_def)

lemma split_abs_path: "list_all proper_elem cs \<Longrightarrow> split_slash (abs_path cs) = [] # (if cs = [] then [[]] else cs)"
  by (cases "cs = []") (simp_all add: abs_path_def split_slash_join proper_no_slash)

lemma clean_elems_abs_path: "list_all proper_elem cs \<Longrightarrow> clean_elems (abs_path cs) = cs"
  by (simp add: clean_elems_def split_abs_path foldl_clean_proper clean_step_def)

lemma Clean_abs: "IsAbs p \<Longrightarrow> Clean p = abs_path (clean_elems p)"
  by (simp add: Clean_def abs_path_def)

lemma clean_abs_iff: "clean_abs p \<longleftrightarrow> (\<exists>cs. list_all proper_elem cs \<and> p = abs_path cs)"
  unfolding clean_abs_def
  by (metis Clean_abs IsAbs_abs_path clean_elems_abs_path clean_elems_proper)

lemma clean_abs_Clean [simp, intro]: "IsAbs p \<Longrightarrow> clean_abs (Clean p)"
  unfolding clean_abs_iff using Clean_abs clean_elems_proper by blast

lemma clean_abs_path [simp, intro]: "list_all proper_elem cs \<Longrightarrow> clean_abs (abs_path cs)"
  by (auto simp: clean_abs_iff)

lemma clean_absE:
  assumes "clean_abs p"
  obtains cs where "list_all proper_elem cs" "p = abs_path cs" "clean_elems p = cs"
  using assms by (auto simp: clean_abs_iff clean_elems_abs_path)

lemma clean_elems_of_Clean: "IsAbs p \<Longrightarrow> clean_elems (Clean p) = clean_elems p"
  by (simp add: Clean_abs clean_elems_abs_path clean_elems_proper)

section \<open>Containment\<close>

lemma strip_common_prefix: "\<exists>common. bs = common @ fst (strip_common bs ts) \<and> ts = common @ snd (strip_common bs ts)"
proof (induction bs ts rule: strip_common.induct)
  case (1 b bs t ts)
  show ?case
  proof (cases "b = t")
    case True
    with 1 obtain common where "bs = common @ fst (strip_common bs ts) \<and> ts = common @ snd (strip_common bs ts)"
      by blast
    with True show ?thesis by (intro exI [of _ "t # common"]) simp
  qed simp
qed auto

lemma strip_common_base_Nil: "fst (strip_common bs ts) = [] \<longleftrightarrow> (\<exists>rest. ts = bs @ rest)"
  by (induction bs ts rule: strip_common.induct) auto

lemma rel_words_abs_path: "list_all proper_elem cs \<Longrightarrow> rel_words (abs_path cs) = [] # cs"
proof (cases cs)
  case (Cons c r)
  assume "list_all proper_elem cs"
  with Cons have "join ''/'' cs \<noteq> []" by (subst join_Nil_iff) (auto simp: list_all_iff proper_elem_def)
  moreover from Cons have "split_slash (join ''/'' cs) = cs"
    by (intro split_slash_join proper_no_slash \<open>list_all proper_elem cs\<close>) simp
  ultimately show ?thesis
    by (simp add: rel_words_def IsAbs_def abs_path_def)
qed (simp add: rel_words_def IsAbs_def abs_path_def)

lemma join_head: "slash \<notin> set c \<Longrightarrow> join ''/'' (c # r) = ''..'' \<or> has_prefix (join ''/'' (c # r)) ''../'' \<or> join ''/'' (c # r) = ''.''
    \<Longrightarrow> c = ''..'' \<or> c = ''.''"
proof -
  assume "slash \<notin> set c" and h: "join ''/'' (c # r) = ''..'' \<or> has_prefix (join ''/'' (c # r)) ''../'' \<or> join ''/'' (c # r) = ''.''"
  have "takeWhile (\<lambda>x. x \<noteq> slash) (c @ s) = c" if "s = [] \<or> hd s = slash" for s
    using \<open>slash \<notin> set c\<close> that by (induction c) (auto simp: takeWhile_eq_Nil_iff)
  from this [of "[]"] this [of "slash # join ''/'' r"]
  have "takeWhile (\<lambda>x. x \<noteq> slash) (join ''/'' (c # r)) = c"
    by (cases r) simp_all
  with h show ?thesis by (auto simp: has_prefix_iff)
qed

lemma climb_outside: "join ''/'' (''..'' # ws) = ''..'' \<or> has_prefix (join ''/'' (''..'' # ws)) ''../''"
  by (cases ws) (simp_all add: has_prefix_iff)

lemma climb_not_dot: "join ''/'' (''..'' # ws) \<noteq> ''.''"
  by (cases ws) simp_all

lemma pathWithin_abs_path:
  assumes "list_all proper_elem ts" and "list_all proper_elem bs"
  shows "pathWithin (abs_path ts) (abs_path bs) \<longleftrightarrow> (\<exists>rest. ts = bs @ rest)"
proof (cases "ts = bs")
  case True
  then show ?thesis by (simp add: pathWithin_def path_Rel_def)
next
  case False
  have clean: "Clean (abs_path cs) = abs_path cs" if "list_all proper_elem cs" for cs
    using that by (simp add: Clean_abs clean_elems_abs_path)
  have ne: "abs_path ts \<noteq> abs_path bs"
    using False assms by (metis clean_elems_abs_path)
  have not_dot: "abs_path bs \<noteq> ''.''" by (simp add: abs_path_def)
  obtain b t where s: "strip_common ([] # bs) ([] # ts) = (b, t)" by fastforce
  obtain common where c: "[] # bs = common @ b" "[] # ts = common @ t"
    using strip_common_prefix [of "[] # bs" "[] # ts"] s by auto
  have b: "b = [] \<longleftrightarrow> (\<exists>rest. ts = bs @ rest)"
    using strip_common_base_Nil [of "[] # bs" "[] # ts"] s by auto
  have "common \<noteq> []" using s by (cases common) (use c strip_common_prefix [of bs ts] in auto)
  then have proper: "list_all proper_elem b" "list_all proper_elem t"
    using c assms by (cases common; auto)+
  have rel: "path_Rel (abs_path bs) (abs_path ts) = Some (join ''/'' (map (\<lambda>_. ''..'') b @ t))"
    using ne s proper not_dot
    by (cases b) (auto simp: path_Rel_def clean assms rel_words_abs_path Let_def proper_elem_def)
  show ?thesis
  proof (cases b)
    case Nil
    then obtain e r where t: "t = e # r" using c b False by (cases t) auto
    with proper have "slash \<notin> set e" "e \<noteq> ''..''" "e \<noteq> ''.''" by (auto simp: proper_elem_def)
    with join_head [of e r] Nil t b rel show ?thesis by (auto simp: pathWithin_def)
  next
    case (Cons x y)
    with rel b climb_outside [of "map (\<lambda>_. ''..'') y @ t"] climb_not_dot [of "map (\<lambda>_. ''..'') y @ t"]
    show ?thesis by (auto simp: pathWithin_def)
  qed
qed

section \<open>Parents\<close>

definition elems_weight :: "string list \<Rightarrow> nat" where
  "elems_weight cs = sum_list (map (\<lambda>c. Suc (length c)) cs)"

lemma elems_weight_simps [simp]:
  "elems_weight [] = 0" "elems_weight (c # cs) = Suc (length c) + elems_weight cs"
  "elems_weight (as @ bs) = elems_weight as + elems_weight bs"
  by (simp_all add: elems_weight_def)

lemma weight_split: "elems_weight (split_slash s) = Suc (length s)"
  by (induction s) (auto split: list.splits)

lemma split_slash_snoc: "split_slash (s @ [slash]) = split_slash s @ [[]]"
  by (induction s) (auto split: list.splits)

lemma weight_butlast: "elems_weight (butlast cs) \<le> elems_weight cs"
  by (induction cs) auto

lemma weight_clean_step: "elems_weight (clean_step r out c) \<le> elems_weight out + (if c = [] then 0 else Suc (length c))"
  using weight_butlast [of out] by (simp add: clean_step_def trans_le_add1)

lemma weight_foldl_clean:
  "elems_weight (foldl (clean_step r) out cs) \<le> elems_weight out + elems_weight (filter (\<lambda>c. c \<noteq> []) cs)"
proof (induction cs arbitrary: out)
  case (Cons c cs)
  from Cons [of "clean_step r out c"] weight_clean_step [of r out c] show ?case by (simp split: if_splits)
qed simp

lemma weight_filter_le: "elems_weight (filter P cs) \<le> elems_weight cs"
  by (induction cs) auto

lemma length_join_slash: "length (join ''/'' cs) = elems_weight cs - 1"
  by (induction cs rule: induct_list012) auto

text \<open>The weight lost with the empty elements that a leading and a trailing slash give.\<close>

lemma weight_clean_elems:
  assumes "s \<noteq> []"
  shows "elems_weight (clean_elems s) + (if IsAbs s then 1 else 0) + (if last s = slash \<and> s \<noteq> ''/'' then 1 else 0)
     \<le> Suc (length s)"
proof -
  have w: "elems_weight (clean_elems s) \<le> elems_weight (filter (\<lambda>c. c \<noteq> []) (split_slash s))"
    unfolding clean_elems_def using weight_foldl_clean [of "IsAbs s" "[]" "split_slash s"] by simp
  have trail: "elems_weight (filter (\<lambda>c. c \<noteq> []) (split_slash t)) + (if t \<noteq> [] \<and> last t = slash then 1 else 0)
      \<le> Suc (length t)" for t
  proof (cases "t \<noteq> [] \<and> last t = slash")
    case True
    then obtain u where "t = u @ [slash]" by (cases t rule: rev_cases) auto
    then show ?thesis
      using weight_filter_le [of "\<lambda>c. c \<noteq> []" "split_slash u"] weight_split [of u]
      by (simp add: split_slash_snoc)
  next
    case False
    then show ?thesis
      using weight_filter_le [of "\<lambda>c. c \<noteq> []" "split_slash t"] weight_split [of t] by auto
  qed
  show ?thesis
  proof (cases "IsAbs s")
    case True
    then obtain t where "s = slash # t" using assms by (cases s) (auto simp: IsAbs_def)
    with w trail [of t] True show ?thesis by (cases t) (auto split: if_splits)
  next
    case False
    with w trail [of s] assms show ?thesis by (auto split: if_splits)
  qed
qed

lemma length_Clean_le: "s \<noteq> [] \<Longrightarrow> length (Clean s) \<le> length s"
  using weight_clean_elems [of s] by (cases s) (auto simp: Clean_def length_join_slash split: if_splits)

lemma length_Clean_trailing: "s \<noteq> [] \<Longrightarrow> last s = slash \<Longrightarrow> s \<noteq> ''/'' \<Longrightarrow> length (Clean s) < length s"
proof -
  assume s: "s \<noteq> []" "last s = slash" "s \<noteq> ''/''"
  then have "1 < length s" by (cases s rule: rev_cases) (auto simp: neq_Nil_conv)
  with weight_clean_elems [OF s(1)] s show ?thesis
    by (auto simp: Clean_def length_join_slash split: if_splits)
qed

definition path_height :: "string \<Rightarrow> nat" where
  "path_height p = (if p = ''.'' then 0 else Suc (length p))"

lemma path_Dir_smaller: "path_Dir p \<noteq> p \<Longrightarrow> path_height (path_Dir p) < path_height p"
proof -
  assume ne: "path_Dir p \<noteq> p"
  define q where "q = rev (dropWhile (\<lambda>c. c \<noteq> slash) (rev p))"
  have dir: "path_Dir p = Clean q" by (simp add: path_Dir_def q_def)
  show ?thesis
  proof (cases "q = []")
    case True
    moreover have "Clean [] = ''.''" by code_simp
    ultimately have "path_Dir p = ''.''" by (simp only: dir)
    with ne show ?thesis by (simp add: path_height_def)
  next
    case False
    then have last: "last q = slash" 
      using hd_dropWhile [of "\<lambda>c. c \<noteq> slash" "rev p"] by (simp add: q_def last_rev)
    have "p = q @ rev (takeWhile (\<lambda>c. c \<noteq> slash) (rev p))"
      unfolding q_def by (simp only: rev_append [symmetric] takeWhile_dropWhile_id rev_rev_ident)
    then obtain w where p: "p = q @ w" by (rule that)
    have "length (Clean q) < length p"
    proof (cases "q = ''/''")
      case True
      moreover have root: "Clean ''/'' = ''/''" by code_simp
      ultimately have "w \<noteq> []" using dir ne p by auto
      with p True root show ?thesis by simp
    next
      case no: False
      then have "length (Clean q) < length q" by (rule length_Clean_trailing [OF False last])
      with p show ?thesis by simp
    qed
    moreover have "p \<noteq> ''.''" using p False last by (cases q) (auto split: if_splits)
    ultimately show ?thesis using ne by (auto simp: path_height_def dir)
  qed
qed

lemma join_snoc: "cs \<noteq> [] \<Longrightarrow> join sep (cs @ [c]) = join sep cs @ sep @ c"
  by (induction cs rule: induct_list012) auto

lemma abs_path_snoc: "abs_path (cs @ [c]) = abs_path cs @ (if cs = [] then c else slash # c)"
  by (simp add: abs_path_def join_snoc)

lemma dropWhile_rev_word:
  "slash \<notin> set c \<Longrightarrow> rev (dropWhile (\<lambda>x. x \<noteq> slash) (rev (s @ slash # c))) = s @ [slash]"
  by (induction c rule: rev_induct) auto

lemma Clean_abs_path_slash: "list_all proper_elem cs \<Longrightarrow> Clean (abs_path cs @ [slash]) = abs_path cs"
  by (simp add: Clean_def clean_elems_def IsAbs_def abs_path_def split_slash_snoc
      split_abs_path [unfolded abs_path_def, simplified] foldl_clean_proper clean_step_def)

lemma path_Dir_abs_path [path_comps]:
  assumes "list_all proper_elem cs" and "proper_elem c"
  shows "path_Dir (abs_path (cs @ [c])) = abs_path cs"
proof (cases "cs = []")
  case True
  have "Clean [slash] = abs_path []" by code_simp
  with True assms dropWhile_rev_word [of c "[]"] show ?thesis
    by (simp add: path_Dir_def abs_path_def proper_elem_def)
next
  case False
  with assms dropWhile_rev_word [of c "abs_path cs"] show ?thesis
    by (simp add: path_Dir_def abs_path_snoc Clean_abs_path_slash proper_elem_def)
qed

lemma path_Dir_root [path_comps]: "path_Dir (abs_path []) = abs_path []"
  by code_simp

lemma path_base_abs_path [path_comps]:
  assumes "proper_elem c"
  shows "path_base (abs_path (cs @ [c])) = c"
proof -
  obtain s where s: "abs_path (cs @ [c]) = s @ slash # c"
    by (cases "cs = []") (auto simp: abs_path_snoc, simp add: abs_path_def)
  have c: "c \<noteq> []" "slash \<notin> set c" using assms by (simp_all add: proper_elem_def)
  then have "dropWhile (\<lambda>x. x = slash) (rev c @ t) = rev c @ t" for t
    by (cases c rule: rev_cases) auto
  moreover have "takeWhile (\<lambda>x. x \<noteq> slash) (rev c @ slash # t) = rev c" for t
    using c(2) by (induction c rule: rev_induct) auto
  ultimately show ?thesis
    using c by (simp add: path_base_def s trim_right_chars_def)
qed

lemma path_Join_abs_path [path_comps]:
  assumes "list_all proper_elem cs" and "proper_elem c"
  shows "path_Join [abs_path cs, c] = abs_path (cs @ [c])"
proof -
  have "split_slash (s @ slash # c) = split_slash s @ [c]" for s
    using assms(2) by (induction s) (auto simp: proper_elem_def split_slash_word split: list.splits)
  then have "clean_elems (abs_path cs @ slash # c) = cs @ [c]"
    using assms by (simp add: clean_elems_def split_abs_path foldl_clean_proper clean_step_def proper_elem_def)
  then show ?thesis
    using Clean_abs [of "abs_path cs @ slash # c"]
    by (simp add: path_Join_def IsAbs_def abs_path_def)
qed

section \<open>Cleaning twice\<close>

text \<open>The elements of a cleaned relative path: first parents, then proper elements.\<close>

definition relative_elems :: "string list \<Rightarrow> bool" where
  "relative_elems cs \<longleftrightarrow> (\<exists>k ps. cs = replicate k ''..'' @ ps \<and> list_all proper_elem ps)"

lemma relative_elemsI: "list_all proper_elem ps \<Longrightarrow> relative_elems (replicate k ''..'' @ ps)"
  unfolding relative_elems_def by blast

lemma clean_step_append: "proper_elem c \<Longrightarrow> clean_step r out c = out @ [c]"
  by (simp add: clean_step_def proper_elem_def)

lemma clean_step_parent:
  "clean_step False (replicate k ''..'') ''..'' = replicate (Suc k) ''..''"
  by (cases k) (simp_all add: clean_step_def replicate_append_same)

lemma clean_step_up: "proper_elem d \<Longrightarrow> clean_step r (cs @ [d]) ''..'' = cs"
  by (simp add: clean_step_def proper_elem_def)

lemma clean_step_relative:
  assumes "relative_elems out" and "slash \<notin> set c"
  shows "relative_elems (clean_step False out c)"
proof -
  obtain k ps where out: "out = replicate k ''..'' @ ps" and ps: "list_all proper_elem ps"
    using assms(1) unfolding relative_elems_def by blast
  consider "c = [] \<or> c = ''.''" | "c = ''..''" | "proper_elem c"
    using assms(2) unfolding proper_elem_def by blast
  then show ?thesis
  proof cases
    case 1
    then have "clean_step False out c = out" unfolding clean_step_def by simp
    with assms(1) show ?thesis by simp
  next
    case 2
    show ?thesis
    proof (cases ps rule: rev_cases)
      case Nil
      with relative_elemsI [of "[]" "Suc k"] show ?thesis
        unfolding out 2 Nil append_Nil2 clean_step_parent by simp
    next
      case (snoc qs d)
      with ps clean_step_up [of d False "replicate k ''..'' @ qs"] have "clean_step False out c = replicate k ''..'' @ qs"
        unfolding out 2 by simp
      moreover have "list_all proper_elem qs" using ps snoc by simp
      ultimately show ?thesis by (metis relative_elemsI)
    qed
  next
    case 3
    with relative_elemsI [of "ps @ [c]" k] ps show ?thesis
      unfolding out clean_step_append [OF 3] by simp
  qed
qed

lemma clean_elems_relative: "\<not> IsAbs p \<Longrightarrow> relative_elems (clean_elems p)"
proof -
  have "relative_elems (foldl (clean_step False) out cs)"
    if "relative_elems out" "\<forall>c \<in> set cs. slash \<notin> set c" for out cs
    using that by (induction cs arbitrary: out) (simp_all add: clean_step_relative)
  moreover have "relative_elems []" using relative_elemsI [of "[]" 0] by simp
  ultimately show "\<not> IsAbs p \<Longrightarrow> ?thesis"
    by (simp add: clean_elems_def split_slash_no_slash)
qed

lemma foldl_clean_relative:
  assumes "relative_elems cs"
  shows "foldl (clean_step False) [] cs = cs"
proof -
  have "foldl (clean_step False) [] (replicate k ''..'') = replicate k ''..''" for k
  proof (induction k)
    case (Suc k)
    then show ?case
      by (simp only: replicate_Suc replicate_append_same [symmetric] foldl_append foldl.simps clean_step_parent)
  qed simp
  with assms show ?thesis unfolding relative_elems_def by (auto simp: foldl_clean_proper)
qed

lemma relative_elem: "relative_elems cs \<Longrightarrow> c \<in> set cs \<Longrightarrow> c \<noteq> [] \<and> slash \<notin> set c"
proof -
  assume "relative_elems cs" and c: "c \<in> set cs"
  then obtain k ps where "cs = replicate k ''..'' @ ps" and ps: "list_all proper_elem ps"
    unfolding relative_elems_def by blast
  with c consider "c = ''..''" | "c \<in> set ps" by (simp only: set_append Un_iff set_replicate_conv_if split: if_splits) blast+
  then show ?thesis
  proof cases
    case 2
    with ps have "proper_elem c" by (simp add: list_all_iff)
    then show ?thesis unfolding proper_elem_def by blast
  qed simp
qed

text \<open>\<^verbatim>\<open>filepath.Clean\<close> is idempotent.\<close>

lemma Clean_Clean [simp]: "Clean (Clean p) = Clean p"
proof (cases "IsAbs p")
  case True
  then show ?thesis using clean_abs_Clean [OF True] by (simp add: clean_abs_def)
next
  case False
  note r = clean_elems_relative [OF False]
  show ?thesis
  proof (cases "clean_elems p = []")
    case True
    with False have "Clean p = ''.''" by (simp add: Clean_def)
    moreover have "Clean ''.'' = ''.''" by code_simp
    ultimately show ?thesis by simp
  next
    case ne: False
    let ?q = "join ''/'' (clean_elems p)"
    have q: "Clean p = ?q" unfolding Clean_def using False ne by simp
    have split: "split_slash ?q = clean_elems p"
      using ne relative_elem [OF r] by (intro split_slash_join) (auto simp: list_all_iff)
    obtain c cs where c: "clean_elems p = c # cs" using ne by (cases "clean_elems p") auto
    then have "c \<noteq> [] \<and> slash \<notin> set c" using relative_elem [OF r, of c] by simp
    then have "\<not> IsAbs ?q" using c by (cases c; cases cs) (auto simp: IsAbs_def)
    moreover from this have "clean_elems ?q = clean_elems p"
      unfolding clean_elems_def [of ?q] split by (simp only: foldl_clean_relative [OF r])
    ultimately have "Clean ?q = ?q" unfolding Clean_def [of ?q] using ne by simp
    then show ?thesis unfolding q .
  qed
qed


end
