(* ===== verification/Path_Safety.thy ===== *)
theory Path_Safety
  imports Path_Syntax Run_Events Exec_Policy
begin

text \<open>
  The workspace boundary of \<^verbatim>\<open>internal/agent/path_safety.go\<close> on a Unix build that is not macOS
  (there \<^verbatim>\<open>canonicalFilesystemCase\<close> is the identity and a path is ill-formed only if it has a NUL byte):
  canonicalisation of a target through the links of its nearest existing ancestor, blocked paths,
  containment, glob patterns, the arguments of the Git tool, and the path-bearing fields of every
  built-in tool. The operating system is an argument: the working directory, \<^verbatim>\<open>os.Lstat\<close>,
  \<^verbatim>\<open>filepath.EvalSymlinks\<close> and \<^verbatim>\<open>os.Stat\<close>, and so are the syntax check of \<^verbatim>\<open>filepath.Match\<close> and the JSON
  tokenizer: a tool input is given as the tokenizer reads it.
\<close>

section \<open>The file system\<close>

datatype lstat_result = LstatOk | LstatNotExist | LstatError

record filesystem =
  fs_Getwd :: "string option"
  fs_Lstat :: "string \<Rightarrow> lstat_result"
  fs_EvalSymlinks :: "string \<Rightarrow> string option"
  fs_StatDir :: "string \<Rightarrow> bool option"

record permission_config =
  pc_AutoApprove :: string
  pc_BlockedPaths :: "string list"
  pc_BlockedCommands :: "string list"
  pc_AllowExternalPaths :: bool

definition DefaultPermissionConfig :: permission_config where
  "DefaultPermissionConfig = \<lparr>pc_AutoApprove = ''safe'',
     pc_BlockedPaths = [''/etc/passwd'', ''/etc/shadow'', ''.ssh/'', ''.aws/credentials'',
       ''.env'', ''.env.local'', ''.env.production''],
     pc_BlockedCommands = [''rm -rf /'', ''mkfs'', ''dd if='', '':(){ :|:& };:'', ''> /dev/sda'',
       ''shutdown'', ''reboot''],
     pc_AllowExternalPaths = False\<rparr>"

datatype field_error = FieldNotString string | FieldEmpty string | ConflictingFields | MissingField string

datatype path_error =
    WorkDirEmpty | NulByte | AbsFailed | LinksFailed string | InspectFailed string
  | WorkDirNotDirectory | ParentNotDirectory string | NoExistingParent string
  | PathEmpty | BlockedPath string | Unresolvable path_error | OutsideWorkspace string
  | GlobEmpty | InvalidGlob path_error | GlobParentTraversal | BadPattern
  | NotObjectInput | MalformedInput | DuplicateField string | TrailingInput
  | InvalidToolPathInput path_error | UnsafeWorkspace path_error
  | InvalidField string field_error
  | NotebookEditDisabled | GitDiffPathspec | InvalidGitRevision
  | CommitScopeNotStaged | CommitNeedsFiles | CommitScopeWithFiles | InvalidCommitPath string
  | InvalidGitCommand | GitEscapeOption string | GitPathOption string | GitPathspecMagic string
  | NoPathContract string

definition validatePathSyntax :: "string \<Rightarrow> path_error + unit" where
  "validatePathSyntax p = (if CHR 0x00 \<in> set p then Inl NulByte else Inr ())"

definition path_Abs :: "filesystem \<Rightarrow> string \<Rightarrow> string option" where
  "path_Abs fs p = (if IsAbs p then Some (Clean p) else map_option (\<lambda>wd. path_Join [wd, p]) (fs_Getwd fs))"

definition canonicalWorkspace :: "filesystem \<Rightarrow> string \<Rightarrow> path_error + string" where
  "canonicalWorkspace fs workDir =
     (if blank workDir then Inl WorkDirEmpty
      else case validatePathSyntax workDir of Inl e \<Rightarrow> Inl e | Inr _ \<Rightarrow>
        (case path_Abs fs workDir of None \<Rightarrow> Inl AbsFailed | Some absWork \<Rightarrow>
          (case fs_EvalSymlinks fs absWork of None \<Rightarrow> Inl (LinksFailed absWork) | Some canonical \<Rightarrow>
            (case fs_StatDir fs canonical of
               None \<Rightarrow> Inl (InspectFailed canonical)
             | Some isDir \<Rightarrow> if \<not> isDir then Inl WorkDirNotDirectory else Inr (Clean canonical)))))"

text \<open>
  The loop of \<^verbatim>\<open>canonicalizeTarget\<close>: climb to the nearest existing ancestor, collecting the names
  that are missing, resolve its links, and append the missing names to the resolved path.
\<close>

function canonicalize_from :: "filesystem \<Rightarrow> string \<Rightarrow> string \<Rightarrow> string list \<Rightarrow> path_error + string" where
  "canonicalize_from fs target current missing =
     (case fs_Lstat fs current of
        LstatOk \<Rightarrow>
          (case fs_EvalSymlinks fs current of
             None \<Rightarrow> Inl (LinksFailed current)
           | Some canonical \<Rightarrow>
               (if missing \<noteq> [] \<and> fs_StatDir fs canonical = None then Inl (InspectFailed canonical)
                else if missing \<noteq> [] \<and> fs_StatDir fs canonical = Some False then Inl (ParentNotDirectory canonical)
                else Inr (Clean (foldl (\<lambda>p m. path_Join [p, m]) canonical (rev missing)))))
      | LstatError \<Rightarrow> Inl (InspectFailed current)
      | LstatNotExist \<Rightarrow>
          (if path_Dir current = current then Inl (NoExistingParent target)
           else canonicalize_from fs target (path_Dir current) (missing @ [path_base current])))"
  by pat_completeness auto
termination
  by (relation "measure (\<lambda>(_, _, current, _). path_height current)") (simp_all add: path_Dir_smaller)

declare canonicalize_from.simps [simp del]

definition canonicalizeTarget :: "filesystem \<Rightarrow> string \<Rightarrow> path_error + string" where
  "canonicalizeTarget fs target = canonicalize_from fs target (Clean target) []"

definition matchingBlockedPath :: "string \<Rightarrow> string list \<Rightarrow> string" where
  "matchingBlockedPath p blockedPaths = (case find (str_contains p) blockedPaths of None \<Rightarrow> [] | Some b \<Rightarrow> b)"

text \<open>What both policies do with a path before containment is considered.\<close>

definition resolve_unblocked :: "filesystem \<Rightarrow> string \<Rightarrow> string \<Rightarrow> permission_config \<Rightarrow> path_error + string" where
  "resolve_unblocked fs rawPath baseDir cfg =
     (if blank rawPath then Inl PathEmpty
      else if matchingBlockedPath rawPath (pc_BlockedPaths cfg) \<noteq> []
      then Inl (BlockedPath (matchingBlockedPath rawPath (pc_BlockedPaths cfg)))
      else case validatePathSyntax rawPath of Inl e \<Rightarrow> Inl (Unresolvable e) | Inr _ \<Rightarrow>
        (case path_Abs fs (if IsAbs rawPath then rawPath else path_Join [baseDir, rawPath]) of
           None \<Rightarrow> Inl (Unresolvable AbsFailed)
         | Some absPath \<Rightarrow>
             (case canonicalizeTarget fs absPath of
                Inl e \<Rightarrow> Inl (Unresolvable e)
              | Inr canonical \<Rightarrow>
                  (if matchingBlockedPath canonical (pc_BlockedPaths cfg) \<noteq> []
                   then Inl (BlockedPath (matchingBlockedPath canonical (pc_BlockedPaths cfg)))
                   else Inr canonical))))"

definition canonicalPathWithinWorkspace ::
    "filesystem \<Rightarrow> string \<Rightarrow> string \<Rightarrow> string \<Rightarrow> permission_config \<Rightarrow> path_error + string" where
  "canonicalPathWithinWorkspace fs rawPath baseDir workspace cfg =
     (case resolve_unblocked fs rawPath baseDir cfg of
        Inl e \<Rightarrow> Inl e
      | Inr canonical \<Rightarrow>
          (if \<not> pathWithin canonical workspace then Inl (OutsideWorkspace rawPath) else Inr canonical))"

definition canonicalPathForPolicy ::
    "filesystem \<Rightarrow> string \<Rightarrow> string \<Rightarrow> string \<Rightarrow> permission_config \<Rightarrow> path_error + string" where
  "canonicalPathForPolicy fs rawPath baseDir workspace cfg =
     (if \<not> pc_AllowExternalPaths cfg then canonicalPathWithinWorkspace fs rawPath baseDir workspace cfg
      else resolve_unblocked fs rawPath baseDir cfg)"

definition CheckPath :: "filesystem \<Rightarrow> string \<Rightarrow> string \<Rightarrow> permission_config \<Rightarrow> path_error + unit" where
  "CheckPath fs p workDir cfg =
     (case canonicalWorkspace fs workDir of
        Inl e \<Rightarrow> Inl (UnsafeWorkspace e)
      | Inr workspace \<Rightarrow>
          (case canonicalPathWithinWorkspace fs p workDir workspace cfg of Inl e \<Rightarrow> Inl e | Inr _ \<Rightarrow> Inr ()))"

section \<open>Glob patterns\<close>

definition globLiteralRoot :: "string \<Rightarrow> string" where
  "globLiteralRoot pattern =
     (let literal = takeWhile (\<lambda>c. c \<notin> set ''*?['') pattern in
      if literal = pattern then pattern else path_Dir literal)"

definition checkGlobPattern ::
    "filesystem \<Rightarrow> (string \<Rightarrow> bool) \<Rightarrow> string \<Rightarrow> string \<Rightarrow> string \<Rightarrow> permission_config \<Rightarrow> path_error + unit" where
  "checkGlobPattern fs goodPattern pattern baseDir workspace cfg =
     (if blank pattern then Inl GlobEmpty
      else case validatePathSyntax pattern of Inl e \<Rightarrow> Inl (InvalidGlob e) | Inr _ \<Rightarrow>
        (if matchingBlockedPath pattern (pc_BlockedPaths cfg) \<noteq> []
         then Inl (BlockedPath (matchingBlockedPath pattern (pc_BlockedPaths cfg)))
         else if hasParentTraversalComponent pattern then Inl GlobParentTraversal
         else if \<not> goodPattern pattern then Inl (InvalidGlob BadPattern)
         else case canonicalPathForPolicy fs (globLiteralRoot pattern) baseDir workspace cfg of
                Inl e \<Rightarrow> Inl e | Inr _ \<Rightarrow> Inr ()))"

section \<open>Tool inputs\<close>

text \<open>
  A JSON text as the streaming decoder reads it: it starts with no token, or with a token that
  opens no object, or it opens an object with these members, in order, after which the object is
  closed and nothing follows, or a member or the closing brace is malformed, or more input follows.
\<close>

datatype text_end = Closed | CutOff | MoreInput

datatype json_text = NoToken | OtherToken | ObjectText "(string \<times> json) list" text_end

type_synonym json_object = "(string \<times> json) list"

fun unique_members :: "json_object \<Rightarrow> json_object \<Rightarrow> path_error + json_object" where
  "unique_members object [] = Inr object"
| "unique_members object ((k, v) # rest) =
     (if map_of object k \<noteq> None then Inl (DuplicateField k) else unique_members (object @ [(k, v)]) rest)"

definition decodeUniqueJSONObject :: "json_text \<Rightarrow> path_error + json_object" where
  "decodeUniqueJSONObject input =
     (case input of
        NoToken \<Rightarrow> Inl MalformedInput
      | OtherToken \<Rightarrow> Inl NotObjectInput
      | ObjectText members e \<Rightarrow>
          (case unique_members [] members of
             Inl err \<Rightarrow> Inl err
           | Inr object \<Rightarrow>
               (case e of Closed \<Rightarrow> Inr object | CutOff \<Rightarrow> Inl MalformedInput | MoreInput \<Rightarrow> Inl TrailingInput)))"

text \<open>
  A string field given under several names; a \<^verbatim>\<open>null\<close> member decodes to the empty string. The
  accumulated value is \<^const>\<open>None\<close> as long as no name was found.
\<close>

fun string_field_from :: "json_object \<Rightarrow> string list \<Rightarrow> string option \<Rightarrow> field_error + string option" where
  "string_field_from object [] acc = Inr acc"
| "string_field_from object (key # keys) acc =
     (case map_of object key of
        None \<Rightarrow> string_field_from object keys acc
      | Some raw \<Rightarrow>
          (case store_value json_to_string raw [] of
             None \<Rightarrow> Inl (FieldNotString key)
           | Some candidate \<Rightarrow>
               (if blank candidate then Inl (FieldEmpty key)
                else if acc \<noteq> None \<and> acc \<noteq> Some candidate then Inl ConflictingFields
                else string_field_from object keys (Some candidate))))"

definition oneStringField :: "json_object \<Rightarrow> bool \<Rightarrow> string list \<Rightarrow> field_error + string" where
  "oneStringField object required keys =
     (case string_field_from object keys None of
        Inl e \<Rightarrow> Inl e
      | Inr None \<Rightarrow> if required then Inl (MissingField (hd keys)) else Inr []
      | Inr (Some v) \<Rightarrow> Inr v)"

definition path_field :: "string \<Rightarrow> json_object \<Rightarrow> bool \<Rightarrow> string list \<Rightarrow> path_error + string" where
  "path_field what object required keys =
     (case oneStringField object required keys of Inl e \<Rightarrow> Inl (InvalidField what e) | Inr v \<Rightarrow> Inr v)"

section \<open>Git arguments\<close>

definition hasGitPathspecSyntax :: "string \<Rightarrow> bool" where
  "hasGitPathspecSyntax p \<longleftrightarrow> has_prefix p '':'' \<or> contains_any_char p ''*?[''"

definition validateGitRevision :: "string \<Rightarrow> path_error + unit" where
  "validateGitRevision revision =
     (if revision = [] then Inr ()
      else if has_prefix revision ''-'' \<or> IsAbs revision \<or> hasParentTraversalComponent revision
           \<or> contains_any_char revision [CHR 0x5C, CHR 0x00, CHR '' '', CHR 0x09, CHR 0x0D, CHR 0x0A]
      then Inl InvalidGitRevision else Inr ())"

definition unsafeGitFilesystemOption :: "string \<Rightarrow> bool" where
  "unsafeGitFilesystemOption argument =
     list_ex (\<lambda>opt. argument = opt \<or> has_prefix argument (opt @ ''=''))
       [''-c'', ''--config-env'', ''--exec-path'', ''--git-dir'', ''--work-tree'',
        ''--namespace'', ''--super-prefix'', ''--pathspec-from-file'', ''--output'',
        ''--global'', ''--system'', ''--file'', ''--object-directory'', ''--directory'',
        ''--prefix'', ''--unsafe-paths'']"

definition gitCommandUsesPositionalPaths :: "string \<Rightarrow> bool" where
  "gitCommandUsesPositionalPaths command \<longleftrightarrow> to_lower command \<in> set [''add'', ''rm'', ''mv'']"

definition git_command_char :: "char \<Rightarrow> bool" where
  "git_command_char c \<longleftrightarrow>
     (97 \<le> byte c \<and> byte c \<le> 122) \<or> (65 \<le> byte c \<and> byte c \<le> 90) \<or> (48 \<le> byte c \<and> byte c \<le> 57) \<or> c = CHR ''-''"

fun git_arguments ::
    "(string \<Rightarrow> path_error + string) \<Rightarrow> string \<Rightarrow> bool \<Rightarrow> string list \<Rightarrow> path_error + string list" where
  "git_arguments canon command afterSeparator [] = Inr []"
| "git_arguments canon command afterSeparator (argument # rest) =
     (let keep = (\<lambda>sep word. case git_arguments canon command sep rest of Inl e \<Rightarrow> Inl e | Inr ws \<Rightarrow> Inr (word # ws));
          externalForm = IsAbs argument \<or> hasParentTraversalComponent argument;
          pathOperand = afterSeparator \<or> gitCommandUsesPositionalPaths command \<or> externalForm
      in if argument = ''--'' then keep True argument
         else if unsafeGitFilesystemOption (to_lower argument) then Inl (GitEscapeOption argument)
         else if externalForm \<and> has_prefix argument ''-'' then Inl (GitPathOption argument)
         else if pathOperand \<and> (has_prefix argument '':('' \<or> has_prefix argument '':!'' \<or> has_prefix argument '':^'')
         then Inl (GitPathspecMagic argument)
         else if pathOperand \<and> (\<not> has_prefix argument ''-'' \<or> afterSeparator) then
           (case canon argument of Inl e \<Rightarrow> Inl e | Inr canonical \<Rightarrow> keep afterSeparator canonical)
         else keep afterSeparator argument)"

definition resolveGitToolArguments ::
    "filesystem \<Rightarrow> json_object \<Rightarrow> string \<Rightarrow> string \<Rightarrow> permission_config \<Rightarrow> path_error + string list" where
  "resolveGitToolArguments fs object workDir workspace cfg =
     (case path_field ''git command'' object True [''command''] of
        Inl e \<Rightarrow> Inl e
      | Inr command \<Rightarrow>
          (if has_prefix command ''-'' \<or> \<not> list_all git_command_char command then Inl InvalidGitCommand
           else case path_field ''git arguments'' object False [''args''] of
             Inl e \<Rightarrow> Inl e
           | Inr args \<Rightarrow>
               (case git_arguments (\<lambda>p. canonicalPathForPolicy fs p workDir workspace cfg) command False (go_fields args) of
                  Inl e \<Rightarrow> Inl e
                | Inr ws \<Rightarrow> Inr (command # ws))))"

section \<open>The path-bearing fields of the built-in tools\<close>

definition canonicalPermissionToolName :: "string \<Rightarrow> string" where
  "canonicalPermissionToolName name =
     (if name = ''read_file'' then ''Read'' else if name = ''write_file'' then ''Write''
      else if name = ''edit_file'' then ''Edit'' else if name = ''list_files'' then ''LS''
      else if name = ''search_files'' then ''Grep'' else if name = ''glob_files'' then ''Glob''
      else name)"

text \<open>The canonical values by field name; a field may have several.\<close>

type_synonym resolved_paths = "(string \<times> string) list"

definition paths_many :: "resolved_paths \<Rightarrow> string \<Rightarrow> string list" where
  "paths_many r name = map snd (filter (\<lambda>(n, _). n = name) r)"

definition paths_one :: "resolved_paths \<Rightarrow> string \<Rightarrow> string" where
  "paths_one r name = (case paths_many r name of [] \<Rightarrow> [] | v # _ \<Rightarrow> v)"

definition path_tools :: "string list" where
  "path_tools = [''Read'', ''Write'', ''Edit'', ''Glob'', ''Grep'', ''LS'', ''RepoMap'', ''LSP'',
     ''NotebookRead'', ''NotebookEdit'', ''ImageRead'', ''PDFRead'',
     ''Lint'', ''Test'', ''Git'', ''GitDiff'', ''GitCommit'', ''Diff'']"

definition file_field :: "(string \<Rightarrow> path_error + string) \<Rightarrow> json_object \<Rightarrow> path_error + resolved_paths" where
  "file_field canon object =
     (case path_field ''file path'' object True [''file_path'', ''filePath'', ''path''] of
        Inl e \<Rightarrow> Inl e
      | Inr p \<Rightarrow> (case canon p of Inl e \<Rightarrow> Inl e | Inr c \<Rightarrow> Inr [(''file_path'', c)]))"

definition base_field :: "(string \<Rightarrow> path_error + string) \<Rightarrow> string \<Rightarrow> json_object \<Rightarrow> path_error + string" where
  "base_field canon what object =
     (case path_field what object False [''path''] of
        Inl e \<Rightarrow> Inl e
      | Inr p \<Rightarrow> canon (if p = [] then ''.'' else p))"

fun commit_files :: "(string \<Rightarrow> path_error + string) \<Rightarrow> string list \<Rightarrow> path_error + resolved_paths" where
  "commit_files canon [] = Inr []"
| "commit_files canon (p # ps) =
     (if has_prefix p ''-'' \<or> hasGitPathspecSyntax p then Inl (InvalidCommitPath p)
      else case canon p of Inl e \<Rightarrow> Inl e | Inr c \<Rightarrow>
        (case commit_files canon ps of Inl e \<Rightarrow> Inl e | Inr r \<Rightarrow> Inr ((''files'', c) # r)))"

definition commit_paths :: "(string \<Rightarrow> path_error + string) \<Rightarrow> json_object \<Rightarrow> path_error + resolved_paths" where
  "commit_paths canon object =
     (case path_field ''git commit paths'' object False [''files''] of Inl e \<Rightarrow> Inl e | Inr files0 \<Rightarrow>
        (case path_field ''git commit scope'' object False [''scope''] of Inl e \<Rightarrow> Inl e | Inr scope0 \<Rightarrow>
          (let files = trim_space files0; scope = trim_space scope0 in
           if scope \<noteq> [] \<and> scope \<noteq> ''staged'' then Inl CommitScopeNotStaged
           else if files = [] \<and> scope \<noteq> ''staged'' then Inl CommitNeedsFiles
           else if files \<noteq> [] \<and> scope \<noteq> [] then Inl CommitScopeWithFiles
           else commit_files canon (go_fields files))))"

definition diff_file :: "(string \<Rightarrow> path_error + string) \<Rightarrow> json_object \<Rightarrow> string \<Rightarrow> string list \<Rightarrow> path_error + resolved_paths" where
  "diff_file canon object name keys =
     (case path_field name object True keys of Inl e \<Rightarrow> Inl e | Inr p \<Rightarrow>
        (case canon p of Inl e \<Rightarrow> Inl e | Inr c \<Rightarrow> Inr [(name, c)]))"

definition git_diff_paths :: "(string \<Rightarrow> path_error + string) \<Rightarrow> json_object \<Rightarrow> path_error + resolved_paths" where
  "git_diff_paths canon object =
     (case path_field ''git diff path'' object False [''file''] of Inl e \<Rightarrow> Inl e | Inr p \<Rightarrow>
        (case (if p = [] then Inr []
               else if hasGitPathspecSyntax p then Inl GitDiffPathspec
               else case canon p of Inl e \<Rightarrow> Inl e | Inr c \<Rightarrow> Inr [(''file'', c)]) of
           Inl e \<Rightarrow> Inl e
         | Inr r \<Rightarrow>
             (case path_field ''git revision'' object False [''commit''] of Inl e \<Rightarrow> Inl e | Inr commit \<Rightarrow>
                (case validateGitRevision commit of Inl e \<Rightarrow> Inl e | Inr _ \<Rightarrow> Inr r))))"

definition glob_paths ::
    "(string \<Rightarrow> path_error + string) \<Rightarrow> (string \<Rightarrow> string \<Rightarrow> path_error + unit) \<Rightarrow> json_object \<Rightarrow> path_error + resolved_paths" where
  "glob_paths canon glob object =
     (case base_field canon ''glob base path'' object of Inl e \<Rightarrow> Inl e | Inr base \<Rightarrow>
        (case path_field ''glob pattern'' object True [''pattern''] of Inl e \<Rightarrow> Inl e | Inr pattern \<Rightarrow>
          (case glob pattern base of Inl e \<Rightarrow> Inl e | Inr _ \<Rightarrow> Inr [(''path'', base)])))"

definition grep_paths ::
    "(string \<Rightarrow> path_error + string) \<Rightarrow> (string \<Rightarrow> string \<Rightarrow> path_error + unit) \<Rightarrow> json_object \<Rightarrow> path_error + resolved_paths" where
  "grep_paths canon glob object =
     (case base_field canon ''grep path'' object of Inl e \<Rightarrow> Inl e | Inr base \<Rightarrow>
        (case path_field ''grep glob'' object False [''glob''] of Inl e \<Rightarrow> Inl e | Inr pattern \<Rightarrow>
          (if pattern = [] then Inr [(''path'', base)]
           else case glob pattern base of Inl e \<Rightarrow> Inl e | Inr _ \<Rightarrow> Inr [(''path'', base)])))"

definition tool_fields ::
    "filesystem \<Rightarrow> (string \<Rightarrow> bool) \<Rightarrow> string \<Rightarrow> json_object \<Rightarrow> string \<Rightarrow> string \<Rightarrow> permission_config \<Rightarrow>
     path_error + resolved_paths" where
  "tool_fields fs goodPattern tool object workDir workspace cfg =
     (let canon = (\<lambda>p. canonicalPathForPolicy fs p workDir workspace cfg);
          glob = (\<lambda>pattern base. checkGlobPattern fs goodPattern pattern base workspace cfg) in
      if tool \<in> set [''Read'', ''Write'', ''Edit'', ''NotebookRead'', ''ImageRead'', ''PDFRead'', ''LSP'']
      then file_field canon object
      else if tool = ''NotebookEdit'' then
        (case file_field canon object of Inl e \<Rightarrow> Inl e | Inr _ \<Rightarrow> Inl NotebookEditDisabled)
      else if tool \<in> set [''LS'', ''RepoMap'', ''Lint'', ''Test''] then
        (case base_field canon ''path'' object of Inl e \<Rightarrow> Inl e | Inr c \<Rightarrow> Inr [(''path'', c)])
      else if tool = ''Glob'' then glob_paths canon glob object
      else if tool = ''Grep'' then grep_paths canon glob object
      else if tool = ''Diff'' then
        (case diff_file canon object ''file_a'' [''file_a'', ''fileA''] of Inl e \<Rightarrow> Inl e | Inr a \<Rightarrow>
          (case diff_file canon object ''file_b'' [''file_b'', ''fileB''] of Inl e \<Rightarrow> Inl e | Inr b \<Rightarrow> Inr (a @ b)))
      else if tool = ''GitDiff'' then git_diff_paths canon object
      else if tool = ''GitCommit'' then commit_paths canon object
      else if tool = ''Git'' then
        (case resolveGitToolArguments fs object workDir workspace cfg of
           Inl e \<Rightarrow> Inl e | Inr ws \<Rightarrow> Inr (map (Pair ''arguments'') ws))
      else Inr [])"

text \<open>\<^const>\<open>None\<close> is a tool without file system fields, which is not handled here.\<close>

definition resolveToolWorkspacePaths ::
    "filesystem \<Rightarrow> (string \<Rightarrow> bool) \<Rightarrow> string \<Rightarrow> json_text \<Rightarrow> string \<Rightarrow> permission_config \<Rightarrow>
     (path_error + resolved_paths) option" where
  "resolveToolWorkspacePaths fs goodPattern toolName input workDir cfg =
     (let tool = canonicalPermissionToolName toolName in
      if tool \<notin> set path_tools then None
      else Some (case decodeUniqueJSONObject input of
          Inl e \<Rightarrow> Inl (InvalidToolPathInput e)
        | Inr object \<Rightarrow>
            (case canonicalWorkspace fs workDir of
               Inl e \<Rightarrow> Inl (UnsafeWorkspace e)
             | Inr workspace \<Rightarrow> tool_fields fs goodPattern tool object workDir workspace cfg)))"

definition checkToolWorkspacePaths ::
    "filesystem \<Rightarrow> (string \<Rightarrow> bool) \<Rightarrow> string \<Rightarrow> json_text \<Rightarrow> string \<Rightarrow> permission_config \<Rightarrow> path_error option" where
  "checkToolWorkspacePaths fs goodPattern toolName input workDir cfg =
     (case resolveToolWorkspacePaths fs goodPattern toolName input workDir cfg of
        Some (Inl e) \<Rightarrow> Some e | _ \<Rightarrow> None)"

definition executionToolWorkspacePathsWithPolicy ::
    "filesystem \<Rightarrow> (string \<Rightarrow> bool) \<Rightarrow> string \<Rightarrow> json_text \<Rightarrow> string \<Rightarrow> snapshot option \<Rightarrow> path_error + resolved_paths" where
  "executionToolWorkspacePathsWithPolicy fs goodPattern toolName input workDir policy =
     (let cfg = (case policy of
            Some sn \<Rightarrow> if sn_Mode sn = ModeFull then DefaultPermissionConfig\<lparr>pc_AllowExternalPaths := True\<rparr>
              else DefaultPermissionConfig
          | None \<Rightarrow> DefaultPermissionConfig) in
      case resolveToolWorkspacePaths fs goodPattern toolName input workDir cfg of
        None \<Rightarrow> Inl (NoPathContract toolName) | Some r \<Rightarrow> r)"

end
