(* ===== verification/Command_Effect.thy ===== *)
theory Command_Effect
  imports Path_Safety
begin

text \<open>
  The static effect of a shell or Git invocation, from \<^verbatim>\<open>internal/agent/command_effect.go\<close>, the Git
  rules of \<^verbatim>\<open>permission.go\<close> and the scheduling predicate of \<^verbatim>\<open>concurrency.go\<close>. A decoded tool input is a
  map from keys to JSON values. Words are only compared with ASCII text, so the replacement of
  ill-formed bytes that \<^verbatim>\<open>WriteRune\<close> would make in them is not modelled.
\<close>

datatype effect_kind = EffectReadOnly | EffectMutating | EffectDestructive | EffectUnknown

record command_effect =
  ce_Kind :: effect_kind
  ce_Reason :: string

definition effect :: "effect_kind \<Rightarrow> string \<Rightarrow> command_effect" where
  "effect k reason = \<lparr>ce_Kind = k, ce_Reason = reason\<rparr>"

definition unknownCommandEffect :: "string \<Rightarrow> command_effect" where
  "unknownCommandEffect reason = effect EffectUnknown reason"

section \<open>Words\<close>

definition shell_metacharacters :: "char list" where
  "shell_metacharacters = [CHR 0x27, CHR 0x22, CHR ''$'', CHR 0x60, CHR 0x5C, CHR '';'', CHR ''|'', CHR ''&'',
     CHR ''>'', CHR ''<'', CHR ''('', CHR '')'', CHR 0x0A, CHR 0x0D, CHR ''#'']"

definition flush_word :: "string \<Rightarrow> string list" where
  "flush_word cur = (if cur = [] then [] else [cur])"

fun split_simple :: "string \<Rightarrow> string \<Rightarrow> string list option" where
  "split_simple cur [] = Some (flush_word cur)"
| "split_simple cur (c # s) =
     (if c \<in> set shell_metacharacters then None
      else if c = CHR '' '' \<or> c = CHR 0x09 then map_option ((@) (flush_word cur)) (split_simple [] s)
      else split_simple (cur @ [c]) s)"

definition splitSimpleShellCommand :: "string \<Rightarrow> string list option" where
  "splitSimpleShellCommand command = split_simple [] command"

section \<open>Git\<close>

definition containsGitArgument :: "string list \<Rightarrow> string \<Rightarrow> bool" where
  "containsGitArgument argv expected = list_ex (\<lambda>a. map lower_char a = map lower_char expected) argv"

definition dangerousGitInvocation :: "string \<Rightarrow> string list \<Rightarrow> bool" where
  "dangerousGitInvocation command argv \<longleftrightarrow>
     list_ex (\<lambda>a. has_prefix (to_lower a) ''--force'' \<or> command = ''push'' \<and> to_lower a = ''-f'') argv
     \<or> command = ''reset'' \<and> containsGitArgument argv ''--hard''"

definition mutatingGitBranch :: "string list \<Rightarrow> bool" where
  "mutatingGitBranch argv =
     (if argv = [] then False
      else if list_ex (\<lambda>a. to_lower a \<in> set [''-d'', ''-D'', ''--delete'', ''-m'', ''-M'', ''--move'', ''-c'', ''-C'',
          ''--copy'', ''--edit-description'', ''--set-upstream-to'', ''--unset-upstream'']) argv then True
      else if list_ex (\<lambda>a. let flag = to_lower a in
          flag \<in> set [''--list'', ''--show-current'', ''-a'', ''--all'', ''-r'', ''--remotes'', ''--contains'',
            ''--no-contains'', ''--merged'', ''--no-merged'', ''--points-at'']
          \<or> list_ex (has_prefix flag) [''--contains='', ''--no-contains='', ''--merged='', ''--no-merged='', ''--points-at=''])
          argv then False
      else True)"

definition mutatingGitTag :: "string list \<Rightarrow> bool" where
  "mutatingGitTag argv =
     (if argv = [] then False
      else if list_ex (\<lambda>a. to_lower a \<in> set [''-d'', ''--delete'', ''-a'', ''--annotate'', ''-s'', ''--sign'', ''-u'',
          ''--local-user'', ''-m'', ''--message'', ''-F'', ''--file'', ''-f'', ''--force'']) argv then True
      else let first = to_lower (hd argv) in
        \<not> (first \<in> set [''-l'', ''--list'', ''-n'', ''-v'', ''--verify'', ''--contains'', ''--no-contains'',
             ''--points-at'', ''--merged'', ''--no-merged'']
           \<or> list_ex (has_prefix first) [''--contains='', ''--no-contains='', ''--points-at='', ''--merged='', ''--no-merged='']))"

definition mutatingGitInvocation :: "string \<Rightarrow> string list \<Rightarrow> bool" where
  "mutatingGitInvocation command argv =
     (if command \<in> set [''status'', ''diff'', ''log'', ''show'', ''blame'', ''grep'', ''shortlog'',
         ''describe'', ''rev-parse'', ''ls-files'', ''ls-tree'', ''cat-file'', ''name-rev'', ''for-each-ref''] then False
      else if command = ''branch'' then mutatingGitBranch argv
      else if command = ''stash'' then
        argv = [] \<or> (to_lower (hd argv) \<noteq> ''list'' \<and> to_lower (hd argv) \<noteq> ''show'')
      else if command = ''remote'' then
        (if argv = [] \<or> argv = [''-v''] \<or> argv = [''--verbose''] then False
         else to_lower (hd argv) \<noteq> ''show'' \<and> to_lower (hd argv) \<noteq> ''get-url'')
      else if command = ''tag'' then mutatingGitTag argv
      else True)"

definition knownMutatingGitCommand :: "string \<Rightarrow> bool" where
  "knownMutatingGitCommand command \<longleftrightarrow> command \<in> set
     [''add'', ''am'', ''apply'', ''bisect'', ''branch'', ''checkout'', ''cherry-pick'', ''clean'', ''clone'', ''commit'',
      ''config'', ''fetch'', ''filter-branch'', ''gc'', ''init'', ''merge'', ''mv'', ''notes'', ''pull'', ''push'', ''rebase'',
      ''remote'', ''replace'', ''reset'', ''restore'', ''revert'', ''rm'', ''stash'', ''submodule'', ''switch'', ''tag'',
      ''update-index'', ''worktree'']"

definition classifyGitInvocation :: "string \<Rightarrow> string list \<Rightarrow> command_effect" where
  "classifyGitInvocation command0 args =
     (let command = to_lower (trim_space command0) in
      if list_ex (\<lambda>a. a = ''--output'' \<or> has_prefix a ''--output='') args
      then effect EffectMutating ''Git writes command output to a file''
      else if dangerousGitInvocation command args then effect EffectDestructive ''destructive Git operation''
      else if \<not> mutatingGitInvocation command args then effect EffectReadOnly ''known read-only Git invocation''
      else if knownMutatingGitCommand command then effect EffectMutating ''Git changes repository state''
      else unknownCommandEffect ''Git subcommand is not classified'')"

definition classifyGitCommandEffect :: "string \<Rightarrow> string \<Rightarrow> command_effect" where
  "classifyGitCommandEffect command0 rawArgs =
     (let command = to_lower (trim_space command0) in
      if command = [] \<or> contains_any_char command
           [CHR '' '', CHR 0x09, CHR 0x0D, CHR 0x0A, CHR '';'', CHR ''&'', CHR ''|'', CHR ''<'', CHR ''>'', CHR 0x60, CHR ''$'',
            CHR 0x5C, CHR 0x27, CHR 0x22]
      then unknownCommandEffect ''Git command is malformed''
      else case splitSimpleShellCommand rawArgs of
        None \<Rightarrow> unknownCommandEffect ''Git arguments are quoted or ambiguous''
      | Some args \<Rightarrow> classifyGitInvocation command args)"

section \<open>Bash\<close>

definition hasRecursiveForceFlags :: "string list \<Rightarrow> bool" where
  "hasRecursiveForceFlags args =
     list_ex (\<lambda>a. let flag = trim_left_chars ''-'' a in str_contains flag ''r'' \<and> str_contains flag ''f'') args"

definition containsCommandEffectArg :: "string list \<Rightarrow> string \<Rightarrow> bool" where
  "containsCommandEffectArg values expected = list_ex (\<lambda>v. v = expected) values"

definition find_actions :: "string list" where
  "find_actions = [''-delete'', ''-exec'', ''-execdir'', ''-ok'', ''-okdir'', ''-fprint'', ''-fprint0'', ''-fprintf'', ''-fls'']"

definition read_only_commands :: "string list" where
  "read_only_commands = [''ls'', ''cat'', ''head'', ''tail'', ''wc'', ''grep'', ''egrep'', ''fgrep'', ''rg'', ''ag'', ''stat'',
     ''file'', ''du'', ''df'', ''pwd'', ''basename'', ''dirname'', ''realpath'', ''readlink'', ''uname'', ''whoami'', ''date'',
     ''which'', ''where'', ''type'', ''echo'', ''printf'', ''true'', ''false'']"

definition classify_words :: "string \<Rightarrow> string list \<Rightarrow> command_effect" where
  "classify_words executable args =
     (if executable = ''git'' then
        (case args of [] \<Rightarrow> unknownCommandEffect ''Git subcommand is missing''
         | command # rest \<Rightarrow> classifyGitInvocation command rest)
      else if executable = ''find'' then
        (if list_ex (\<lambda>a. a \<in> set find_actions) args
         then effect EffectMutating ''find can delete, execute, or write a file''
         else effect EffectReadOnly ''find query only'')
      else if executable = ''rm'' then
        (if hasRecursiveForceFlags args then effect EffectDestructive ''recursive forced deletion''
         else effect EffectMutating ''file deletion'')
      else if executable \<in> set [''mkfs'', ''dd'', ''shutdown'', ''reboot'', ''halt'', ''poweroff'']
      then effect EffectDestructive ''system-level command''
      else if executable = ''chmod'' then
        (if list_ex (\<lambda>a. a = ''777'' \<or> str_contains a ''777'') args
         then effect EffectDestructive ''world-writable permission change''
         else effect EffectMutating ''file permission change'')
      else if executable \<in> set [''kill'', ''pkill''] then
        (if list_ex (\<lambda>a. (a = ''-9'' \<or> a = ''-KILL'') \<and> (executable = ''pkill'' \<or> containsCommandEffectArg args ''1'')) args
         then effect EffectDestructive ''forced process termination''
         else effect EffectMutating ''process termination'')
      else if executable \<in> set [''mv'', ''cp'', ''mkdir'', ''rmdir'', ''touch'', ''chown'', ''ln'', ''install'', ''tee'', ''sponge'']
      then effect EffectMutating ''file or system state change''
      else if executable \<in> set [''sed'', ''perl''] then
        (if list_ex (\<lambda>a. a = ''-i'' \<or> has_prefix a ''-i'') args then effect EffectMutating ''in-place file edit''
         else unknownCommandEffect ''script command effect is not statically known'')
      else if executable \<in> set read_only_commands then effect EffectReadOnly ''known read-only command''
      else unknownCommandEffect ''command is not in the read-only effect catalog'')"

definition classifyBashCommandEffect :: "string \<Rightarrow> command_effect" where
  "classifyBashCommandEffect command =
     (case splitSimpleShellCommand command of
        Some (w # ws) \<Rightarrow>
          (if str_contains w ''='' then unknownCommandEffect ''environment assignment is not classified''
           else if contains_any_char (to_lower w) [slash, CHR 0x5C, CHR '':'']
           then unknownCommandEffect ''path-qualified executable is not classified''
           else classify_words (to_lower w) (map to_lower ws))
      | _ \<Rightarrow> unknownCommandEffect ''shell syntax is compound, quoted, expanded, or ambiguous'')"

section \<open>Tools\<close>

definition string_value :: "json option \<Rightarrow> string option" where
  "string_value v = (case v of Some (JStr s) \<Rightarrow> Some s | _ \<Rightarrow> None)"

definition classifyCommandEffect :: "string \<Rightarrow> (string \<rightharpoonup> json) \<Rightarrow> command_effect" where
  "classifyCommandEffect toolName input =
     (let tool = canonicalPermissionToolName toolName in
      if tool = ''Bash'' then
        (case string_value (input ''command'') of
           None \<Rightarrow> unknownCommandEffect ''missing Bash command''
         | Some command \<Rightarrow> classifyBashCommandEffect command)
      else if tool = ''Git'' then
        (case string_value (input ''command'') of
           None \<Rightarrow> unknownCommandEffect ''missing Git command''
         | Some command \<Rightarrow>
             (case string_value (input ''args'') of
                Some args \<Rightarrow> classifyGitCommandEffect command args
              | None \<Rightarrow>
                  (if input ''args'' \<noteq> None \<and> input ''args'' \<noteq> Some JNull
                   then unknownCommandEffect ''invalid Git arguments''
                   else classifyGitCommandEffect command [])))
      else unknownCommandEffect ''tool has no command-effect contract'')"

definition IsConcurrencySafe :: "string \<Rightarrow> (string \<rightharpoonup> json) \<Rightarrow> bool" where
  "IsConcurrencySafe toolName input =
     (if toolName \<in> set [''Read'', ''Glob'', ''Grep'', ''RepoMap'', ''LSP'', ''LoadToolResult''] then True
      else if toolName \<in> set [''Write'', ''Edit''] then False
      else if toolName \<in> set [''Bash'', ''Git''] then ce_Kind (classifyCommandEffect toolName input) = EffectReadOnly
      else False)"

text \<open>\<^verbatim>\<open>json.Unmarshal\<close> into a Go map: the last of equal keys wins; \<^const>\<open>None\<close> is an error or a nil map.\<close>

definition unmarshal_map :: "json_text \<Rightarrow> (string \<rightharpoonup> json) option" where
  "unmarshal_map input = (case input of ObjectText members Closed \<Rightarrow> Some (map_of (rev members)) | _ \<Rightarrow> None)"

definition readOnlyPolicyAllowsBuiltIn :: "string \<Rightarrow> json_text \<Rightarrow> bool" where
  "readOnlyPolicyAllowsBuiltIn toolName input =
     (let tool = canonicalPermissionToolName toolName in
      if tool \<in> set [''Bash'', ''Git''] then
        (case unmarshal_map input of None \<Rightarrow> False
         | Some object \<Rightarrow> ce_Kind (classifyCommandEffect tool object) = EffectReadOnly)
      else tool \<in> set [''Read'', ''Glob'', ''Grep'', ''LS'', ''RepoMap'', ''LSP'', ''NotebookRead'', ''ImageRead'', ''PDFRead'',
        ''LoadToolResult'', ''LoadSkill'', ''ReportCompletion'', ''WebSearch'', ''WebFetch'', ''WebResearch'', ''TaskList''])"

record tool_call =
  tc_ID :: string
  tc_Name :: string
  tc_Input :: "(string \<rightharpoonup> json) option"

text \<open>
  The input of a \<^verbatim>\<open>ToolCall\<close> counts only if it is an object; any other value leaves the map that
  is examined nil, which reads as empty.
\<close>

definition PartitionToolCalls :: "tool_call list \<Rightarrow> tool_call list \<times> tool_call list" where
  "PartitionToolCalls calls =
     partition (\<lambda>c. IsConcurrencySafe (tc_Name c) (case tc_Input c of Some m \<Rightarrow> m | None \<Rightarrow> Map.empty)) calls"

section \<open>What a read-only classification implies\<close>

lemma split_simple_plain:
  "split_simple cur s = Some ws \<Longrightarrow> set s \<inter> set shell_metacharacters = {}"
  by (induction cur s arbitrary: ws rule: split_simple.induct) (auto split: if_splits)

lemma concat_flush: "concat (flush_word cur) = cur"
  by (simp add: flush_word_def)

text \<open>Nothing is lost or added: the words are the command without its blanks.\<close>

lemma split_simple_concat:
  "split_simple cur s = Some ws \<Longrightarrow> concat ws = cur @ filter (\<lambda>c. c \<noteq> CHR '' '' \<and> c \<noteq> CHR 0x09) s"
  by (induction cur s arbitrary: ws rule: split_simple.induct) (auto simp: concat_flush split: if_splits)

lemma split_simple_words:
  "split_simple cur s = Some ws \<Longrightarrow> CHR '' '' \<notin> set cur \<and> CHR 0x09 \<notin> set cur
     \<Longrightarrow> list_all (\<lambda>w. w \<noteq> [] \<and> CHR '' '' \<notin> set w \<and> CHR 0x09 \<notin> set w) ws"
  by (induction cur s arbitrary: ws rule: split_simple.induct) (auto simp: flush_word_def split: if_splits)

definition git_queries :: "string list" where
  "git_queries = [''status'', ''diff'', ''log'', ''show'', ''blame'', ''grep'', ''shortlog'', ''describe'', ''rev-parse'',
     ''ls-files'', ''ls-tree'', ''cat-file'', ''name-rev'', ''for-each-ref'', ''branch'', ''stash'', ''remote'', ''tag'']"

lemma effect_simps [simp]: "ce_Kind (effect k r) = k" "ce_Kind (unknownCommandEffect r) = EffectUnknown"
  by (simp_all add: effect_def unknownCommandEffect_def)

lemma git_read_only:
  assumes "ce_Kind (classifyGitInvocation command args) = EffectReadOnly"
  shows "to_lower (trim_space command) \<in> set git_queries
    \<and> \<not> list_ex (\<lambda>a. a = ''--output'' \<or> has_prefix a ''--output='') args
    \<and> \<not> list_ex (\<lambda>a. has_prefix (to_lower a) ''--force'') args"
  using assms
  by (auto simp: classifyGitInvocation_def Let_def mutatingGitInvocation_def dangerousGitInvocation_def git_queries_def
      list_ex_iff split: if_splits)

lemma classify_words_read_only:
  assumes "ce_Kind (classify_words executable args) = EffectReadOnly"
  shows "executable \<in> set read_only_commands
    \<or> executable = ''find'' \<and> \<not> list_ex (\<lambda>a. a \<in> set find_actions) args
    \<or> executable = ''git'' \<and> (\<exists>command rest. args = command # rest
        \<and> ce_Kind (classifyGitInvocation command rest) = EffectReadOnly)"
  using assms unfolding classify_words_def by (simp split: if_splits list.splits)

end
