(* ===== verification/Path_Laws.thy ===== *)
theory Path_Laws
  imports Path_Safety
begin

text \<open>
  What the workspace boundary guarantees. What is used of the operating system is stated as two
  predicates of the file system: \<^verbatim>\<open>fs_absolute\<close>, that the working directory and resolved links of
  absolute paths are absolute, and \<^verbatim>\<open>fs_resolves\<close>, how a path that is resolved, or missing,
  behaves when it is looked up again. \<^verbatim>\<open>plain_fs\<close> is a file system that satisfies both.
\<close>

section \<open>Vocabulary\<close>

definition fs_absolute :: "filesystem \<Rightarrow> bool" where
  "fs_absolute fs \<longleftrightarrow>
     (\<forall>wd. fs_Getwd fs = Some wd \<longrightarrow> IsAbs wd)
     \<and> (\<forall>p q. IsAbs p \<longrightarrow> fs_EvalSymlinks fs p = Some q \<longrightarrow> IsAbs q)"

text \<open>
  A resolved path is cleaned, exists and resolves to itself; a name missing in a directory is
  missing under the directory's resolved path; and what is below a missing path is missing.
\<close>

definition fs_resolves :: "filesystem \<Rightarrow> bool" where
  "fs_resolves fs \<longleftrightarrow>
     (\<forall>p q. IsAbs p \<longrightarrow> fs_EvalSymlinks fs p = Some q \<longrightarrow>
        clean_abs q \<and> fs_Lstat fs q = LstatOk \<and> fs_EvalSymlinks fs q = Some q)
     \<and> (\<forall>p m q. clean_abs p \<longrightarrow> proper_elem m \<longrightarrow> fs_Lstat fs (path_Join [p, m]) = LstatNotExist \<longrightarrow>
        fs_EvalSymlinks fs p = Some q \<longrightarrow> fs_Lstat fs (path_Join [q, m]) = LstatNotExist)
     \<and> (\<forall>p m. clean_abs p \<longrightarrow> proper_elem m \<longrightarrow> fs_Lstat fs p = LstatNotExist \<longrightarrow>
        fs_Lstat fs (path_Join [p, m]) = LstatNotExist)"

definition inside :: "string \<Rightarrow> string \<Rightarrow> bool" where
  "inside ws p \<longleftrightarrow> clean_abs p \<and> take (length (clean_elems ws)) (clean_elems p) = clean_elems ws"

text \<open>
  A path without links: it is its own canonical path, its existing part resolves to itself and
  the first name after that part is missing.
\<close>

definition link_resolved :: "filesystem \<Rightarrow> string \<Rightarrow> bool" where
  "link_resolved fs p \<longleftrightarrow> canonicalizeTarget fs p = Inr p
     \<and> (\<exists>qs ms. p = abs_path (qs @ ms) \<and> fs_EvalSymlinks fs (abs_path qs) = Some (abs_path qs)
          \<and> (ms = [] \<or> fs_Lstat fs (abs_path (qs @ [hd ms])) = LstatNotExist))"

definition unblocked :: "string list \<Rightarrow> string \<Rightarrow> bool" where
  "unblocked blocked p \<longleftrightarrow> \<not> list_ex (str_contains p) blocked"

section \<open>Canonical paths\<close>

lemma pathWithin_inside: "clean_abs p \<Longrightarrow> clean_abs ws \<Longrightarrow> pathWithin p ws \<longleftrightarrow> inside ws p"
proof (elim clean_absE)
  fix ps bs
  assume p: "list_all proper_elem ps" "p = abs_path ps" "clean_elems p = ps"
    and w: "list_all proper_elem bs" "ws = abs_path bs" "clean_elems ws = bs"
  have "(\<exists>rest. ps = bs @ rest) \<longleftrightarrow> take (length bs) ps = bs"
    by (metis append_eq_conv_conj append_take_drop_id)
  with p w show ?thesis
    using pathWithin_abs_path [OF p(1) w(1)] by (simp add: inside_def)
qed

lemma IsAbs_path_Join: "IsAbs p \<Longrightarrow> IsAbs (path_Join [p, m])"
  by (cases p) (auto simp: path_Join_def Clean_def IsAbs_def)

lemma IsAbs_fold_Join: "IsAbs p \<Longrightarrow> IsAbs (foldl (\<lambda>p m. path_Join [p, m]) p ms)"
  by (induction ms arbitrary: p) (auto simp: IsAbs_path_Join)

lemma clean_abs_Dir: "clean_abs p \<Longrightarrow> clean_abs (path_Dir p)"
proof (elim clean_absE)
  fix cs
  assume cs: "list_all proper_elem cs" "p = abs_path cs"
  then show "clean_abs (path_Dir p)"
    by (cases cs rule: rev_cases) (auto simp: path_comps)
qed

text \<open>The climb ends at an existing ancestor: the case rule of a successful canonicalisation.\<close>

lemma canonicalize_fromE:
  assumes "canonicalize_from fs target current missing = Inr c"
  obtains (found) q where "fs_Lstat fs current = LstatOk" "fs_EvalSymlinks fs current = Some q"
      "missing \<noteq> [] \<Longrightarrow> fs_StatDir fs q = Some True" "c = Clean (foldl (\<lambda>p m. path_Join [p, m]) q (rev missing))"
  | (climb) "fs_Lstat fs current = LstatNotExist" "path_Dir current \<noteq> current"
      "canonicalize_from fs target (path_Dir current) (missing @ [path_base current]) = Inr c"
proof (cases "fs_Lstat fs current")
  case LstatOk
  with assms show ?thesis
    by (auto simp: canonicalize_from.simps [of fs target current] split: option.splits if_splits intro: found)
next
  case LstatNotExist
  with assms show ?thesis
    by (auto simp: canonicalize_from.simps [of fs target current] split: if_splits intro: climb)
next
  case LstatError
  with assms show ?thesis by (simp add: canonicalize_from.simps [of fs target current])
qed

lemma canonicalize_from_clean:
  assumes "fs_absolute fs" and "clean_abs current" and "canonicalize_from fs target current missing = Inr c"
  shows "clean_abs c"
  using assms
proof (induction fs target current missing rule: canonicalize_from.induct)
  case (1 fs target current missing)
  from "1.prems"(3) show ?case
  proof (cases rule: canonicalize_fromE)
    case (found q)
    then have "IsAbs q" using "1.prems"(1,2) by (auto simp: fs_absolute_def clean_abs_def)
    then show ?thesis by (simp add: found(4) IsAbs_fold_Join)
  next
    case climb
    then show ?thesis using "1.IH" "1.prems"(1,2) clean_abs_Dir by blast
  qed
qed

lemma canonicalizeTarget_clean: "fs_absolute fs \<Longrightarrow> IsAbs t \<Longrightarrow> canonicalizeTarget fs t = Inr c \<Longrightarrow> clean_abs c"
  unfolding canonicalizeTarget_def by (rule canonicalize_from_clean) auto

lemma path_Abs_IsAbs: "fs_absolute fs \<Longrightarrow> path_Abs fs p = Some q \<Longrightarrow> IsAbs q"
  unfolding path_Abs_def fs_absolute_def
  by (auto simp: Clean_abs IsAbs_path_Join split: if_splits)

lemma canonicalWorkspace_clean:
  assumes "fs_absolute fs" and "canonicalWorkspace fs wd = Inr ws"
  shows "clean_abs ws"
proof -
  obtain absWork canonical where "path_Abs fs wd = Some absWork" "fs_EvalSymlinks fs absWork = Some canonical"
      "ws = Clean canonical"
    using assms(2) unfolding canonicalWorkspace_def by (simp split: if_splits sum.splits option.splits)
  moreover from this have "IsAbs canonical"
    using path_Abs_IsAbs [OF assms(1)] assms(1) unfolding fs_absolute_def by blast
  ultimately show ?thesis by simp
qed

lemma unblocked_iff: "[] \<notin> set blocked \<Longrightarrow> matchingBlockedPath p blocked = [] \<longleftrightarrow> unblocked blocked p"
  by (auto simp: matchingBlockedPath_def unblocked_def list_ex_iff find_None_iff split: option.splits
      dest: find_Some_set)

section \<open>Tool fields\<close>

lemma commit_files_all:
  "\<forall>p c. canon p = Inr c \<longrightarrow> P c \<Longrightarrow> commit_files canon ps = Inr r \<Longrightarrow> list_all (\<lambda>(n, v). P v) r"
  by (induction ps arbitrary: r) (auto split: if_splits sum.splits)

text \<open>
  An argument of the Git tool that names a place outside by its form is one of the canonical
  paths, because the others are passed on only if they are neither absolute nor climbing.
\<close>

lemma git_arguments_all:
  assumes "\<forall>p c. canon p = Inr c \<longrightarrow> P c"
  shows "git_arguments canon command sep args = Inr ws
     \<Longrightarrow> list_all (\<lambda>v. IsAbs v \<or> hasParentTraversalComponent v \<longrightarrow> P v) ws"
proof (induction args arbitrary: sep ws)
  case (Cons a args)
  have dashes: "\<not> IsAbs ''--'' \<and> \<not> hasParentTraversalComponent ''--''" by code_simp
  from Cons show ?case using assms
    by (auto simp: Let_def dashes split: if_splits sum.splits)
qed simp

lemma git_command_char_plain: "git_command_char c \<Longrightarrow> c \<noteq> slash \<and> c \<noteq> CHR 0x5C \<and> c \<noteq> CHR ''.''"
  by (auto simp: git_command_char_def byte_def)

lemma git_command_plain:
  assumes "list_all git_command_char command"
  shows "\<not> IsAbs command \<and> \<not> hasParentTraversalComponent command"
proof -
  have plain: "\<And>c. c \<in> set command \<Longrightarrow> c \<noteq> slash \<and> c \<noteq> CHR 0x5C \<and> c \<noteq> CHR ''.''"
    using assms git_command_char_plain unfolding list_all_iff by blast
  have map: "map (\<lambda>c. if c = CHR 0x5C then slash else c) command = command"
    using plain by (intro map_idI) simp
  have noslash: "slash \<notin> set command" using plain by blast
  have "command \<noteq> ''..''" using plain [of "CHR ''.''"] by auto
  then have "\<not> hasParentTraversalComponent command"
    unfolding hasParentTraversalComponent_def map split_slash_word [OF noslash] by simp
  moreover have "\<not> IsAbs command"
    unfolding IsAbs_def using noslash hd_in_set by metis
  ultimately show ?thesis by blast
qed

text \<open>What the predicate of the canonical paths says of a field.\<close>

definition field_ok :: "(string \<Rightarrow> bool) \<Rightarrow> string \<times> string \<Rightarrow> bool" where
  "field_ok P nv = ((fst nv = ''arguments'' \<longrightarrow> IsAbs (snd nv) \<or> hasParentTraversalComponent (snd nv)) \<longrightarrow> P (snd nv))"

definition result_ok :: "(string \<Rightarrow> bool) \<Rightarrow> path_error + resolved_paths \<Rightarrow> bool" where
  "result_ok P res = (case res of Inl _ \<Rightarrow> True | Inr r \<Rightarrow> list_all (field_ok P) r)"

lemma result_ok_Inl [simp]: "result_ok P (Inl e)"
  by (simp add: result_ok_def)

lemma result_ok_if: "result_ok P a \<Longrightarrow> result_ok P b \<Longrightarrow> result_ok P (if c then a else b)"
  by simp

lemma tool_fields_ok:
  assumes canon: "\<And>p c. canonicalPathForPolicy fs p workDir workspace cfg = Inr c \<Longrightarrow> P c"
  shows "result_ok P (tool_fields fs goodPattern tool object workDir workspace cfg)"
proof -
  let ?c = "\<lambda>p. canonicalPathForPolicy fs p workDir workspace cfg"
  have all: "\<forall>p c. ?c p = Inr c \<longrightarrow> P c" using canon by blast
  have filef: "result_ok P (file_field ?c object)"
    by (auto simp: file_field_def result_ok_def field_ok_def split: sum.splits dest: canon)
  have base: "P c" if "base_field ?c what object = Inr c" for what c
    using that by (auto simp: base_field_def split: sum.splits dest: canon)
  have glob: "result_ok P (glob_paths ?c g object)" for g
    by (auto simp: glob_paths_def result_ok_def field_ok_def split: sum.splits dest: base)
  have grep: "result_ok P (grep_paths ?c g object)" for g
    by (auto simp: grep_paths_def result_ok_def field_ok_def split: sum.splits if_splits dest: base)
  have diff: "result_ok P (diff_file ?c object n ks)" for n ks
    by (auto simp: diff_file_def result_ok_def field_ok_def split: sum.splits dest: canon)
  have gdiff: "result_ok P (git_diff_paths ?c object)"
    by (auto simp: git_diff_paths_def result_ok_def field_ok_def split: sum.splits if_splits dest: canon)
  have files: "result_ok P (commit_files ?c ps)" for ps
    using commit_files_all [OF all, of ps] by (auto simp: result_ok_def field_ok_def list_all_iff split: sum.splits)
  have commit: "result_ok P (commit_paths ?c object)"
    by (simp add: commit_paths_def Let_def files split: sum.split)
  have git: "result_ok P (case resolveGitToolArguments fs object workDir workspace cfg of
      Inl e \<Rightarrow> Inl e | Inr ws \<Rightarrow> Inr (map (Pair ''arguments'') ws))"
  proof (cases "resolveGitToolArguments fs object workDir workspace cfg")
    case (Inr ws)
    then obtain command args us where u: "list_all git_command_char command"
        "git_arguments ?c command False args = Inr us" "ws = command # us"
      unfolding resolveGitToolArguments_def by (auto split: sum.splits if_splits)
    with Inr git_command_plain [OF u(1)] git_arguments_all [OF all u(2)] show ?thesis
      by (simp add: result_ok_def field_ok_def list_all_iff)
  qed (simp add: result_ok_def)
  have both: "result_ok P (case diff_file ?c object n ks of Inl e \<Rightarrow> Inl e | Inr a \<Rightarrow>
      (case diff_file ?c object n' ks' of Inl e \<Rightarrow> Inl e | Inr b \<Rightarrow> Inr (a @ b)))" for n ks n' ks'
    using diff [of n ks] diff [of n' ks'] by (simp add: result_ok_def split: sum.splits)
  have path: "result_ok P (case base_field ?c what object of Inl e \<Rightarrow> Inl e | Inr c \<Rightarrow> Inr [(''path'', c)])" for what
    by (auto simp: result_ok_def field_ok_def split: sum.split dest: base)
  show ?thesis
    unfolding tool_fields_def Let_def
    by (intro result_ok_if filef path glob grep both gdiff commit git) (simp_all add: result_ok_def split: sum.split)
qed

section \<open>External paths\<close>

text \<open>
  That a run may leave the workspace only widens what is accepted: a path that is accepted without
  this permission has the same canonical path with it.
\<close>

definition extends :: "('a \<Rightarrow> 'e + 'b) \<Rightarrow> ('a \<Rightarrow> 'e + 'b) \<Rightarrow> bool" where
  "extends f g \<longleftrightarrow> (\<forall>x y. f x = Inr y \<longrightarrow> g x = Inr y)"

lemma extendsD: "extends f g \<Longrightarrow> f x = Inr y \<Longrightarrow> g x = Inr y"
  by (simp add: extends_def)

definition carries :: "'e + 'b \<Rightarrow> 'e + 'b \<Rightarrow> bool" where
  "carries a b \<longleftrightarrow> (\<forall>y. a = Inr y \<longrightarrow> b = Inr y)"

lemma extends_carries: "extends f g \<longleftrightarrow> (\<forall>x. carries (f x) (g x))"
  by (auto simp: extends_def carries_def)

lemma carries_if: "carries a b \<Longrightarrow> carries a' b' \<Longrightarrow> carries (if c then a else a') (if c then b else b')"
  by simp

lemma carries_refl: "carries a a"
  by (simp add: carries_def)

lemma carries_case:
  "carries a b \<Longrightarrow> (\<And>y. carries (f y) (g y))
     \<Longrightarrow> carries (case a of Inl e \<Rightarrow> Inl e | Inr y \<Rightarrow> f y) (case b of Inl e \<Rightarrow> Inl e | Inr y \<Rightarrow> g y)"
  by (auto simp: carries_def split: sum.split_asm)

lemma file_field_extends: "extends c d \<Longrightarrow> extends (file_field c) (file_field d)"
  unfolding extends_def file_field_def by (auto split: sum.splits)

lemma base_field_extends: "extends c d \<Longrightarrow> extends (base_field c what) (base_field d what)"
  unfolding extends_def base_field_def by (auto split: sum.splits)

lemma glob_paths_extends:
  assumes "extends c d" and "\<And>p. extends (g p) (h p)"
  shows "extends (glob_paths c g) (glob_paths d h)"
  using base_field_extends [OF assms(1)] assms(2)
  unfolding extends_def glob_paths_def by (auto split: sum.splits)

lemma grep_paths_extends:
  assumes "extends c d" and "\<And>p. extends (g p) (h p)"
  shows "extends (grep_paths c g) (grep_paths d h)"
  using base_field_extends [OF assms(1)] assms(2)
  unfolding extends_def grep_paths_def by (auto split: sum.splits if_splits)

lemma diff_file_extends: "extends c d \<Longrightarrow> extends (\<lambda>object. diff_file c object n ks) (\<lambda>object. diff_file d object n ks)"
  unfolding extends_def diff_file_def by (auto split: sum.splits)

lemma git_diff_paths_extends: "extends c d \<Longrightarrow> extends (git_diff_paths c) (git_diff_paths d)"
  unfolding extends_def git_diff_paths_def by (auto split: sum.splits if_splits)

lemma commit_files_extends: "extends c d \<Longrightarrow> commit_files c ps = Inr r \<Longrightarrow> commit_files d ps = Inr r"
  by (induction ps arbitrary: r) (auto split: if_splits sum.splits dest: extendsD)

lemma commit_paths_extends:
  assumes "extends c d"
  shows "extends (commit_paths c) (commit_paths d)"
  unfolding extends_def commit_paths_def
  by (auto simp: Let_def commit_files_extends [OF assms] split: sum.split_asm if_split_asm)

lemma git_arguments_extends:
  "extends c d \<Longrightarrow> git_arguments c command sep args = Inr ws \<Longrightarrow> git_arguments d command sep args = Inr ws"
proof (induction args arbitrary: sep ws)
  case (Cons a args)
  note IH = Cons.IH [OF Cons.prems(1)]
  show ?case
    using Cons.prems(2) unfolding git_arguments.simps Let_def
    by (simp only: split: if_split_asm) (auto simp: IH extendsD [OF Cons.prems(1)] split: sum.split_asm)
qed simp

lemma tool_fields_extends:
  assumes canon: "\<And>base. extends (\<lambda>p. canonicalPathForPolicy fs p base ws cfg) (\<lambda>p. canonicalPathForPolicy fs p base ws cfg')"
    and glob: "\<And>p. extends (\<lambda>base. checkGlobPattern fs gp p base ws cfg) (\<lambda>base. checkGlobPattern fs gp p base ws cfg')"
  shows "carries (tool_fields fs gp tool object wd ws cfg) (tool_fields fs gp tool object wd ws cfg')"
proof -
  note canon = canon [of wd]
  have git: "carries (resolveGitToolArguments fs object wd ws cfg) (resolveGitToolArguments fs object wd ws cfg')"
    unfolding resolveGitToolArguments_def carries_def
    by (auto simp: git_arguments_extends [OF canon] split: sum.split_asm if_split_asm)
  note parts = file_field_extends [OF canon] base_field_extends [OF canon] glob_paths_extends [OF canon glob]
    grep_paths_extends [OF canon glob] diff_file_extends [OF canon] git_diff_paths_extends [OF canon]
    commit_paths_extends [OF canon]
  show ?thesis
    unfolding tool_fields_def Let_def
    by (intro carries_if carries_case carries_refl git parts [unfolded extends_carries, rule_format])
qed

lemma resolve_unblocked_external [simp]:
  "resolve_unblocked fs p b (cfg\<lparr>pc_AllowExternalPaths := x\<rparr>) = resolve_unblocked fs p b cfg"
proof -
  have "pc_BlockedPaths (cfg\<lparr>pc_AllowExternalPaths := x\<rparr>) = pc_BlockedPaths cfg" by simp
  then show ?thesis unfolding resolve_unblocked_def by (simp only:)
qed

lemma canonicalPathForPolicy_external:
  "extends (\<lambda>p. canonicalPathForPolicy fs p b ws (cfg\<lparr>pc_AllowExternalPaths := False\<rparr>))
     (\<lambda>p. canonicalPathForPolicy fs p b ws (cfg\<lparr>pc_AllowExternalPaths := True\<rparr>))"
  by (auto simp: extends_def canonicalPathForPolicy_def canonicalPathWithinWorkspace_def split: sum.split_asm if_split_asm)

lemma checkGlobPattern_external:
  "extends (\<lambda>base. checkGlobPattern fs gp p base ws (cfg\<lparr>pc_AllowExternalPaths := False\<rparr>))
     (\<lambda>base. checkGlobPattern fs gp p base ws (cfg\<lparr>pc_AllowExternalPaths := True\<rparr>))"
  unfolding extends_def checkGlobPattern_def
  by (auto simp: extendsD [OF canonicalPathForPolicy_external] split: sum.split_asm if_split_asm)

lemma checkToolWorkspacePaths_external:
  assumes "checkToolWorkspacePaths fs gp tool input wd (cfg\<lparr>pc_AllowExternalPaths := False\<rparr>) = None"
  shows "checkToolWorkspacePaths fs gp tool input wd (cfg\<lparr>pc_AllowExternalPaths := True\<rparr>) = None"
proof -
  let ?off = "cfg\<lparr>pc_AllowExternalPaths := False\<rparr>" and ?on = "cfg\<lparr>pc_AllowExternalPaths := True\<rparr>"
  have fields: "carries (tool_fields fs gp t object wd ws ?off) (tool_fields fs gp t object wd ws ?on)" for t object ws
    by (intro tool_fields_extends canonicalPathForPolicy_external checkGlobPattern_external)
  have "tool_fields fs gp t object wd ws ?on = Inr r" if "tool_fields fs gp t object wd ws ?off = Inr r" for t object ws r
    using fields that by (simp add: carries_def)
  with assms show ?thesis
    unfolding checkToolWorkspacePaths_def resolveToolWorkspacePaths_def Let_def
    by (auto split: sum.split_asm if_split_asm)
qed

section \<open>Resolving twice\<close>

lemma fold_Join_abs_path:
  "list_all proper_elem cs \<Longrightarrow> list_all proper_elem ms
     \<Longrightarrow> foldl (\<lambda>p m. path_Join [p, m]) (abs_path cs) ms = abs_path (cs @ ms)"
  by (induction ms arbitrary: cs) (simp_all add: path_Join_abs_path)

lemma fs_missing_child:
  assumes "fs_resolves fs" and "list_all proper_elem cs" and "proper_elem m"
    and "fs_Lstat fs (abs_path cs) = LstatNotExist"
  shows "fs_Lstat fs (abs_path (cs @ [m])) = LstatNotExist"
  using assms clean_abs_path [OF assms(2)] unfolding fs_resolves_def path_Join_abs_path [OF assms(2,3), symmetric]
  by blast

lemma missing_below:
  assumes "fs_resolves fs" and "list_all proper_elem cs" and "list_all proper_elem ms"
    and "fs_Lstat fs (abs_path cs) = LstatNotExist"
  shows "fs_Lstat fs (abs_path (cs @ ms)) = LstatNotExist"
  using assms(3,4,2)
proof (induction ms arbitrary: cs)
  case (Cons m ms)
  have "fs_Lstat fs (abs_path (cs @ [m])) = LstatNotExist"
    using Cons.prems by (intro fs_missing_child [OF assms(1)]) simp_all
  with Cons.IH [of "cs @ [m]"] Cons.prems show ?case by simp
qed simp

text \<open>Climbing from below an existing directory whose next name is missing reaches it.\<close>

lemma canonicalize_from_above:
  assumes "fs_resolves fs" and "list_all proper_elem cs" and "list_all proper_elem ms"
    and "ms = [] \<or> fs_Lstat fs (abs_path (cs @ [hd ms])) = LstatNotExist"
  shows "canonicalize_from fs t (abs_path (cs @ ms)) missing = canonicalize_from fs t (abs_path cs) (missing @ rev ms)"
  using assms(3,4)
proof (induction ms arbitrary: missing rule: rev_induct)
  case (snoc m ms)
  have "fs_Lstat fs (abs_path (cs @ ms @ [m])) = LstatNotExist"
  proof (cases ms)
    case Nil
    with snoc show ?thesis by simp
  next
    case (Cons a as)
    with snoc.prems assms(1,2) missing_below [of fs "cs @ [a]" "as @ [m]"] show ?thesis by simp
  qed
  moreover have "path_Dir (abs_path ((cs @ ms) @ [m])) = abs_path (cs @ ms)" "path_base (abs_path ((cs @ ms) @ [m])) = m"
    using snoc.prems assms(2) by (simp_all only: list_all_append path_Dir_abs_path path_base_abs_path list.pred_inject)
  moreover have "abs_path (cs @ ms) \<noteq> abs_path ((cs @ ms) @ [m])"
    by (metis snoc.prems(1) assms(2) clean_elems_abs_path list_all_append self_append_conv not_Cons_self2)
  ultimately show ?case
    using snoc.IH [of "missing @ [m]"] snoc.prems
    by (subst canonicalize_from.simps) (cases ms; simp)
qed simp

text \<open>The canonical path of a target, given by its resolved existing part and its missing names.\<close>

lemma canonicalize_from_shape:
  assumes "fs_resolves fs"
  shows "clean_abs current \<Longrightarrow> list_all proper_elem missing
     \<Longrightarrow> missing = [] \<or> fs_Lstat fs (path_Join [current, last missing]) = LstatNotExist
     \<Longrightarrow> canonicalize_from fs target current missing = Inr c
     \<Longrightarrow> \<exists>qs ms. list_all proper_elem qs \<and> list_all proper_elem ms \<and> c = abs_path (qs @ ms)
         \<and> fs_Lstat fs (abs_path qs) = LstatOk \<and> fs_EvalSymlinks fs (abs_path qs) = Some (abs_path qs)
         \<and> (ms = [] \<or> fs_StatDir fs (abs_path qs) = Some True \<and> fs_Lstat fs (abs_path (qs @ [hd ms])) = LstatNotExist)"
  using assms
proof (induction fs target current missing rule: canonicalize_from.induct)
  case (1 fs target current missing)
  from "1.prems"(1) obtain cs where cs: "list_all proper_elem cs" "current = abs_path cs" by (rule clean_absE)
  from "1.prems"(4) show ?case
  proof (cases rule: canonicalize_fromE)
    case (found q)
    have "clean_abs q \<and> fs_Lstat fs q = LstatOk \<and> fs_EvalSymlinks fs q = Some q"
      using "1.prems"(1,5) found(2) unfolding fs_resolves_def clean_abs_def by blast
    moreover from this obtain qs where qs: "list_all proper_elem qs" "q = abs_path qs" by (elim conjE clean_absE)
    moreover have "missing \<noteq> [] \<Longrightarrow> fs_Lstat fs (abs_path (qs @ [last missing])) = LstatNotExist"
    proof -
      assume m: "missing \<noteq> []"
      with "1.prems"(2) have "proper_elem (last missing)" by (simp add: list_all_iff)
      with "1.prems"(1,3,5) found(2) m have "fs_Lstat fs (path_Join [q, last missing]) = LstatNotExist"
        unfolding fs_resolves_def by blast
      with qs \<open>proper_elem (last missing)\<close> show ?thesis by (simp add: path_Join_abs_path)
    qed
    moreover have "c = abs_path (qs @ rev missing)"
      using found(4) qs "1.prems"(2)
      by (simp add: fold_Join_abs_path Clean_abs clean_elems_abs_path)
    ultimately show ?thesis
      using found(3) "1.prems"(2) by (intro exI [of _ qs] exI [of _ "rev missing"]) (auto simp: hd_rev)
  next
    case climb
    with cs obtain ds d where d: "cs = ds @ [d]"
      by (cases cs rule: rev_cases) (auto simp: path_Dir_root)
    with cs have p: "list_all proper_elem ds" "proper_elem d" by simp_all
    then have dir: "path_Dir current = abs_path ds" "path_base current = d" "path_Join [abs_path ds, d] = current"
      by (simp_all add: cs d path_comps)
    show ?thesis
      using climb p "1.prems"(2,5) "1.IH" [OF climb(1,2)] by (simp add: dir)
  qed
qed

lemma resolved_fixed_point:
  assumes "list_all proper_elem qs" and "list_all proper_elem ms" and "fs_resolves fs"
    and "fs_Lstat fs (abs_path qs) = LstatOk" and "fs_EvalSymlinks fs (abs_path qs) = Some (abs_path qs)"
    and "ms = [] \<or> fs_StatDir fs (abs_path qs) = Some True \<and> fs_Lstat fs (abs_path (qs @ [hd ms])) = LstatNotExist"
  shows "canonicalizeTarget fs (abs_path (qs @ ms)) = Inr (abs_path (qs @ ms))"
proof -
  have "canonicalizeTarget fs (abs_path (qs @ ms)) = canonicalize_from fs (abs_path (qs @ ms)) (abs_path qs) (rev ms)"
    using assms canonicalize_from_above [OF assms(3,1,2), of _ "[]"]
    by (auto simp: canonicalizeTarget_def Clean_abs clean_elems_abs_path)
  also have "\<dots> = Inr (Clean (foldl (\<lambda>p m. path_Join [p, m]) (abs_path qs) ms))"
    using assms(4-6) by (auto simp: canonicalize_from.simps)
  finally show ?thesis
    using assms(1,2) by (simp add: fold_Join_abs_path Clean_abs clean_elems_abs_path)
qed

text \<open>
  What is authorised is what is opened: resolved again in the same file system a canonical path
  is itself, so that an executor that resolves it a second time gets the path that was checked.
\<close>

lemma canonical_link_resolved:
  assumes "fs_resolves fs" and "IsAbs t" and "canonicalizeTarget fs t = Inr c"
  shows "link_resolved fs c"
proof -
  obtain qs ms where "list_all proper_elem qs" "list_all proper_elem ms" "c = abs_path (qs @ ms)"
      "fs_Lstat fs (abs_path qs) = LstatOk" "fs_EvalSymlinks fs (abs_path qs) = Some (abs_path qs)"
      "ms = [] \<or> fs_StatDir fs (abs_path qs) = Some True \<and> fs_Lstat fs (abs_path (qs @ [hd ms])) = LstatNotExist"
    using canonicalize_from_shape [OF assms(1), of "Clean t" "[]" t c] assms(2,3)
    by (auto simp: canonicalizeTarget_def)
  with resolved_fixed_point [OF _ _ assms(1)] show ?thesis unfolding link_resolved_def by blast
qed

section \<open>Accepted paths\<close>

text \<open>What an accepted path satisfies, and that every accepted path satisfies it.\<close>

definition confined :: "filesystem \<Rightarrow> permission_config \<Rightarrow> string \<Rightarrow> string \<Rightarrow> bool" where
  "confined fs cfg ws p \<longleftrightarrow>
     clean_abs p \<and> link_resolved fs p
     \<and> ([] \<in> set (pc_BlockedPaths cfg) \<or> unblocked (pc_BlockedPaths cfg) p)
     \<and> (pc_AllowExternalPaths cfg \<or> inside ws p)"

lemma resolve_unblocked_ok:
  assumes "fs_absolute fs" and "fs_resolves fs" and "resolve_unblocked fs raw base cfg = Inr c"
  shows "clean_abs c \<and> link_resolved fs c
    \<and> ([] \<in> set (pc_BlockedPaths cfg) \<or> unblocked (pc_BlockedPaths cfg) c)"
proof -
  obtain absPath where a: "path_Abs fs (if IsAbs raw then raw else path_Join [base, raw]) = Some absPath"
      and c: "canonicalizeTarget fs absPath = Inr c" and b: "matchingBlockedPath c (pc_BlockedPaths cfg) = []"
    using assms(3) unfolding resolve_unblocked_def by (auto split: if_splits sum.splits option.splits)
  have "IsAbs absPath" using path_Abs_IsAbs [OF assms(1) a] .
  with c b show ?thesis
    using canonicalizeTarget_clean [OF assms(1)] canonical_link_resolved [OF assms(2)] unblocked_iff by blast
qed

lemma canonicalPathForPolicy_confined:
  assumes "fs_absolute fs" and "fs_resolves fs" and "clean_abs ws"
    and "canonicalPathForPolicy fs raw base ws cfg = Inr c"
  shows "confined fs cfg ws c"
  using assms(4) resolve_unblocked_ok [OF assms(1,2), of raw base] pathWithin_inside [OF _ assms(3)]
  by (auto simp: canonicalPathForPolicy_def canonicalPathWithinWorkspace_def confined_def split: if_splits sum.splits)

text \<open>
  The pattern of a search, empty if the call has none. Where a call with a pattern is accepted, the
  pattern was checked below the base that is returned.
\<close>

definition search_pattern :: "string \<Rightarrow> json_object \<Rightarrow> string" where
  "search_pattern tool object =
     (case (if tool = ''Glob'' then path_field ''glob pattern'' object True [''pattern'']
            else if tool = ''Grep'' then path_field ''grep glob'' object False [''glob'']
            else Inr []) of
        Inl _ \<Rightarrow> [] | Inr p \<Rightarrow> p)"

lemma search_pattern_checked:
  assumes "tool_fields fs gp tool object wd ws cfg = Inr r" and "search_pattern tool object \<noteq> []"
  shows "checkGlobPattern fs gp (search_pattern tool object) (paths_one r ''path'') ws cfg = Inr ()"
proof -
  from assms(2) consider "tool = ''Glob''" | "tool = ''Grep''"
    by (auto simp: search_pattern_def split: if_splits)
  then show ?thesis
  proof cases
    case 1
    with assms show ?thesis
      by (auto simp: tool_fields_def glob_paths_def search_pattern_def paths_one_def paths_many_def split: sum.splits)
  next
    case 2
    with assms show ?thesis
      by (auto simp: tool_fields_def grep_paths_def search_pattern_def paths_one_def paths_many_def
          split: sum.splits if_splits)
  qed
qed

lemma checkGlobPattern_confined:
  assumes "fs_absolute fs" and "fs_resolves fs" and "clean_abs ws"
    and "checkGlobPattern fs gp pattern base ws cfg = Inr ()"
  shows "\<not> hasParentTraversalComponent pattern
    \<and> (\<exists>root. canonicalPathForPolicy fs (globLiteralRoot pattern) base ws cfg = Inr root \<and> confined fs cfg ws root)"
  using assms(4) canonicalPathForPolicy_confined [OF assms(1-3)]
  by (auto simp: checkGlobPattern_def split: if_splits sum.splits)

lemma resolveToolWorkspacePathsE:
  assumes "resolveToolWorkspacePaths fs gp tool input wd cfg = Some (Inr r)"
  obtains object ws where "decodeUniqueJSONObject input = Inr object" "canonicalWorkspace fs wd = Inr ws"
    "tool_fields fs gp (canonicalPermissionToolName tool) object wd ws cfg = Inr r"
  using assms by (auto simp: resolveToolWorkspacePaths_def Let_def split: if_splits sum.splits)

section \<open>Guarantees\<close>

text \<open>
  A small file system for the witnesses: the directories \<^verbatim>\<open>/\<close>, \<^verbatim>\<open>/etc\<close>, \<^verbatim>\<open>/w\<close> and \<^verbatim>\<open>/w/src\<close>, a link
  \<^verbatim>\<open>/w/l\<close> to \<^verbatim>\<open>/w/src\<close> and a link \<^verbatim>\<open>/w/out\<close> to \<^verbatim>\<open>/etc\<close>.
\<close>

definition plain_fs :: filesystem where
  "plain_fs = \<lparr>fs_Getwd = Some ''/w'',
     fs_Lstat = (\<lambda>p. if p \<in> set [''/'', ''/etc'', ''/w'', ''/w/src'', ''/w/l'', ''/w/out''] then LstatOk else LstatNotExist),
     fs_EvalSymlinks = (\<lambda>p. if p = ''/w/l'' then Some ''/w/src''
       else if p = ''/w/out'' then Some ''/etc''
       else if p \<in> set [''/'', ''/etc'', ''/w'', ''/w/src''] then Some p else None),
     fs_StatDir = (\<lambda>p. if p \<in> set [''/'', ''/etc'', ''/w'', ''/w/src''] then Some True else None)\<rparr>"

lemma plain_fs_absolute: "fs_absolute plain_fs"
  by (auto simp: fs_absolute_def plain_fs_def IsAbs_def split: if_splits)

definition plain_entries :: "string list list" where
  "plain_entries = [[], [''etc''], [''w''], [''w'', ''src''], [''w'', ''l''], [''w'', ''out'']]"

lemma plain_fs_Lstat:
  assumes "list_all proper_elem cs"
  shows "fs_Lstat plain_fs (abs_path cs) = (if cs \<in> set plain_entries then LstatOk else LstatNotExist)"
proof -
  have lits: "set [''/'', ''/etc'', ''/w'', ''/w/src'', ''/w/l'', ''/w/out''] = set (map abs_path plain_entries)"
    by code_simp
  have "list_all (list_all proper_elem) plain_entries" by code_simp
  then have "abs_path cs \<in> set (map abs_path plain_entries) \<longleftrightarrow> cs \<in> set plain_entries"
    using assms clean_elems_abs_path unfolding list_all_iff set_map by (metis (no_types, lifting) image_iff list_all_iff)
  then show ?thesis unfolding plain_fs_def filesystem.simps lits by simp
qed

lemma plain_fs_Eval:
  assumes "fs_EvalSymlinks plain_fs p = Some q"
  shows "q = p \<and> p \<in> set [''/'', ''/etc'', ''/w'', ''/w/src''] \<or> p = ''/w/l'' \<and> q = ''/w/src'' \<or> p = ''/w/out'' \<and> q = ''/etc''"
  using assms by (auto simp: plain_fs_def split: if_splits)

lemma plain_fs_resolves: "fs_resolves plain_fs"
  unfolding fs_resolves_def
proof (intro conjI allI impI)
  fix p q
  assume "fs_EvalSymlinks plain_fs p = Some q"
  then have q: "q \<in> set [''/'', ''/etc'', ''/w'', ''/w/src'']" using plain_fs_Eval by auto
  have "list_all (\<lambda>q. clean_abs q \<and> fs_Lstat plain_fs q = LstatOk \<and> fs_EvalSymlinks plain_fs q = Some q)
      [''/'', ''/etc'', ''/w'', ''/w/src'']"
    unfolding clean_abs_def by code_simp
  with q show "clean_abs q" "fs_Lstat plain_fs q = LstatOk" "fs_EvalSymlinks plain_fs q = Some q"
    unfolding list_all_iff by blast+
next
  fix p m
  assume "clean_abs p" "proper_elem m" "fs_Lstat plain_fs p = LstatNotExist"
  moreover from this obtain cs where "list_all proper_elem cs" "p = abs_path cs" by (elim clean_absE)
  ultimately show "fs_Lstat plain_fs (path_Join [p, m]) = LstatNotExist"
    by (auto simp: path_Join_abs_path plain_fs_Lstat plain_entries_def append_eq_Cons_conv split: if_splits)
next
  fix p m q
  assume p: "clean_abs p" "proper_elem m" "fs_Lstat plain_fs (path_Join [p, m]) = LstatNotExist"
    and "fs_EvalSymlinks plain_fs p = Some q"
  then consider "q = p" | "p = ''/w/l''" "q = ''/w/src''" | "p = ''/w/out''" "q = ''/etc''"
    using plain_fs_Eval by blast
  then show "fs_Lstat plain_fs (path_Join [q, m]) = LstatNotExist"
  proof cases
    case 1
    with p show ?thesis by simp
  next
    case 2
    have "''/w/src'' = abs_path [''w'', ''src'']" "list_all proper_elem [''w'', ''src'']" by code_simp+
    with 2 p(2) show ?thesis by (simp add: path_Join_abs_path plain_fs_Lstat plain_entries_def)
  next
    case 3
    have "''/etc'' = abs_path [''etc'']" "list_all proper_elem [''etc'']" by code_simp+
    with 3 p(2) show ?thesis by (simp add: path_Join_abs_path plain_fs_Lstat plain_entries_def)
  qed
qed

text \<open>
  C39. The workspace is a boundary. Suppose the paths of a tool call are accepted, on a file system
  that answers with absolute paths and resolves a resolved path to itself. Then every path that is
  returned for a field is absolute, cleaned and free of links: it is its own canonical path, its
  existing part resolves to itself and the rest does not exist. Unless the run may use external
  paths it is the canonical workspace or lies below it, component by component; and no blocked
  entry is part of it, unless the list of blocked paths has an empty entry. The exception are the
  arguments of the Git tool that are passed on as they are, all of which are relative and have no
  parent component. Of a search pattern only this much is checked, that it has no parent component
  and that the canonical path of its literal root satisfies the same.
\<close>

theorem workspace_confinement:
  assumes "fs_absolute fs" and "fs_resolves fs"
    and "resolveToolWorkspacePaths fs goodPattern tool input workDir cfg = Some (Inr r)"
  shows "\<exists>ws object. canonicalWorkspace fs workDir = Inr ws \<and> clean_abs ws \<and> decodeUniqueJSONObject input = Inr object
    \<and> list_all (\<lambda>(name, p). name = ''arguments'' \<and> \<not> IsAbs p \<and> \<not> hasParentTraversalComponent p
         \<or> confined fs cfg ws p) r
    \<and> (let pattern = search_pattern (canonicalPermissionToolName tool) object in
        pattern = [] \<or> \<not> hasParentTraversalComponent pattern
          \<and> (\<exists>root. canonicalPathForPolicy fs (globLiteralRoot pattern) (paths_one r ''path'') ws cfg = Inr root
               \<and> confined fs cfg ws root))"
proof -
  from assms(3) obtain object ws where o: "decodeUniqueJSONObject input = Inr object"
      and ws: "canonicalWorkspace fs workDir = Inr ws"
      and r: "tool_fields fs goodPattern (canonicalPermissionToolName tool) object workDir ws cfg = Inr r"
    by (rule resolveToolWorkspacePathsE)
  have c: "clean_abs ws" using canonicalWorkspace_clean [OF assms(1) ws] .
  have "result_ok (confined fs cfg ws)
      (tool_fields fs goodPattern (canonicalPermissionToolName tool) object workDir ws cfg)"
    using canonicalPathForPolicy_confined [OF assms(1,2) c] by (rule tool_fields_ok)
  then have paths: "list_all (\<lambda>(name, p). name = ''arguments'' \<and> \<not> IsAbs p \<and> \<not> hasParentTraversalComponent p
      \<or> confined fs cfg ws p) r"
    unfolding r by (auto simp: result_ok_def field_ok_def list_all_iff)
  show ?thesis
    using checkGlobPattern_confined [OF assms(1,2) c search_pattern_checked [OF r]] o ws c paths
    unfolding Let_def by blast
qed

theorem workspace_confinement_witness:
  "list_all (\<lambda>(name, p). name = ''arguments'' \<and> \<not> IsAbs p \<and> \<not> hasParentTraversalComponent p
       \<or> confined plain_fs DefaultPermissionConfig ''/w'' p) [(''file_path'', ''/w/src/new/x.go'')]"
proof -
  have "resolveToolWorkspacePaths plain_fs (\<lambda>_. True) ''read_file''
      (ObjectText [(''path'', JStr ''l/new/x.go'')] Closed) ''/w'' DefaultPermissionConfig
    = Some (Inr [(''file_path'', ''/w/src/new/x.go'')])"
    by code_simp
  note * = workspace_confinement [OF plain_fs_absolute plain_fs_resolves this]
  have "canonicalWorkspace plain_fs ''/w'' = Inr ''/w''" by code_simp
  with * show ?thesis by auto
qed

section \<open>Observations\<close>

text \<open>A link out of the workspace, a sibling with the same prefix and a climbing path are refused.\<close>

lemma escapes_refused:
  "list_all (\<lambda>p. CheckPath plain_fs p ''/w'' DefaultPermissionConfig = Inl (OutsideWorkspace p))
     [''out/passwords'', ''/w-evil/x'', ''src/../../etc/x'', ''/'']"
  by code_simp

text \<open>
  An empty entry in the list of blocked paths is contained in every path, and is then reported
  as the empty string, which means not blocked: the entries after it have no effect.
\<close>

lemma empty_entry_unblocks:
  "matchingBlockedPath ''/home/u/.ssh/id_rsa'' [''.env'', [], ''.ssh/''] = []
   \<and> matchingBlockedPath ''/home/u/.ssh/id_rsa'' [''.env'', ''.ssh/''] = ''.ssh/''"
  by code_simp

end
