(* ===== verification/Read_Ledger.thy ===== *)
theory Read_Ledger
  imports Path_Laws Interfaces
begin

text \<open>
  The read-before-write ledger of \<^verbatim>\<open>internal/agent/read_ledger.go\<close>: the revisions of the files a run has
  read, and the decision whether it may write or edit one. The contents of files are a map from
  canonical paths to nodes, next to the file system of the path boundary, which resolves links;
  SHA-256 in hexadecimal notation is an argument. The ledger is shown to refine a specification
  that remembers contents: a file is changed only if it still has the revision last seen.
\<close>

section \<open>Files\<close>

text \<open>
  A path may be absent, hold a regular file with its permission bits, hold something else, or
  refuse to be opened.
\<close>

datatype file_node = Absent | Regular string nat | NotRegularNode | Unreadable

type_synonym files = "string \<Rightarrow> file_node"

datatype file_error = FileNotExist | FileNotRegular string | FileOpenFailed

definition artifactBytesRevision :: "(string \<Rightarrow> string) \<Rightarrow> string \<Rightarrow> string" where
  "artifactBytesRevision sha data = ''sha256:'' @ sha data"

definition readLedgerFileRevision :: "(string \<Rightarrow> string) \<Rightarrow> files \<Rightarrow> string \<Rightarrow> file_error + string" where
  "readLedgerFileRevision sha files p =
     (case files p of
        Absent \<Rightarrow> Inl FileNotExist
      | Regular data _ \<Rightarrow> Inr (artifactBytesRevision sha data)
      | NotRegularNode \<Rightarrow> Inl (FileNotRegular p)
      | Unreadable \<Rightarrow> Inl FileOpenFailed)"

section \<open>The ledger\<close>

record read_ledger =
  rl_workDir :: string
  rl_allowExternal :: bool
  rl_reads :: "string \<rightharpoonup> string"

datatype ledger_code =
    LedgerAllowed | LedgerNewFile | LedgerReadRequired | LedgerStaleRead | LedgerMissingTarget | LedgerRevisionUnavailable

datatype ledger_error =
    LedgerPathEmpty | LedgerWorkspace path_error | LedgerPathUnresolved | LedgerTarget path_error | LedgerOutside
  | LedgerFile file_error

record ledger_decision =
  ld_Allowed :: bool
  ld_Code :: ledger_code
  ld_Path :: string
  ld_RecordedRevision :: string
  ld_CurrentRevision :: string
  ld_Detail :: "ledger_error option"

definition NewReadLedger :: "filesystem \<Rightarrow> string \<Rightarrow> bool \<Rightarrow> read_ledger" where
  "NewReadLedger fs workDir allowExternal =
     (let wd = (if blank workDir then ''.'' else workDir) in
      \<lparr>rl_workDir = (case path_Abs fs wd of Some absolute \<Rightarrow> Clean absolute | None \<Rightarrow> wd),
       rl_allowExternal = allowExternal, rl_reads = Map.empty\<rparr>)"

definition resolvePath :: "string \<Rightarrow> string \<Rightarrow> string" where
  "resolvePath p workDir = (if IsAbs p then p else path_Join [workDir, p])"

definition ledger_canonicalPath :: "filesystem \<Rightarrow> read_ledger \<Rightarrow> string \<Rightarrow> ledger_error + string" where
  "ledger_canonicalPath fs l filePath =
     (if blank filePath then Inl LedgerPathEmpty
      else case canonicalWorkspace fs (rl_workDir l) of Inl e \<Rightarrow> Inl (LedgerWorkspace e) | Inr workspace \<Rightarrow>
        (case path_Abs fs (resolvePath filePath (rl_workDir l)) of None \<Rightarrow> Inl LedgerPathUnresolved | Some absolute \<Rightarrow>
          (case canonicalizeTarget fs absolute of Inl e \<Rightarrow> Inl (LedgerTarget e) | Inr canonical \<Rightarrow>
            (if \<not> rl_allowExternal l \<and> \<not> pathWithin canonical workspace then Inl LedgerOutside
             else Inr (Clean canonical)))))"

definition RecordRead ::
    "(string \<Rightarrow> string) \<Rightarrow> filesystem \<Rightarrow> files \<Rightarrow> string \<Rightarrow> read_ledger \<Rightarrow> read_ledger \<times> ledger_error option" where
  "RecordRead sha fs files filePath l =
     (case ledger_canonicalPath fs l filePath of
        Inl e \<Rightarrow> (l, Some e)
      | Inr canonical \<Rightarrow>
          (case readLedgerFileRevision sha files canonical of
             Inl e \<Rightarrow> (l\<lparr>rl_reads := (rl_reads l)(canonical := None)\<rparr>, Some (LedgerFile e))
           | Inr revision \<Rightarrow> (l\<lparr>rl_reads := (rl_reads l)(canonical \<mapsto> revision)\<rparr>, None)))"

definition RefreshAfterWrite ::
    "(string \<Rightarrow> string) \<Rightarrow> filesystem \<Rightarrow> files \<Rightarrow> string \<Rightarrow> read_ledger \<Rightarrow> read_ledger \<times> ledger_error option" where
  "RefreshAfterWrite sha fs files filePath l = RecordRead sha fs files filePath l"

definition Forget :: "filesystem \<Rightarrow> string \<Rightarrow> read_ledger \<Rightarrow> read_ledger \<times> ledger_error option" where
  "Forget fs filePath l =
     (case ledger_canonicalPath fs l filePath of
        Inl e \<Rightarrow> (l, Some e)
      | Inr canonical \<Rightarrow> (l\<lparr>rl_reads := (rl_reads l)(canonical := None)\<rparr>, None))"

definition CurrentRevision ::
    "(string \<Rightarrow> string) \<Rightarrow> filesystem \<Rightarrow> files \<Rightarrow> read_ledger \<Rightarrow> string \<Rightarrow> ledger_error + string" where
  "CurrentRevision sha fs files l filePath =
     (case ledger_canonicalPath fs l filePath of
        Inl e \<Rightarrow> Inl e
      | Inr canonical \<Rightarrow>
          (case readLedgerFileRevision sha files canonical of Inl e \<Rightarrow> Inl (LedgerFile e) | Inr r \<Rightarrow> Inr r))"

definition no_decision :: ledger_decision where
  "no_decision = \<lparr>ld_Allowed = False, ld_Code = LedgerRevisionUnavailable, ld_Path = [], ld_RecordedRevision = [],
     ld_CurrentRevision = [], ld_Detail = None\<rparr>"

definition checkMutation ::
    "(string \<Rightarrow> string) \<Rightarrow> filesystem \<Rightarrow> files \<Rightarrow> read_ledger \<Rightarrow> string \<Rightarrow> bool \<Rightarrow> ledger_decision" where
  "checkMutation sha fs files l filePath allowCreate =
     (case ledger_canonicalPath fs l filePath of
        Inl e \<Rightarrow> no_decision\<lparr>ld_Detail := Some e\<rparr>
      | Inr canonical \<Rightarrow>
          (let decision = no_decision\<lparr>ld_Path := canonical\<rparr> in
           case readLedgerFileRevision sha files canonical of
             Inl FileNotExist \<Rightarrow>
               (if allowCreate then decision\<lparr>ld_Allowed := True, ld_Code := LedgerNewFile\<rparr>
                else decision\<lparr>ld_Code := LedgerMissingTarget, ld_Detail := Some (LedgerFile FileNotExist)\<rparr>)
           | Inl e \<Rightarrow> decision\<lparr>ld_Code := LedgerRevisionUnavailable, ld_Detail := Some (LedgerFile e)\<rparr>
           | Inr revision \<Rightarrow>
               (let d = decision\<lparr>ld_CurrentRevision := revision\<rparr> in
                case rl_reads l canonical of
                  None \<Rightarrow> d\<lparr>ld_Code := LedgerReadRequired\<rparr>
                | Some recorded \<Rightarrow>
                    (if recorded \<noteq> revision then d\<lparr>ld_RecordedRevision := recorded, ld_Code := LedgerStaleRead\<rparr>
                     else d\<lparr>ld_RecordedRevision := recorded, ld_Allowed := True, ld_Code := LedgerAllowed\<rparr>))))"

definition CheckWrite :: "(string \<Rightarrow> string) \<Rightarrow> filesystem \<Rightarrow> files \<Rightarrow> read_ledger \<Rightarrow> string \<Rightarrow> ledger_decision" where
  "CheckWrite sha fs files l filePath = checkMutation sha fs files l filePath True"

definition CheckEdit :: "(string \<Rightarrow> string) \<Rightarrow> filesystem \<Rightarrow> files \<Rightarrow> read_ledger \<Rightarrow> string \<Rightarrow> ledger_decision" where
  "CheckEdit sha fs files l filePath = checkMutation sha fs files l filePath False"

section \<open>Runs\<close>

text \<open>
  The world of a run: the ledger, the files, and the file system that resolves paths. Besides the
  operations of the ledger, anybody may change files and links at any time.
\<close>

record ledger_world =
  lw_ledger :: read_ledger
  lw_files :: files
  lw_fs :: filesystem

datatype ledger_event = LRead string | LRefresh string | LForget string | LWorld filesystem files

definition ledger_event_step :: "(string \<Rightarrow> string) \<Rightarrow> ledger_world \<Rightarrow> ledger_event \<Rightarrow> ledger_world" where
  "ledger_event_step sha w ev =
     (case ev of
        LRead p \<Rightarrow> w\<lparr>lw_ledger := fst (RecordRead sha (lw_fs w) (lw_files w) p (lw_ledger w))\<rparr>
      | LRefresh p \<Rightarrow> w\<lparr>lw_ledger := fst (RefreshAfterWrite sha (lw_fs w) (lw_files w) p (lw_ledger w))\<rparr>
      | LForget p \<Rightarrow> w\<lparr>lw_ledger := fst (Forget (lw_fs w) p (lw_ledger w))\<rparr>
      | LWorld fs files \<Rightarrow> w\<lparr>lw_fs := fs, lw_files := files\<rparr>)"

text \<open>The specification: the content every file had when the run last saw it.\<close>

record seen_world =
  sw_seen :: "string \<rightharpoonup> string"
  sw_files :: files
  sw_fs :: filesystem

definition content :: "files \<Rightarrow> string \<Rightarrow> string option" where
  "content files p = (case files p of Regular data _ \<Rightarrow> Some data | _ \<Rightarrow> None)"

definition seen_step :: "read_ledger \<Rightarrow> seen_world \<Rightarrow> ledger_event \<Rightarrow> seen_world" where
  "seen_step l0 w ev =
     (let look = (\<lambda>p f. case ledger_canonicalPath (sw_fs w) l0 p of
            Inl _ \<Rightarrow> w | Inr c \<Rightarrow> w\<lparr>sw_seen := (sw_seen w)(c := f c)\<rparr>) in
      case ev of
        LRead p \<Rightarrow> look p (content (sw_files w))
      | LRefresh p \<Rightarrow> look p (content (sw_files w))
      | LForget p \<Rightarrow> look p (\<lambda>_. None)
      | LWorld fs files \<Rightarrow> w\<lparr>sw_fs := fs, sw_files := files\<rparr>)"

definition ledger_abs :: "(string \<Rightarrow> string) \<Rightarrow> read_ledger \<Rightarrow> ledger_world \<Rightarrow> seen_world \<Rightarrow> bool" where
  "ledger_abs sha l0 w s \<longleftrightarrow>
     rl_workDir (lw_ledger w) = rl_workDir l0 \<and> rl_allowExternal (lw_ledger w) = rl_allowExternal l0
     \<and> lw_files w = sw_files s \<and> lw_fs w = sw_fs s
     \<and> rl_reads (lw_ledger w) = (\<lambda>p. map_option (artifactBytesRevision sha) (sw_seen s p))"

lemma canonicalPath_cong:
  assumes "rl_workDir l = rl_workDir l'" and "rl_allowExternal l = rl_allowExternal l'"
  shows "ledger_canonicalPath fs l p = ledger_canonicalPath fs l' p"
  unfolding ledger_canonicalPath_def assms by (rule refl)

lemma revision_content:
  "readLedgerFileRevision sha files p = Inr r \<longleftrightarrow> (\<exists>data. content files p = Some data \<and> r = artifactBytesRevision sha data)"
  by (auto simp: readLedgerFileRevision_def content_def split: file_node.splits)

lemma revision_cases:
  "(case readLedgerFileRevision sha files p of Inl _ \<Rightarrow> None | Inr r \<Rightarrow> Some r) = map_option (artifactBytesRevision sha) (content files p)"
  by (simp add: readLedgerFileRevision_def content_def split: file_node.split)

lemma RecordRead_reads:
  "rl_reads (fst (RecordRead sha fs files p l)) =
     (case ledger_canonicalPath fs l p of
        Inl _ \<Rightarrow> rl_reads l
      | Inr c \<Rightarrow> (rl_reads l)(c := map_option (artifactBytesRevision sha) (content files c)))"
  by (auto simp: RecordRead_def revision_cases [symmetric] split: sum.split)

lemma RecordRead_rest [simp]:
  "rl_workDir (fst (RecordRead sha fs files p l)) = rl_workDir l"
  "rl_allowExternal (fst (RecordRead sha fs files p l)) = rl_allowExternal l"
  by (auto simp: RecordRead_def split: sum.split)

lemma Forget_fields [simp]:
  "rl_workDir (fst (Forget fs p l)) = rl_workDir l" "rl_allowExternal (fst (Forget fs p l)) = rl_allowExternal l"
  "rl_reads (fst (Forget fs p l)) =
     (case ledger_canonicalPath fs l p of Inl _ \<Rightarrow> rl_reads l | Inr c \<Rightarrow> (rl_reads l)(c := None))"
  by (auto simp: Forget_def split: sum.split)

lemma ledger_abs_step:
  assumes "ledger_abs sha l0 w s"
  shows "ledger_abs sha l0 (ledger_event_step sha w ev) (seen_step l0 s ev)"
proof -
  have c: "ledger_canonicalPath (sw_fs s) (lw_ledger w) p = ledger_canonicalPath (sw_fs s) l0 p" for p
    using assms by (intro canonicalPath_cong) (simp_all add: ledger_abs_def)
  show ?thesis
    using assms
    by (cases ev) (auto simp: ledger_abs_def ledger_event_step_def seen_step_def RefreshAfterWrite_def RecordRead_reads c
        split: sum.split)
qed

lemma ledger_abs_run:
  "ledger_abs sha l0 w s \<Longrightarrow> ledger_abs sha l0 (foldl (ledger_event_step sha) w evs) (foldl (seen_step l0) s evs)"
  by (induction evs arbitrary: w s) (auto intro: ledger_abs_step)

section \<open>The guarantee\<close>

definition ledger_start :: "filesystem \<Rightarrow> files \<Rightarrow> read_ledger \<Rightarrow> ledger_world" where
  "ledger_start fs files l = \<lparr>lw_ledger = l, lw_files = files, lw_fs = fs\<rparr>"

definition seen_start :: "filesystem \<Rightarrow> files \<Rightarrow> seen_world" where
  "seen_start fs files = \<lparr>sw_seen = Map.empty, sw_files = files, sw_fs = fs\<rparr>"

lemma checkMutation_seen:
  assumes "ledger_abs sha l0 w s"
  shows "ld_Allowed (checkMutation sha (lw_fs w) (lw_files w) (lw_ledger w) p create) \<longleftrightarrow>
      (\<exists>c. ledger_canonicalPath (lw_fs w) l0 p = Inr c
         \<and> (create \<and> lw_files w c = Absent
            \<or> (\<exists>now old. content (lw_files w) c = Some now \<and> sw_seen s c = Some old
                 \<and> artifactBytesRevision sha now = artifactBytesRevision sha old)))"
    and "ld_Code (checkMutation sha (lw_fs w) (lw_files w) (lw_ledger w) p create) = LedgerStaleRead \<longleftrightarrow>
      (\<exists>c now old. ledger_canonicalPath (lw_fs w) l0 p = Inr c \<and> content (lw_files w) c = Some now
         \<and> sw_seen s c = Some old \<and> artifactBytesRevision sha now \<noteq> artifactBytesRevision sha old)"
proof -
  have c: "ledger_canonicalPath (lw_fs w) (lw_ledger w) p = ledger_canonicalPath (lw_fs w) l0 p"
    using assms by (intro canonicalPath_cong) (simp_all add: ledger_abs_def)
  have r: "rl_reads (lw_ledger w) q = map_option (artifactBytesRevision sha) (sw_seen s q)" for q
    using assms by (simp add: ledger_abs_def)
  show "ld_Allowed (checkMutation sha (lw_fs w) (lw_files w) (lw_ledger w) p create) \<longleftrightarrow>
      (\<exists>c. ledger_canonicalPath (lw_fs w) l0 p = Inr c
         \<and> (create \<and> lw_files w c = Absent
            \<or> (\<exists>now old. content (lw_files w) c = Some now \<and> sw_seen s c = Some old
                 \<and> artifactBytesRevision sha now = artifactBytesRevision sha old)))"
    by (auto simp: checkMutation_def c r no_decision_def content_def readLedgerFileRevision_def Let_def
        split: sum.splits file_node.splits option.splits if_splits)
  show "ld_Code (checkMutation sha (lw_fs w) (lw_files w) (lw_ledger w) p create) = LedgerStaleRead \<longleftrightarrow>
      (\<exists>c now old. ledger_canonicalPath (lw_fs w) l0 p = Inr c \<and> content (lw_files w) c = Some now
         \<and> sw_seen s c = Some old \<and> artifactBytesRevision sha now \<noteq> artifactBytesRevision sha old)"
    by (auto simp: checkMutation_def c r no_decision_def content_def readLedgerFileRevision_def Let_def
        split: sum.splits file_node.splits option.splits if_splits)
qed

text \<open>
  C29. No blind writes. In every run of a ledger, with reads, refreshes after own writes,
  forgetting, and files and links changed by anybody at any time, a write or edit is allowed
  exactly if the target does not exist (and creation is allowed), or its present content has the
  revision of the content the run saw when it last read or wrote the file; and it is refused as
  stale exactly if the file was seen and its revision differs now. The ledger is thereby a
  refinement of a specification that remembers the contents themselves.
\<close>

theorem no_blind_writes:
  "let l0 = NewReadLedger fs0 workDir external;
       w = foldl (ledger_event_step sha) (ledger_start fs0 files0 l0) evs;
       s = foldl (seen_step l0) (seen_start fs0 files0) evs;
       d = checkMutation sha (lw_fs w) (lw_files w) (lw_ledger w) p create
   in (ld_Allowed d \<longleftrightarrow>
        (\<exists>c. ledger_canonicalPath (lw_fs w) l0 p = Inr c
           \<and> (create \<and> lw_files w c = Absent
              \<or> (\<exists>now old. content (lw_files w) c = Some now \<and> sw_seen s c = Some old
                   \<and> artifactBytesRevision sha now = artifactBytesRevision sha old))))
      \<and> (ld_Code d = LedgerStaleRead \<longleftrightarrow>
        (\<exists>c now old. ledger_canonicalPath (lw_fs w) l0 p = Inr c \<and> content (lw_files w) c = Some now
           \<and> sw_seen s c = Some old \<and> artifactBytesRevision sha now \<noteq> artifactBytesRevision sha old))
      \<and> rl_reads (lw_ledger w) = (\<lambda>q. map_option (artifactBytesRevision sha) (sw_seen s q))"
proof -
  let ?l0 = "NewReadLedger fs0 workDir external"
  have "ledger_abs sha ?l0 (ledger_start fs0 files0 ?l0) (seen_start fs0 files0)"
    by (simp add: ledger_abs_def ledger_start_def seen_start_def NewReadLedger_def Let_def)
  from ledger_abs_run [OF this, of evs]
  have "ledger_abs sha ?l0 (foldl (ledger_event_step sha) (ledger_start fs0 files0 ?l0) evs)
      (foldl (seen_step ?l0) (seen_start fs0 files0) evs)" .
  note checkMutation_seen [OF this, of p create] this [unfolded ledger_abs_def]
  then show ?thesis unfolding Let_def by blast
qed

end
