(* ===== verification/Edit_Policy.thy ===== *)
theory Edit_Policy
  imports Go_Prelude
begin

text \<open>
  How an Edit call changes the text of a file: \<^verbatim>\<open>applyEditPolicy\<close> of \<^verbatim>\<open>internal/agent/edit_policy.go\<close> with
  exact replacement, the unified patch parser and its application, and the white-space
  insensitive fallback of \<^verbatim>\<open>fuzzy.go\<close>. Regular expressions are arguments: the matches of a pattern in a
  text, \<^const>\<open>None\<close> for an invalid pattern, and the replacement of all matches. The numbers in error
  messages are not modelled.
\<close>

section \<open>Strings\<close>

abbreviation newline :: char where "newline \<equiv> CHR 0x0A"
abbreviation carriage_return :: char where "carriage_return \<equiv> CHR 0x0D"

fun split_char :: "char \<Rightarrow> string \<Rightarrow> string list" where
  "split_char d [] = [[]]"
| "split_char d (c # s) =
     (if c = d then [] # split_char d s
      else (case split_char d s of [] \<Rightarrow> [[c]] | w # ws \<Rightarrow> (c # w) # ws))"

text \<open>\<^verbatim>\<open>strings.ReplaceAll\<close> and \<^verbatim>\<open>strings.Count\<close> for a pattern that is not empty.\<close>

function replace_all :: "string \<Rightarrow> string \<Rightarrow> string \<Rightarrow> string" where
  "replace_all old new s =
     (if old = [] \<or> s = [] then s
      else if has_prefix s old then new @ replace_all old new (drop (length old) s)
      else hd s # replace_all old new (tl s))"
  by pat_completeness auto
termination
  by (relation "measure (\<lambda>(_, _, s). length s)") auto

declare replace_all.simps [simp del]

function count_str :: "string \<Rightarrow> string \<Rightarrow> nat" where
  "count_str old s =
     (if old = [] \<or> s = [] then 0
      else if has_prefix s old then Suc (count_str old (drop (length old) s))
      else count_str old (tl s))"
  by pat_completeness auto
termination
  by (relation "measure (\<lambda>(_, s). length s)") auto

declare count_str.simps [simp del]

text \<open>\<^verbatim>\<open>strings.Replace\<close> with a limit of one.\<close>

fun replace_first :: "string \<Rightarrow> string \<Rightarrow> string \<Rightarrow> string" where
  "replace_first old new [] = (if old = [] then new else [])"
| "replace_first old new (c # s) =
     (if has_prefix (c # s) old then new @ drop (length old) (c # s) else c # replace_first old new s)"

definition trim_newlines :: "string \<Rightarrow> string" where
  "trim_newlines s = trim_right_chars [newline] (trim_left_chars [newline] s)"

section \<open>Exact and fuzzy replacement\<close>

record edit_input =
  ei_OldString :: string
  ei_NewString :: string
  ei_ReplaceAll :: bool
  ei_Regex :: bool
  ei_Patch :: string
  ei_Content :: string

record regex_engine =
  re_Matches :: "string \<Rightarrow> string \<Rightarrow> (nat \<times> nat) list option"
  re_ReplaceAll :: "string \<Rightarrow> string \<Rightarrow> string \<Rightarrow> string"

datatype edit_error =
    RegexDisabled | InvalidRegex | RegexNotFound | OldStringEmpty | OldStringNotFound
  | PatchEmpty | PatchTooLong | PatchNul | UnexpectedPatchLine | InvalidHunkHeader | InvalidHunkRange
  | InvalidHunkBody | TooManyHunks | NoHunks | HunkOutsideSource | HunkNewRange | ContextMismatch
  | RemovalMismatch | HunkCountMismatch | PatchFailed edit_error | FallbackFailed edit_error edit_error
  | UnsupportedEditPolicy string

text \<open>The first position at which the trimmed lines match, counted from the start.\<close>

fun fuzzy_window :: "string list \<Rightarrow> string list \<Rightarrow> nat option" where
  "fuzzy_window oldTrim ls =
     (if length ls < length oldTrim then None
      else if map trim_space (take (length oldTrim) ls) = oldTrim then Some 0
      else (case ls of [] \<Rightarrow> None | _ # rest \<Rightarrow> map_option Suc (fuzzy_window oldTrim rest)))"

declare fuzzy_window.simps [simp del]

definition fuzzyReplace :: "string \<Rightarrow> string \<Rightarrow> string \<Rightarrow> string option" where
  "fuzzyReplace text old new =
     (let ls = split_char newline text; oldLines = split_char newline (trim_newlines old) in
      if oldLines = [] \<or> old = [] then None
      else case fuzzy_window (map trim_space oldLines) ls of
             None \<Rightarrow> None
           | Some start \<Rightarrow>
               Some (join [newline] (take start ls @ split_char newline new @ drop (start + length oldLines) ls)))"

definition applyStringEdit ::
    "regex_engine \<Rightarrow> string \<Rightarrow> edit_input \<Rightarrow> bool \<Rightarrow> bool \<Rightarrow> edit_error + string \<times> nat" where
  "applyStringEdit re text args allowFuzzy allowRegex =
     (if ei_Regex args then
        (if \<not> allowRegex then Inl RegexDisabled
         else case re_Matches re (ei_OldString args) text of
           None \<Rightarrow> Inl InvalidRegex
         | Some [] \<Rightarrow> Inl RegexNotFound
         | Some ((a, b) # rest) \<Rightarrow>
             (if ei_ReplaceAll args
              then Inr (re_ReplaceAll re (ei_OldString args) (ei_NewString args) text, Suc (length rest))
              else Inr (take a text @ re_ReplaceAll re (ei_OldString args) (ei_NewString args) (take (b - a) (drop a text))
                     @ drop b text, 1)))
      else if ei_OldString args = [] then Inl OldStringEmpty
      else if str_contains text (ei_OldString args) then
        (if ei_ReplaceAll args
         then Inr (replace_all (ei_OldString args) (ei_NewString args) text, count_str (ei_OldString args) text)
         else Inr (replace_first (ei_OldString args) (ei_NewString args) text, 1))
      else if allowFuzzy then
        (case fuzzyReplace text (ei_OldString args) (ei_NewString args) of
           Some r \<Rightarrow> Inr (r, 1) | None \<Rightarrow> Inl OldStringNotFound)
      else Inl OldStringNotFound)"

section \<open>Unified patches: reading\<close>

record hunk =
  hk_oldStart :: nat
  hk_oldCount :: nat
  hk_newStart :: nat
  hk_newCount :: nat
  hk_lines :: "string list"

definition maxUnifiedPatchBytes :: nat where "maxUnifiedPatchBytes = 262144"
definition maxUnifiedPatchHunks :: nat where "maxUnifiedPatchHunks = 128"

definition is_digit :: "char \<Rightarrow> bool" where
  "is_digit c \<longleftrightarrow> 48 \<le> byte c \<and> byte c \<le> 57"

text \<open>\<^verbatim>\<open>strconv.Atoi\<close> of a digit sequence, its error ignored: what does not fit is the largest integer.\<close>

definition atoi_digits :: "string \<Rightarrow> nat" where
  "atoi_digits ds = min (foldl (\<lambda>n c. 10 * n + (byte c - 48)) 0 ds) (nat max_int)"

definition expect :: "string \<Rightarrow> string \<Rightarrow> string option" where
  "expect p s = (if has_prefix s p then Some (drop (length p) s) else None)"

definition digits :: "string \<Rightarrow> (string \<times> string) option" where
  "digits s = (if takeWhile is_digit s = [] then None else Some (takeWhile is_digit s, dropWhile is_digit s))"

text \<open>A start and an optional count, which is one if it is missing.\<close>

definition hunk_range :: "string \<Rightarrow> ((nat \<times> nat) \<times> string) option" where
  "hunk_range s =
     (case digits s of None \<Rightarrow> None | Some (a, rest) \<Rightarrow>
        (case expect '','' rest of
           None \<Rightarrow> Some ((atoi_digits a, 1), rest)
         | Some rest2 \<Rightarrow>
             (case digits rest2 of None \<Rightarrow> None | Some (b, rest3) \<Rightarrow> Some ((atoi_digits a, atoi_digits b), rest3))))"

text \<open>The regular expression of a hunk header.\<close>

definition hunk_header :: "string \<Rightarrow> ((nat \<times> nat) \<times> (nat \<times> nat)) option" where
  "hunk_header line =
     (case expect ''@@ -'' line of None \<Rightarrow> None | Some s1 \<Rightarrow>
        (case hunk_range s1 of None \<Rightarrow> None | Some (old, s2) \<Rightarrow>
          (case expect '' +'' s2 of None \<Rightarrow> None | Some s3 \<Rightarrow>
            (case hunk_range s3 of None \<Rightarrow> None | Some (new, s4) \<Rightarrow>
              (case expect '' @@'' s4 of None \<Rightarrow> None | Some s5 \<Rightarrow>
                (if s5 = [] \<or> has_prefix s5 '' '' then Some (old, new) else None))))))"

definition no_newline_marker :: string where
  "no_newline_marker = CHR 0x5C # '' No newline at end of file''"

fun hunk_body :: "string list \<Rightarrow> edit_error + string list \<times> string list" where
  "hunk_body [] = Inr ([], [])"
| "hunk_body (body # rest) =
     (if has_prefix body ''@@ '' then Inr ([], body # rest)
      else if body = [] \<and> rest = [] then Inr ([], [])
      else if has_prefix body no_newline_marker then hunk_body rest
      else if body = [] \<or> hd body \<notin> set '' -+'' then Inl InvalidHunkBody
      else case hunk_body rest of Inl e \<Rightarrow> Inl e | Inr (ls, r) \<Rightarrow> Inr (body # ls, r))"

lemma hunk_body_shorter: "hunk_body ls = Inr (body, rest) \<Longrightarrow> length rest \<le> length ls"
  by (induction ls arbitrary: body rest) (fastforce split: if_splits sum.splits prod.splits)+

definition patch_preamble :: "string \<Rightarrow> bool" where
  "patch_preamble line \<longleftrightarrow>
     list_ex (has_prefix line) [''--- '', ''+++ '', ''diff '', ''index ''] \<or> line = []"

function parse_hunks :: "nat \<Rightarrow> string list \<Rightarrow> edit_error + hunk list" where
  "parse_hunks n [] = Inr []"
| "parse_hunks n (line # rest) =
     (if \<not> has_prefix line ''@@ '' then
        (if patch_preamble line then parse_hunks n rest else Inl UnexpectedPatchLine)
      else case hunk_header line of
        None \<Rightarrow> Inl InvalidHunkHeader
      | Some ((oldStart, oldCount), (newStart, newCount)) \<Rightarrow>
          (if oldStart = 0 \<and> oldCount \<noteq> 0 \<or> newStart = 0 \<and> newCount \<noteq> 0 then Inl InvalidHunkRange
           else case hunk_body rest of
             Inl e \<Rightarrow> Inl e
           | Inr (body, r) \<Rightarrow>
               (if Suc n > maxUnifiedPatchHunks then Inl TooManyHunks
                else case parse_hunks (Suc n) r of
                  Inl e \<Rightarrow> Inl e
                | Inr hs \<Rightarrow>
                    Inr (\<lparr>hk_oldStart = oldStart, hk_oldCount = oldCount, hk_newStart = newStart,
                          hk_newCount = newCount, hk_lines = body\<rparr> # hs))))"
  by pat_completeness auto
termination
  by (relation "measure (\<lambda>(_, ls). length ls)") (auto dest: hunk_body_shorter)

definition parse_patch :: "string \<Rightarrow> edit_error + hunk list" where
  "parse_patch patch =
     (if blank patch then Inl PatchEmpty
      else if length patch > maxUnifiedPatchBytes then Inl PatchTooLong
      else if CHR 0x00 \<in> set patch then Inl PatchNul
      else let unix = replace_all [carriage_return] [newline] (replace_all [carriage_return, newline] [newline] patch) in
        case parse_hunks 0 (split_char newline unix) of
          Inl e \<Rightarrow> Inl e
        | Inr hs \<Rightarrow> if hs = [] then Inl NoHunks else Inr hs)"

section \<open>Unified patches: applying\<close>

record patch_state =
  pt_index :: nat
  pt_output :: "string list"
  pt_consumed :: nat
  pt_produced :: nat
  pt_changes :: nat

definition apply_line :: "string list \<Rightarrow> patch_state \<Rightarrow> string \<Rightarrow> edit_error + patch_state" where
  "apply_line source st line =
     (let value = tl line in
      if hd line = CHR '' '' then
        (if pt_index st \<ge> length source \<or> source ! pt_index st \<noteq> value then Inl ContextMismatch
         else Inr (st\<lparr>pt_output := pt_output st @ [value], pt_index := Suc (pt_index st),
                pt_consumed := Suc (pt_consumed st), pt_produced := Suc (pt_produced st)\<rparr>))
      else if hd line = CHR ''-'' then
        (if pt_index st \<ge> length source \<or> source ! pt_index st \<noteq> value then Inl RemovalMismatch
         else Inr (st\<lparr>pt_index := Suc (pt_index st), pt_consumed := Suc (pt_consumed st),
                pt_changes := Suc (pt_changes st)\<rparr>))
      else Inr (st\<lparr>pt_output := pt_output st @ [value], pt_produced := Suc (pt_produced st),
             pt_changes := Suc (pt_changes st)\<rparr>))"

fun apply_lines :: "string list \<Rightarrow> patch_state \<Rightarrow> string list \<Rightarrow> edit_error + patch_state" where
  "apply_lines source st [] = Inr st"
| "apply_lines source st (line # rest) =
     (case apply_line source st line of Inl e \<Rightarrow> Inl e | Inr st' \<Rightarrow> apply_lines source st' rest)"

definition start_index :: "nat \<Rightarrow> nat" where
  "start_index start = (if start = 0 then 0 else start - 1)"

definition apply_hunk :: "string list \<Rightarrow> patch_state \<Rightarrow> hunk \<Rightarrow> edit_error + patch_state" where
  "apply_hunk source st h =
     (let target = start_index (hk_oldStart h) in
      if target < pt_index st \<or> target > length source then Inl HunkOutsideSource
      else let out = pt_output st @ take (target - pt_index st) (drop (pt_index st) source) in
        if start_index (hk_newStart h) \<noteq> length out then Inl HunkNewRange
        else case apply_lines source (st\<lparr>pt_output := out, pt_index := target, pt_consumed := 0, pt_produced := 0\<rparr>) (hk_lines h) of
               Inl e \<Rightarrow> Inl e
             | Inr st' \<Rightarrow>
                 (if pt_consumed st' \<noteq> hk_oldCount h \<or> pt_produced st' \<noteq> hk_newCount h then Inl HunkCountMismatch
                  else Inr st'))"

fun apply_hunks_from :: "string list \<Rightarrow> patch_state \<Rightarrow> hunk list \<Rightarrow> edit_error + patch_state" where
  "apply_hunks_from source st [] = Inr st"
| "apply_hunks_from source st (h # hs) =
     (case apply_hunk source st h of Inl e \<Rightarrow> Inl e | Inr st' \<Rightarrow> apply_hunks_from source st' hs)"

definition patch_start :: patch_state where
  "patch_start = \<lparr>pt_index = 0, pt_output = [], pt_consumed = 0, pt_produced = 0, pt_changes = 0\<rparr>"

definition apply_hunks :: "string list \<Rightarrow> hunk list \<Rightarrow> edit_error + string list \<times> nat" where
  "apply_hunks source hunks =
     (case apply_hunks_from source patch_start hunks of
        Inl e \<Rightarrow> Inl e
      | Inr st \<Rightarrow> Inr (pt_output st @ drop (pt_index st) source, pt_changes st))"

definition applyUnifiedPatch :: "string \<Rightarrow> string \<Rightarrow> edit_error + string \<times> nat" where
  "applyUnifiedPatch text patch =
     (case parse_patch patch of
        Inl e \<Rightarrow> Inl e
      | Inr hunks \<Rightarrow>
          (let lineEnding = (if str_contains text [carriage_return, newline] then [carriage_return, newline] else [newline]);
               finalNewline = has_suffix text [newline];
               normalized = replace_all [carriage_return, newline] [newline] text;
               source = (if text = [] then [] else split_char newline (trim_suffix normalized [newline]))
           in case apply_hunks source hunks of
                Inl e \<Rightarrow> Inl e
              | Inr (out, changes) \<Rightarrow>
                  Inr (join lineEnding out @ (if finalNewline then lineEnding else []), changes)))"

section \<open>Policies\<close>

definition normalizeEditPolicy :: "string \<Rightarrow> string" where
  "normalizeEditPolicy policy = (if policy = [] then ''corelay-waterfall'' else policy)"

definition applyEditPolicy :: "regex_engine \<Rightarrow> string \<Rightarrow> edit_input \<Rightarrow> string \<Rightarrow> edit_error + string \<times> nat" where
  "applyEditPolicy re text args policy0 =
     (let policy = normalizeEditPolicy policy0 in
      if policy = ''whole-file'' then Inr (ei_Content args, 1)
      else if policy = ''patch-first'' then
        (case applyUnifiedPatch text (ei_Patch args) of
           Inr r \<Rightarrow> Inr r
         | Inl e \<Rightarrow>
             (if ei_OldString args = [] then Inl (PatchFailed e)
              else case applyStringEdit re text args True False of
                     Inl e2 \<Rightarrow> Inl (FallbackFailed e e2) | Inr r \<Rightarrow> Inr r))
      else if policy = ''exact'' then
        (if ei_Regex args then Inl RegexDisabled else applyStringEdit re text args False False)
      else if policy = ''corelay-waterfall'' then applyStringEdit re text args True True
      else Inl (UnsupportedEditPolicy policy))"

end
