(* ===== verification/Edit_Laws.thy ===== *)
theory Edit_Laws
  imports Edit_Policy
begin

text \<open>
  What an edit does to a text: a unified patch that applies can be taken back by the reversed
  patch, an exact edit changes one occurrence, or all of them, and nothing else, and a fuzzy edit
  replaces a window of lines.
\<close>

section \<open>Reversing a patch\<close>

definition reverse_line :: "string \<Rightarrow> string" where
  "reverse_line line =
     (if hd line = CHR '' '' then line
      else if hd line = CHR ''-'' then CHR ''+'' # tl line else CHR ''-'' # tl line)"

definition reverse_hunk :: "hunk \<Rightarrow> hunk" where
  "reverse_hunk h = \<lparr>hk_oldStart = hk_newStart h, hk_oldCount = hk_newCount h, hk_newStart = hk_oldStart h,
     hk_newCount = hk_oldCount h, hk_lines = map reverse_line (hk_lines h)\<rparr>"

text \<open>
  The state of the reversed run that corresponds to a state of the forward run: it has read what
  the forward run has written and has written what the forward run has read.
\<close>

definition mirror :: "string list \<Rightarrow> patch_state \<Rightarrow> patch_state" where
  "mirror source st = \<lparr>pt_index = length (pt_output st), pt_output = take (pt_index st) source,
     pt_consumed = pt_produced st, pt_produced = pt_consumed st, pt_changes = pt_changes st\<rparr>"

lemma apply_line_output: "apply_line source st line = Inr st' \<Longrightarrow> \<exists>rest2. pt_output st' = pt_output st @ rest2"
  by (auto simp: apply_line_def Let_def split: if_splits)

lemma apply_line_index:
  "apply_line source st line = Inr st' \<Longrightarrow> pt_index st \<le> length source \<Longrightarrow> pt_index st' \<le> length source"
  by (auto simp: apply_line_def Let_def split: if_splits)

lemma prefix_nth: "final = out @ v # rest2 \<Longrightarrow> length out < length final \<and> final ! length out = v"
  by simp

lemma apply_line_mirror:
  assumes "apply_line source st line = Inr st'" and "final = pt_output st' @ rest2"
  shows "apply_line final (mirror source st) (reverse_line line) = Inr (mirror source st')"
proof -
  consider "hd line = CHR '' ''" | "hd line = CHR ''-''" | "hd line \<noteq> CHR '' ''" "hd line \<noteq> CHR ''-''" by blast
  then show ?thesis
  proof cases
    case 1
    with assms(1) have s: "pt_index st < length source" "source ! pt_index st = tl line"
        "st' = st\<lparr>pt_output := pt_output st @ [tl line], pt_index := Suc (pt_index st),
           pt_consumed := Suc (pt_consumed st), pt_produced := Suc (pt_produced st)\<rparr>"
      by (auto simp: apply_line_def Let_def split: if_splits)
    with assms(2) have "length (pt_output st) < length final" "final ! length (pt_output st) = tl line" by simp_all
    with 1 s show ?thesis
      by (simp add: apply_line_def Let_def reverse_line_def mirror_def take_Suc_conv_app_nth)
  next
    case 2
    with assms(1) have s: "pt_index st < length source" "source ! pt_index st = tl line"
        "st' = st\<lparr>pt_index := Suc (pt_index st), pt_consumed := Suc (pt_consumed st), pt_changes := Suc (pt_changes st)\<rparr>"
      by (auto simp: apply_line_def Let_def split: if_splits)
    with 2 show ?thesis
      by (simp add: apply_line_def Let_def reverse_line_def mirror_def take_Suc_conv_app_nth)
  next
    case 3
    with assms(1) have s: "st' = st\<lparr>pt_output := pt_output st @ [tl line], pt_produced := Suc (pt_produced st),
        pt_changes := Suc (pt_changes st)\<rparr>"
      by (auto simp: apply_line_def Let_def)
    with assms(2) have "length (pt_output st) < length final" "final ! length (pt_output st) = tl line" by simp_all
    with 3 s show ?thesis by (simp add: apply_line_def Let_def reverse_line_def mirror_def)
  qed
qed

lemma apply_lines_output: "apply_lines source st ls = Inr st' \<Longrightarrow> \<exists>rest2. pt_output st' = pt_output st @ rest2"
proof (induction ls arbitrary: st)
  case (Cons l ls)
  then obtain st1 where s: "apply_line source st l = Inr st1" "apply_lines source st1 ls = Inr st'"
    by (auto split: sum.splits)
  from apply_line_output [OF s(1)] Cons.IH [OF s(2)] show ?case by auto
qed auto

lemma apply_lines_index:
  "apply_lines source st ls = Inr st' \<Longrightarrow> pt_index st \<le> length source \<Longrightarrow> pt_index st' \<le> length source"
  by (induction ls arbitrary: st) (auto split: sum.splits dest: apply_line_index)

lemma apply_lines_mirror:
  "apply_lines source st ls = Inr st' \<Longrightarrow> final = pt_output st' @ rest2
     \<Longrightarrow> apply_lines final (mirror source st) (map reverse_line ls) = Inr (mirror source st')"
proof (induction ls arbitrary: st)
  case (Cons l ls)
  then obtain st1 where s: "apply_line source st l = Inr st1" "apply_lines source st1 ls = Inr st'"
    by (auto split: sum.splits)
  from apply_lines_output [OF s(2)] obtain out where "pt_output st' = pt_output st1 @ out" by blast
  with Cons.prems(2) have "final = pt_output st1 @ (out @ rest2)" by simp
  from apply_line_mirror [OF s(1) this] Cons.IH [OF s(2) Cons.prems(2)] show ?case by simp
qed simp

lemma apply_hunkE:
  assumes "apply_hunk source st h = Inr st'"
  obtains out where "pt_index st \<le> start_index (hk_oldStart h)" "start_index (hk_oldStart h) \<le> length source"
    "out = pt_output st @ take (start_index (hk_oldStart h) - pt_index st) (drop (pt_index st) source)"
    "start_index (hk_newStart h) = length out"
    "apply_lines source (st\<lparr>pt_output := out, pt_index := start_index (hk_oldStart h), pt_consumed := 0, pt_produced := 0\<rparr>)
       (hk_lines h) = Inr st'"
    "pt_consumed st' = hk_oldCount h" "pt_produced st' = hk_newCount h"
  using assms by (auto simp: apply_hunk_def Let_def split: if_splits sum.splits)

lemma apply_hunk_output: "apply_hunk source st h = Inr st' \<Longrightarrow> \<exists>rest2. pt_output st' = pt_output st @ rest2"
  by (erule apply_hunkE, drule apply_lines_output) auto

lemma apply_hunk_index: "apply_hunk source st h = Inr st' \<Longrightarrow> pt_index st' \<le> length source"
  by (erule apply_hunkE, drule apply_lines_index) auto

lemma apply_hunk_mirror:
  assumes "apply_hunk source st h = Inr st'" and "final = pt_output st' @ rest2"
  shows "apply_hunk final (mirror source st) (reverse_hunk h) = Inr (mirror source st')"
  using assms(1)
proof (rule apply_hunkE)
  let ?t = "start_index (hk_oldStart h)" and ?i = "pt_index st"
  fix out
  assume t: "?i \<le> ?t" "?t \<le> length source" and out: "out = pt_output st @ take (?t - ?i) (drop ?i source)"
    and new: "start_index (hk_newStart h) = length out"
    and ls: "apply_lines source (st\<lparr>pt_output := out, pt_index := ?t, pt_consumed := 0, pt_produced := 0\<rparr>) (hk_lines h) = Inr st'"
    and counts: "pt_consumed st' = hk_oldCount h" "pt_produced st' = hk_newCount h"
  let ?st1 = "st\<lparr>pt_output := out, pt_index := ?t, pt_consumed := 0, pt_produced := 0\<rparr>"
  from apply_lines_output [OF ls] obtain tail where tail: "pt_output st' = out @ tail" by auto
  with assms(2) have final: "final = out @ (tail @ rest2)" by simp
  have copied: "take (length out - length (pt_output st)) (drop (length (pt_output st)) final) = take (?t - ?i) (drop ?i source)"
    unfolding final out using t by (simp add: min_absorb2)
  have "take ?i source @ take (?t - ?i) (drop ?i source) = take ?t source"
    using t by (simp add: take_add [symmetric])
  with copied new t have mirrored: "(mirror source st)\<lparr>
        pt_output := pt_output (mirror source st) @ take (start_index (hk_oldStart (reverse_hunk h)) - pt_index (mirror source st))
          (drop (pt_index (mirror source st)) final),
        pt_index := start_index (hk_oldStart (reverse_hunk h)), pt_consumed := 0, pt_produced := 0\<rparr> = mirror source ?st1"
    by (simp add: mirror_def reverse_hunk_def)
  from apply_lines_mirror [OF ls assms(2)]
  have "apply_lines final (mirror source ?st1) (hk_lines (reverse_hunk h)) = Inr (mirror source st')"
    by (simp add: reverse_hunk_def)
  moreover have "length out \<le> length final" "length (pt_output st) \<le> length out" by (simp_all add: final out)
  moreover have "length (take ?i source @ take (?t - ?i) (drop ?i source)) = ?t" using t by simp
  ultimately show ?thesis
    using new t counts copied unfolding apply_hunk_def Let_def mirrored [unfolded Let_def]
    by (simp add: mirror_def reverse_hunk_def)
qed

lemma apply_hunks_from_output:
  "apply_hunks_from source st hs = Inr st' \<Longrightarrow> \<exists>rest2. pt_output st' = pt_output st @ rest2"
proof (induction hs arbitrary: st)
  case (Cons h hs)
  then obtain st1 where s: "apply_hunk source st h = Inr st1" "apply_hunks_from source st1 hs = Inr st'"
    by (auto split: sum.splits)
  from apply_hunk_output [OF s(1)] Cons.IH [OF s(2)] show ?case by auto
qed auto

lemma apply_hunks_from_index:
  "apply_hunks_from source st hs = Inr st' \<Longrightarrow> pt_index st \<le> length source \<Longrightarrow> pt_index st' \<le> length source"
  by (induction hs arbitrary: st) (auto split: sum.splits dest: apply_hunk_index)

lemma apply_hunks_from_mirror:
  "apply_hunks_from source st hs = Inr st' \<Longrightarrow> final = pt_output st' @ rest2
     \<Longrightarrow> apply_hunks_from final (mirror source st) (map reverse_hunk hs) = Inr (mirror source st')"
proof (induction hs arbitrary: st)
  case (Cons h hs)
  then obtain st1 where s: "apply_hunk source st h = Inr st1" "apply_hunks_from source st1 hs = Inr st'"
    by (auto split: sum.splits)
  from apply_hunks_from_output [OF s(2)] obtain out where "pt_output st' = pt_output st1 @ out" by blast
  with Cons.prems(2) have "final = pt_output st1 @ (out @ rest2)" by simp
  from apply_hunk_mirror [OF s(1) this] Cons.IH [OF s(2) Cons.prems(2)] show ?case by simp
qed simp

lemma apply_hunks_reverse:
  assumes "apply_hunks source hs = Inr (out, n)"
  shows "apply_hunks out (map reverse_hunk hs) = Inr (source, n)"
proof -
  obtain st where s: "apply_hunks_from source patch_start hs = Inr st"
      "out = pt_output st @ drop (pt_index st) source" "n = pt_changes st"
    using assms by (auto simp: apply_hunks_def split: sum.splits)
  have "mirror source patch_start = patch_start" by (simp add: mirror_def patch_start_def)
  with apply_hunks_from_mirror [OF s(1,2)]
  have "apply_hunks_from out patch_start (map reverse_hunk hs) = Inr (mirror source st)" by simp
  moreover have "pt_index st \<le> length source"
    using apply_hunks_from_index [OF s(1)] by (simp add: patch_start_def)
  ultimately show ?thesis using s by (simp add: apply_hunks_def mirror_def)
qed

section \<open>Lines\<close>

lemma split_char_nonempty [simp]: "split_char d s \<noteq> []"
  by (induction s) (auto split: list.splits)

lemma split_char_no_sep: "w \<in> set (split_char d s) \<Longrightarrow> d \<notin> set w"
  by (induction s arbitrary: w) (auto split: list.splits if_splits)

lemma split_char_subset: "w \<in> set (split_char d s) \<Longrightarrow> set w \<subseteq> set s"
proof (induction s arbitrary: w)
  case (Cons c s)
  obtain v vs where v: "split_char d s = v # vs" by (cases "split_char d s") auto
  have "set v \<subseteq> set s" "\<And>u. u \<in> set vs \<Longrightarrow> set u \<subseteq> set s" using Cons.IH v by auto
  with Cons.prems v show ?case by (auto split: if_splits)
qed simp

lemma join_split_char [simp]: "join [d] (split_char d s) = s"
proof (induction s)
  case (Cons c s)
  obtain v vs where v: "split_char d s = v # vs" by (cases "split_char d s") auto
  have c: "join [d] ((c # v) # vs) = c # join [d] (v # vs)" by (cases vs) simp_all
  show ?case using Cons v c by (cases "c = d") simp_all
qed simp

lemma split_char_word: "d \<notin> set w \<Longrightarrow> split_char d w = [w]"
  by (induction w) auto

lemma split_char_append: "d \<notin> set w \<Longrightarrow> split_char d (w @ d # s) = w # split_char d s"
  by (induction w) auto

lemma split_char_join: "ws \<noteq> [] \<Longrightarrow> list_all (\<lambda>w. d \<notin> set w) ws \<Longrightarrow> split_char d (join [d] ws) = ws"
  by (induction ws rule: induct_list012) (simp_all add: split_char_word split_char_append)

lemma replace_all_absent: "\<not> str_contains s old \<Longrightarrow> replace_all old new s = s"
proof (induction s)
  case Nil
  then show ?case by (simp add: replace_all.simps)
next
  case (Cons c s)
  then show ?case by (subst replace_all.simps) auto
qed

lemma has_suffix_newline: "has_suffix (s @ [newline]) [newline]"
  by (auto simp: has_suffix_iff)

lemma trim_suffix_snoc: "trim_suffix (s @ [newline]) [newline] = s"
  by (simp add: trim_suffix_def has_suffix_newline)

lemma no_crlf: "carriage_return \<notin> set s \<Longrightarrow> \<not> str_contains s [carriage_return, newline]"
  by (auto simp: str_contains_iff)

text \<open>The lines of a text with plain line ends, and the text of its lines.\<close>

definition text_lines :: "string \<Rightarrow> string list" where
  "text_lines s = (if s = [] then [] else split_char newline (trim_suffix s [newline]))"

definition lines_text :: "bool \<Rightarrow> string list \<Rightarrow> string" where
  "lines_text final ls = join [newline] ls @ (if final then [newline] else [])"

lemma lines_text_lines: "lines_text (has_suffix s [newline]) (text_lines s) = s"
proof (cases "has_suffix s [newline]")
  case True
  then obtain t where "s = t @ [newline]" by (auto simp: has_suffix_iff)
  then show ?thesis by (simp add: lines_text_def text_lines_def trim_suffix_snoc has_suffix_newline)
next
  case False
  then show ?thesis by (simp add: lines_text_def text_lines_def trim_suffix_def)
qed

lemma text_lines_no_newline: "list_all (\<lambda>w. newline \<notin> set w) (text_lines s)"
  by (auto simp: text_lines_def list_all_iff dest: split_char_no_sep)

lemma text_lines_text:
  assumes "list_all (\<lambda>w. newline \<notin> set w) ls" and "ls \<noteq> []"
    and "final = has_suffix (lines_text final ls) [newline]" and "lines_text final ls \<noteq> []"
  shows "text_lines (lines_text final ls) = ls"
proof (cases final)
  case True
  then show ?thesis using assms by (simp add: text_lines_def lines_text_def trim_suffix_snoc split_char_join)
next
  case False
  with assms show ?thesis by (simp add: text_lines_def lines_text_def trim_suffix_def split_char_join)
qed

lemma applyUnifiedPatch_unix:
  assumes "carriage_return \<notin> set s" and "parse_patch p = Inr hs"
  shows "applyUnifiedPatch s p =
    (case apply_hunks (text_lines s) hs of
       Inl e \<Rightarrow> Inl e | Inr (out, n) \<Rightarrow> Inr (lines_text (has_suffix s [newline]) out, n))"
  using assms(2) no_crlf [OF assms(1)]
  by (cases "s = []") (simp_all add: applyUnifiedPatch_def replace_all_absent text_lines_def lines_text_def Let_def split: sum.split)

lemma hunk_body_subset: "hunk_body ls = Inr (body, rest) \<Longrightarrow> set body \<subseteq> set ls \<and> set rest \<subseteq> set ls"
  by (induction ls arbitrary: body rest) (fastforce split: if_splits sum.splits prod.splits)+

lemma parse_hunks_subset: "parse_hunks n ls = Inr hs \<Longrightarrow> h \<in> set hs \<Longrightarrow> set (hk_lines h) \<subseteq> set ls"
proof (induction n ls arbitrary: hs rule: parse_hunks.induct)
  case (2 n line rest)
  show ?case
  proof (cases "has_prefix line ''@@ ''")
    case False
    with 2 show ?thesis by (auto split: if_splits)
  next
    case True
    with "2.prems"(1) obtain os oc ns nc body r hs' where
      p: "hunk_header line = Some ((os, oc), (ns, nc))" "\<not> (os = 0 \<and> oc \<noteq> 0 \<or> ns = 0 \<and> nc \<noteq> 0)"
        "hunk_body rest = Inr (body, r)" "\<not> Suc n > maxUnifiedPatchHunks" "parse_hunks (Suc n) r = Inr hs'"
        "hs = \<lparr>hk_oldStart = os, hk_oldCount = oc, hk_newStart = ns, hk_newCount = nc, hk_lines = body\<rparr> # hs'"
      by (auto split: option.splits if_splits sum.splits)
    have "set (hk_lines h) \<subseteq> set r" if "h \<in> set hs'"
      using "2.IH"(2) [OF _ p(1) refl refl refl p(2) p(3) refl p(4) p(5) that] True by simp
    with p "2.prems"(2) hunk_body_subset [OF p(3)] show ?thesis by auto
  qed
qed simp

lemma parse_patch_lines:
  assumes "parse_patch p = Inr hs" and "h \<in> set hs" and "l \<in> set (hk_lines h)"
  shows "newline \<notin> set l"
proof -
  obtain unix where "parse_hunks 0 (split_char newline unix) = Inr hs"
    using assms(1) by (auto simp: parse_patch_def Let_def split: if_splits sum.splits)
  with parse_hunks_subset [OF this assms(2)] assms(3) split_char_no_sep show ?thesis by blast
qed

lemma apply_line_all:
  "apply_line source st line = Inr st' \<Longrightarrow> P (tl line) \<Longrightarrow> list_all P (pt_output st) \<Longrightarrow> list_all P (pt_output st')"
  by (auto simp: apply_line_def Let_def split: if_splits)

lemma apply_lines_all:
  "apply_lines source st ls = Inr st' \<Longrightarrow> list_all (\<lambda>l. P (tl l)) ls \<Longrightarrow> list_all P (pt_output st)
     \<Longrightarrow> list_all P (pt_output st')"
  by (induction ls arbitrary: st) (auto split: sum.splits dest: apply_line_all)

lemma apply_hunk_all:
  assumes "apply_hunk source st h = Inr st'" and "list_all (\<lambda>l. P (tl l)) (hk_lines h)" and "list_all P source"
    and "list_all P (pt_output st)"
  shows "list_all P (pt_output st')"
  using assms(1)
proof (rule apply_hunkE)
  fix out
  assume "out = pt_output st @ take (start_index (hk_oldStart h) - pt_index st) (drop (pt_index st) source)"
    and ls: "apply_lines source (st\<lparr>pt_output := out, pt_index := start_index (hk_oldStart h), pt_consumed := 0,
       pt_produced := 0\<rparr>) (hk_lines h) = Inr st'"
  then have "list_all P out" using assms(3,4) by (auto simp: list_all_iff dest: in_set_takeD in_set_dropD)
  with apply_lines_all [OF ls assms(2)] show ?thesis by simp
qed

lemma apply_hunks_all:
  assumes "apply_hunks source hs = Inr (out, n)" and "list_all (\<lambda>h. list_all (\<lambda>l. P (tl l)) (hk_lines h)) hs"
    and "list_all P source"
  shows "list_all P out"
proof -
  have "list_all P (pt_output st')" if "apply_hunks_from source st hs = Inr st'" "list_all P (pt_output st)" for st st'
    using that assms(2) by (induction hs arbitrary: st) (auto split: sum.splits dest: apply_hunk_all [OF _ _ assms(3)])
  moreover have "list_all P (drop k source)" for k
    using assms(3) unfolding list_all_iff by (blast dest: in_set_dropD)
  ultimately show ?thesis
    using assms(1) by (auto simp: apply_hunks_def patch_start_def split: sum.splits)
qed

text \<open>
  C28. An edit by patch can be taken back: if a patch applies to a file, then the reversed patch,
  the one whose hunks have old and new exchanged, applies to the result, gives back the file byte
  for byte and reports the same number of changes. This is stated for files with plain line ends,
  and for results that end in a newline exactly if the file did and are not empty; the
  observations below show what happens to other files.
\<close>

theorem patch_taken_back:
  assumes "parse_patch patch = Inr hunks" and "parse_patch back = Inr (map reverse_hunk hunks)"
    and "applyUnifiedPatch text patch = Inr (result, changes)"
    and "carriage_return \<notin> set text" and "carriage_return \<notin> set result"
    and "has_suffix result [newline] = has_suffix text [newline]" and "result \<noteq> []" and "result \<noteq> [newline]"
  shows "applyUnifiedPatch result back = Inr (text, changes)"
proof -
  let ?final = "has_suffix text [newline]"
  obtain out where a: "apply_hunks (text_lines text) hunks = Inr (out, changes)" and r: "result = lines_text ?final out"
    using assms(3) unfolding applyUnifiedPatch_unix [OF assms(4,1)] by (auto split: sum.splits)
  have "list_all (\<lambda>h. list_all (\<lambda>l. newline \<notin> set (tl l)) (hk_lines h)) hunks"
    using parse_patch_lines [OF assms(1)] unfolding list_all_iff by (metis list.sel(2) list.set_sel(2))
  then have plain: "list_all (\<lambda>w. newline \<notin> set w) out"
    by (rule apply_hunks_all [OF a _ text_lines_no_newline])
  have "out \<noteq> []" using r assms(7,8) by (auto simp: lines_text_def split: if_splits)
  then have "text_lines result = out"
    using plain assms(6,7) unfolding r by (intro text_lines_text) simp_all
  then show ?thesis
    unfolding applyUnifiedPatch_unix [OF assms(5,2)] assms(6)
    by (simp add: apply_hunks_reverse [OF a] lines_text_lines)
qed

definition sample_patch :: string where
  "sample_patch = join [newline] [''--- a/f'', ''+++ b/f'', ''@@ -1,3 +1,3 @@'', '' one'', ''-two'', ''+2'', '' three'', []]"

definition sample_back :: string where
  "sample_back = join [newline] [''@@ -1,3 +1,3 @@'', '' one'', ''+two'', ''-2'', '' three'']"

theorem patch_taken_back_witness:
  "applyUnifiedPatch (join [newline] [''one'', ''2'', ''three'', []]) sample_back
     = Inr (join [newline] [''one'', ''two'', ''three'', []], 2)"
proof -
  let ?h = "\<lparr>hk_oldStart = 1, hk_oldCount = 3, hk_newStart = 1, hk_newCount = 3,
      hk_lines = ['' one'', ''-two'', ''+2'', '' three'']\<rparr>"
  have "parse_patch sample_patch = Inr [?h]" "parse_patch sample_back = Inr (map reverse_hunk [?h])"
    "applyUnifiedPatch (join [newline] [''one'', ''two'', ''three'', []]) sample_patch
       = Inr (join [newline] [''one'', ''2'', ''three'', []], 2)"
    "carriage_return \<notin> set (join [newline] [''one'', ''two'', ''three'', []])"
    "carriage_return \<notin> set (join [newline] [''one'', ''2'', ''three'', []])"
    "has_suffix (join [newline] [''one'', ''2'', ''three'', []]) [newline]
       = has_suffix (join [newline] [''one'', ''two'', ''three'', []]) [newline]"
    "join [newline] [''one'', ''2'', ''three'', []] \<noteq> []" "join [newline] [''one'', ''2'', ''three'', []] \<noteq> [newline]"
    by code_simp+
  then show ?thesis by (rule patch_taken_back)
qed

section \<open>Exact replacement\<close>

text \<open>Exactly the first occurrence is replaced.\<close>

lemma replace_first_occurrence:
  assumes "str_contains s old"
  shows "\<exists>a b. s = a @ old @ b \<and> replace_first old new s = a @ new @ b
    \<and> (\<forall>k < length a. \<not> has_prefix (drop k s) old)"
  using assms
proof (induction s)
  case Nil
  then show ?case by auto
next
  case (Cons c s)
  show ?case
  proof (cases "has_prefix (c # s) old")
    case True
    then obtain b where b: "c # s = old @ b" by (auto simp: has_prefix_iff)
    moreover have "replace_first old new (c # s) = new @ b"
      using True arg_cong [OF b, of "drop (length old)"] by simp
    ultimately show ?thesis by (intro exI [of _ "[]"] exI [of _ b]) simp
  next
    case False
    with Cons obtain a b where ab: "s = a @ old @ b" "replace_first old new s = a @ new @ b"
        "\<forall>k < length a. \<not> has_prefix (drop k s) old" by auto
    have "\<not> has_prefix (drop k (c # s)) old" if "k < length (c # a)" for k
      using that ab(3) False by (cases k) simp_all
    with ab False show ?thesis by (intro exI [of _ "c # a"] exI [of _ b]) simp
  qed
qed

text \<open>Replacing all occurrences by the text itself changes nothing, and the length changes by the count.\<close>

lemma length_replace_all:
  "old \<noteq> [] \<Longrightarrow> length (replace_all old new s) + count_str old s * length old = length s + count_str old s * length new"
proof (induction old new s rule: replace_all.induct)
  case (1 old new s)
  show ?case
  proof (cases "s = []")
    case True
    then show ?thesis by (simp add: replace_all.simps count_str.simps)
  next
    case False
    show ?thesis
    proof (cases "has_prefix s old")
      case True
      then have "length (drop (length old) s) + length old = length s" by (auto simp: has_prefix_iff)
      with 1 False True show ?thesis
        by (simp add: replace_all.simps [of old new s] count_str.simps [of old s] algebra_simps)
    next
      case no: False
      from False obtain c t where "s = c # t" by (cases s) auto
      with 1 no show ?thesis
        by (simp add: replace_all.simps [of old new "c # t"] count_str.simps [of old "c # t"])
    qed
  qed
qed

lemma replace_all_self: "replace_all old old s = s"
proof (induction "length s" arbitrary: s rule: less_induct)
  case less
  show ?case
  proof (cases "old = [] \<or> s = []")
    case True
    then show ?thesis by (auto simp: replace_all.simps)
  next
    case False
    then have rec: "replace_all old old t = t" if "length t < length s" for t using less that by blast
    show ?thesis
    proof (cases "has_prefix s old")
      case True
      then obtain b where "s = old @ b" by (auto simp: has_prefix_iff)
      with False rec [of b] show ?thesis by (simp add: replace_all.simps [of old old "old @ b"])
    next
      case no: False
      from False obtain c t where "s = c # t" by (cases s) auto
      with False no rec [of t] show ?thesis by (simp add: replace_all.simps [of old old "c # t"])
    qed
  qed
qed

section \<open>Observations\<close>

text \<open>
  A hunk without context that only inserts or only deletes, as a diff with no context lines has
  it, names the line before the change; it is refused as inconsistent.
\<close>

lemma contextless_hunks_refused:
  "applyUnifiedPatch (join [newline] [''a'', ''b'', []]) (join [newline] [''@@ -1,0 +2 @@'', ''+x'']) = Inl HunkNewRange
   \<and> applyUnifiedPatch (join [newline] [''a'', ''b'', []]) (join [newline] [''@@ -2 +1,0 @@'', ''-b'']) = Inl HunkNewRange"
  by code_simp

text \<open>In a file with mixed line ends, the lines a patch does not touch get new line ends as well.\<close>

lemma patch_rewrites_line_ends:
  "applyUnifiedPatch (''a'' @ [carriage_return, newline] @ ''b'' @ [newline] @ ''c'' @ [newline])
      (join [newline] [''@@ -3 +3 @@'', ''-c'', ''+d''])
     = Inr (''a'' @ [carriage_return, newline] @ ''b'' @ [carriage_return, newline] @ ''d'' @ [carriage_return, newline], 2)"
  by code_simp

text \<open>A text of newlines alone, if it is not in the file, is taken for the first blank line.\<close>

lemma blank_lines_match_anything_blank:
  "fuzzyReplace (join [newline] [''a'', ''  '', ''b'']) [newline, newline, newline] ''x'' = Some (join [newline] [''a'', ''x'', ''b''])"
  by code_simp

end
