(* ===== verification/File_Mutation.thy ===== *)
theory File_Mutation
  imports Read_Ledger Edit_Laws
begin

text \<open>
  Applying a Write or Edit: the one-shot preconditions of \<^verbatim>\<open>internal/agent/file_mutation.go\<close> that bind a
  dispatcher's decision to one execution, the staged commit, and the executors
  \<^verbatim>\<open>executeWriteV2WithOptions\<close> and \<^verbatim>\<open>executeEditV2WithOptions\<close> of \<^verbatim>\<open>tools_improved.go\<close>. The outcomes of
  operating-system calls, the linter, the clock, the random token and the digests are arguments;
  the JSON envelope is the pair of token and input it carries, and is decoded to what was encoded.
  Directories and temporary files are not part of the file map. One execution is one function:
  what others do to the files happens before or after it.
\<close>

section \<open>Preconditions\<close>

record precondition =
  pf_Token :: string
  pf_ToolName :: string
  pf_CanonicalPath :: string
  pf_ExpectedRevision :: string
  pf_ExpectAbsent :: bool
  pf_InputDigest :: string
  pf_ExpiresAt :: gotime

record envelope =
  en_Token :: string
  en_Input :: string

datatype mutation_error =
    DecisionNotExecutable | DecisionCodeNotExecutable ledger_code | NotAMutationTool string | EditNeedsExisting
  | RevisionUnavailable | TokenFailed | TokenCollision | EnvelopeIncomplete | UnknownPrecondition
  | PreconditionExpired | PreconditionNotBound | MutationPath path_error | OtherTool | TargetMoved | DirectoryMoved
  | TargetCreated | TargetInspect file_error | TargetChanged | UnexpectedExisting | PublishFailed

definition fileMutationProofTTL :: goduration where
  "fileMutationProofTTL = nanosecond_per_minute"

definition cleanupExpiredFileMutationPreconditions :: "gotime \<Rightarrow> (string \<rightharpoonup> precondition) \<Rightarrow> (string \<rightharpoonup> precondition)" where
  "cleanupExpiredFileMutationPreconditions now pending =
     (\<lambda>t. case pending t of Some pr \<Rightarrow> if now < pf_ExpiresAt pr then Some pr else None | None \<Rightarrow> None)"

definition bindFileMutationExecutionInput ::
    "(string \<Rightarrow> string \<Rightarrow> string) \<Rightarrow> gotime \<Rightarrow> string option \<Rightarrow> string \<Rightarrow> string \<Rightarrow> ledger_decision \<Rightarrow>
     (string \<rightharpoonup> precondition) \<Rightarrow> (string \<rightharpoonup> precondition) \<times> (mutation_error + envelope)" where
  "bindFileMutationExecutionInput inputDigest now random input toolName d pending =
     (let expectAbsent = ld_Code d = LedgerNewFile in
      if \<not> ld_Allowed d \<or> blank (ld_Path d) then (pending, Inl DecisionNotExecutable)
      else if ld_Code d \<noteq> LedgerAllowed \<and> \<not> expectAbsent then (pending, Inl (DecisionCodeNotExecutable (ld_Code d)))
      else if toolName \<noteq> ''Write'' \<and> toolName \<noteq> ''Edit'' then (pending, Inl (NotAMutationTool toolName))
      else if toolName = ''Edit'' \<and> expectAbsent then (pending, Inl EditNeedsExisting)
      else if \<not> expectAbsent \<and> blank (ld_CurrentRevision d) then (pending, Inl RevisionUnavailable)
      else case random of
        None \<Rightarrow> (pending, Inl TokenFailed)
      | Some token \<Rightarrow>
          (let kept = cleanupExpiredFileMutationPreconditions now pending;
               pr = \<lparr>pf_Token = token, pf_ToolName = toolName, pf_CanonicalPath = Clean (ld_Path d),
                 pf_ExpectedRevision = ld_CurrentRevision d, pf_ExpectAbsent = expectAbsent,
                 pf_InputDigest = inputDigest toolName input, pf_ExpiresAt = now + fileMutationProofTTL\<rparr>
           in if kept token \<noteq> None then (kept, Inl TokenCollision)
              else (kept(token \<mapsto> pr), Inr \<lparr>en_Token = token, en_Input = input\<rparr>)))"

definition unwrapFileMutationExecutionInput ::
    "(string \<Rightarrow> string \<Rightarrow> string) \<Rightarrow> gotime \<Rightarrow> envelope \<Rightarrow> string \<Rightarrow> (string \<rightharpoonup> precondition) \<Rightarrow>
     (string \<rightharpoonup> precondition) \<times> (mutation_error + string \<times> precondition)" where
  "unwrapFileMutationExecutionInput inputDigest now e toolName pending =
     (if blank (en_Token e) \<or> en_Input e = [] then (pending, Inl EnvelopeIncomplete)
      else case pending (en_Token e) of
        None \<Rightarrow> (pending, Inl UnknownPrecondition)
      | Some pr \<Rightarrow>
          (let rest = pending(en_Token e := None) in
           if \<not> now < pf_ExpiresAt pr then (rest, Inl PreconditionExpired)
           else if pf_Token pr \<noteq> en_Token e \<or> pf_ToolName pr \<noteq> toolName
                \<or> pf_InputDigest pr \<noteq> inputDigest toolName (en_Input e) then (rest, Inl PreconditionNotBound)
           else (rest, Inr (en_Input e, pr))))"

definition discardFileMutationPrecondition :: "string \<Rightarrow> (string \<rightharpoonup> precondition) \<Rightarrow> (string \<rightharpoonup> precondition)" where
  "discardFileMutationPrecondition token pending = (if \<not> blank token then pending(token := None) else pending)"

section \<open>Checks and commits\<close>

definition sameArtifactMutationPath :: "string \<Rightarrow> string \<Rightarrow> bool" where
  "sameArtifactMutationPath left right \<longleftrightarrow> Clean left = Clean right"

definition mutationExecutionPath ::
    "filesystem \<Rightarrow> (string \<Rightarrow> bool) \<Rightarrow> string \<Rightarrow> string \<Rightarrow> string \<Rightarrow> precondition option \<Rightarrow> snapshot option \<Rightarrow>
     mutation_error + string" where
  "mutationExecutionPath fs goodPattern rawPath workDir toolName pr policy =
     (case executionToolWorkspacePathsWithPolicy fs goodPattern toolName
         (ObjectText [(''file_path'', JStr (json_string rawPath))] Closed) workDir policy of
        Inl e \<Rightarrow> Inl (MutationPath e)
      | Inr paths \<Rightarrow>
          (let absolute = paths_one paths ''file_path'' in
           case pr of
             None \<Rightarrow> Inr absolute
           | Some proof \<Rightarrow>
               (if pf_ToolName proof \<noteq> toolName then Inl OtherTool
                else if \<not> sameArtifactMutationPath absolute (pf_CanonicalPath proof) then Inl TargetMoved
                else Inr (Clean (pf_CanonicalPath proof)))))"

definition validateExpectedArtifactState ::
    "(string \<Rightarrow> string) \<Rightarrow> files \<Rightarrow> string \<Rightarrow> string \<Rightarrow> bool \<Rightarrow> mutation_error + unit" where
  "validateExpectedArtifactState sha files p expected expectAbsent =
     (if expectAbsent then (if files p = Absent then Inr () else Inl TargetCreated)
      else case readLedgerFileRevision sha files p of
             Inl e \<Rightarrow> Inl (TargetInspect e)
           | Inr current \<Rightarrow> if current \<noteq> expected then Inl TargetChanged else Inr ())"

definition validateArtifactPrecondition ::
    "(string \<Rightarrow> string) \<Rightarrow> files \<Rightarrow> string \<Rightarrow> precondition option \<Rightarrow> mutation_error + unit" where
  "validateArtifactPrecondition sha files p pr =
     (case pr of None \<Rightarrow> Inr ()
      | Some proof \<Rightarrow> validateExpectedArtifactState sha files p (pf_ExpectedRevision proof) (pf_ExpectAbsent proof))"

definition validateArtifactBytesPrecondition ::
    "(string \<Rightarrow> string) \<Rightarrow> string \<Rightarrow> precondition option \<Rightarrow> mutation_error + unit" where
  "validateArtifactBytesPrecondition sha data pr =
     (case pr of None \<Rightarrow> Inr ()
      | Some proof \<Rightarrow>
          (if pf_ExpectAbsent proof then Inl UnexpectedExisting
           else if artifactBytesRevision sha data \<noteq> pf_ExpectedRevision proof then Inl TargetChanged
           else Inr ()))"

record staged =
  sg_target :: string
  sg_data :: string
  sg_mode :: nat

definition default_mode :: nat where "default_mode = 420"

definition stageArtifact :: "bool \<Rightarrow> string \<Rightarrow> string \<Rightarrow> nat \<Rightarrow> staged option" where
  "stageArtifact ok target data mode =
     (if \<not> ok then None
      else Some \<lparr>sg_target = target, sg_data = data, sg_mode = (if mode = 0 then default_mode else mode)\<rparr>)"

definition commit_staged ::
    "(string \<Rightarrow> string) \<Rightarrow> bool \<Rightarrow> staged \<Rightarrow> string \<Rightarrow> bool \<Rightarrow> files \<Rightarrow> mutation_error + files" where
  "commit_staged sha published s expected expectAbsent files =
     (case validateExpectedArtifactState sha files (sg_target s) expected expectAbsent of
        Inl e \<Rightarrow> Inl e
      | Inr _ \<Rightarrow>
          (if \<not> published then Inl PublishFailed
           else Inr (files(sg_target s := Regular (sg_data s) (sg_mode s)))))"

section \<open>The executors\<close>

datatype lint_failure = LintNone | LintSyntax | LintSandbox | LintRevisionMismatch | LintArtifact

record lint_result =
  lr_Checked :: bool
  lr_Valid :: bool
  lr_Failure :: lint_failure

definition failedInfrastructure :: "lint_result \<Rightarrow> bool" where
  "failedInfrastructure r \<longleftrightarrow> lr_Failure r \<in> {LintSandbox, LintRevisionMismatch, LintArtifact}"

text \<open>
  The answers of the operating system and the linter during one execution. A directory that was
  made comes with the file system in which the target is looked up again afterwards.
\<close>

record execution_env =
  xe_mkdir :: "filesystem option"
  xe_stage :: bool
  xe_publish :: bool
  xe_lint :: "string \<Rightarrow> string \<Rightarrow> lint_result"

datatype exec_result =
    Applied bool
  | MutationBlocked mutation_error
  | MkdirFailed | ReadFailed | NotARegularFile | BaselineLintFailed | EditRejected edit_error | StageFailed
  | LintRejected | ConcurrentChange

definition exec_failed :: "exec_result \<Rightarrow> bool" where
  "exec_failed r = (case r of Applied _ \<Rightarrow> False | _ \<Rightarrow> True)"

text \<open>
  What both executors do once they know the path, the old content if there is one, its mode and
  the new content: stage it, lint it, check the precondition again, commit, and check the result.
\<close>

definition stage_and_commit ::
    "(string \<Rightarrow> string) \<Rightarrow> execution_env \<Rightarrow> precondition option \<Rightarrow> string \<Rightarrow> string option \<Rightarrow> nat \<Rightarrow> bool \<Rightarrow> string \<Rightarrow>
     files \<Rightarrow> files \<times> exec_result" where
  "stage_and_commit sha xe pr p old mode preLintOK data files =
     (let baseline = (case old of None \<Rightarrow> [] | Some b \<Rightarrow> artifactBytesRevision sha b) in
      case stageArtifact (xe_stage xe) p data mode of
        None \<Rightarrow> (files, StageFailed)
      | Some s \<Rightarrow>
          (if preLintOK \<and> \<not> lr_Valid (xe_lint xe p data) then
             (case validateExpectedArtifactState sha files p baseline (old = None) of
                Inl _ \<Rightarrow> (files, ConcurrentChange) | Inr _ \<Rightarrow> (files, LintRejected))
           else case validateArtifactPrecondition sha files p pr of
             Inl e \<Rightarrow> (files, MutationBlocked e)
           | Inr _ \<Rightarrow>
               (case commit_staged sha (xe_publish xe) s baseline (old = None) files of
                  Inl e \<Rightarrow> (files, MutationBlocked e)
                | Inr files' \<Rightarrow>
                    (if readLedgerFileRevision sha files' p \<noteq> Inr (artifactBytesRevision sha data) then (files', ConcurrentChange)
                     else (files', Applied (old \<noteq> None))))))"

text \<open>The second look at the target, after its directory was made.\<close>

definition recheck_target ::
    "filesystem \<Rightarrow> (string \<Rightarrow> bool) \<Rightarrow> string \<Rightarrow> string \<Rightarrow> precondition option \<Rightarrow> snapshot option \<Rightarrow> string \<Rightarrow>
     mutation_error option" where
  "recheck_target fs goodPattern filePath workDir pr policy p =
     (if pr = None then None
      else case mutationExecutionPath fs goodPattern filePath workDir ''Write'' pr policy of
             Inl e \<Rightarrow> Some e
           | Inr canonical \<Rightarrow> if \<not> sameArtifactMutationPath canonical p then Some DirectoryMoved else None)"

definition executeWrite ::
    "(string \<Rightarrow> string) \<Rightarrow> filesystem \<Rightarrow> (string \<Rightarrow> bool) \<Rightarrow> execution_env \<Rightarrow> string \<Rightarrow> snapshot option \<Rightarrow>
     precondition option \<Rightarrow> string \<Rightarrow> string \<Rightarrow> files \<Rightarrow> files \<times> exec_result" where
  "executeWrite sha fs goodPattern xe workDir policy pr filePath data files =
     (case mutationExecutionPath fs goodPattern filePath workDir ''Write'' pr policy of
        Inl e \<Rightarrow> (files, MutationBlocked e)
      | Inr p \<Rightarrow>
          (case xe_mkdir xe of None \<Rightarrow> (files, MkdirFailed) | Some fs' \<Rightarrow>
           case recheck_target fs' goodPattern filePath workDir pr policy p of Some e \<Rightarrow> (files, MutationBlocked e) | None \<Rightarrow>
           case files p of
             Regular old mode \<Rightarrow>
               (case validateArtifactBytesPrecondition sha old pr of
                  Inl e \<Rightarrow> (files, MutationBlocked e)
                | Inr _ \<Rightarrow>
                    (let base = xe_lint xe p old in
                     if failedInfrastructure base then (files, BaselineLintFailed)
                     else stage_and_commit sha xe pr p (Some old) mode (lr_Valid base \<or> \<not> lr_Checked base) data files))
           | Absent \<Rightarrow>
               (case validateArtifactPrecondition sha files p pr of
                  Inl e \<Rightarrow> (files, MutationBlocked e)
                | Inr _ \<Rightarrow> stage_and_commit sha xe pr p None default_mode True data files)
           | _ \<Rightarrow> (files, ReadFailed)))"

definition executeEdit ::
    "(string \<Rightarrow> string) \<Rightarrow> filesystem \<Rightarrow> (string \<Rightarrow> bool) \<Rightarrow> execution_env \<Rightarrow> regex_engine \<Rightarrow> string \<Rightarrow> snapshot option \<Rightarrow>
     precondition option \<Rightarrow> string \<Rightarrow> edit_input \<Rightarrow> string \<Rightarrow> files \<Rightarrow> files \<times> exec_result" where
  "executeEdit sha fs goodPattern xe re workDir policy pr filePath args editPolicy files =
     (case mutationExecutionPath fs goodPattern filePath workDir ''Edit'' pr policy of
        Inl e \<Rightarrow> (files, MutationBlocked e)
      | Inr p \<Rightarrow>
          (case files p of
             Regular old mode \<Rightarrow>
               (case validateArtifactBytesPrecondition sha old pr of
                  Inl e \<Rightarrow> (files, MutationBlocked e)
                | Inr _ \<Rightarrow>
                    (case applyEditPolicy re old args editPolicy of
                       Inl e \<Rightarrow> (files, EditRejected e)
                     | Inr (data, _) \<Rightarrow>
                         (let base = xe_lint xe p old in
                          if failedInfrastructure base then (files, BaselineLintFailed)
                          else stage_and_commit sha xe pr p (Some old) mode (lr_Valid base \<or> \<not> lr_Checked base) data files)))
           | _ \<Rightarrow> (files, ReadFailed)))"

section \<open>What an execution does\<close>

lemma stage_and_commit_cases:
  assumes "stage_and_commit sha xe pr p old mode lint data files = (files', r)"
  shows "(if exec_failed r then files' = files
     else files' = files(p := Regular data (if mode = 0 then default_mode else mode))
        \<and> validateArtifactPrecondition sha files p pr = Inr ()
        \<and> validateExpectedArtifactState sha files p
             (case old of None \<Rightarrow> [] | Some b \<Rightarrow> artifactBytesRevision sha b) (old = None) = Inr ())"
  using assms
  by (auto simp: stage_and_commit_def Let_def stageArtifact_def commit_staged_def exec_failed_def readLedgerFileRevision_def
      split: if_splits option.splits sum.splits)

lemma executeWrite_cases:
  assumes "executeWrite sha fs gp xe wd policy pr filePath data files = (files', r)"
  shows "if exec_failed r then files' = files
    else \<exists>p mode. mutationExecutionPath fs gp filePath wd ''Write'' pr policy = Inr p
      \<and> files' = files(p := Regular data mode) \<and> mode \<noteq> 0
      \<and> validateArtifactPrecondition sha files p pr = Inr ()"
proof (cases "mutationExecutionPath fs gp filePath wd ''Write'' pr policy")
  case (Inl e)
  with assms show ?thesis by (auto simp: executeWrite_def exec_failed_def)
next
  case (Inr p)
  consider "files' = files" "exec_failed r"
    | old mode lint where "stage_and_commit sha xe pr p old mode lint data files = (files', r)"
    using assms Inr
    by (auto simp: executeWrite_def exec_failed_def Let_def split: if_splits option.splits file_node.splits sum.splits)
  then show ?thesis
  proof cases
    case 2
    from stage_and_commit_cases [OF this] Inr show ?thesis
      by (auto simp: default_mode_def intro!: exI [of _ "if mode = 0 then default_mode else mode"] split: if_splits)
  qed simp
qed

lemma executeEdit_cases:
  assumes "executeEdit sha fs gp xe re wd policy pr filePath args ep files = (files', r)"
  shows "if exec_failed r then files' = files
    else \<exists>p mode old data n oldMode. mutationExecutionPath fs gp filePath wd ''Edit'' pr policy = Inr p
      \<and> files p = Regular old oldMode \<and> applyEditPolicy re old args ep = Inr (data, n)
      \<and> files' = files(p := Regular data mode) \<and> mode \<noteq> 0
      \<and> validateArtifactPrecondition sha files p pr = Inr ()"
proof (cases "mutationExecutionPath fs gp filePath wd ''Edit'' pr policy")
  case (Inl e)
  with assms show ?thesis by (auto simp: executeEdit_def exec_failed_def)
next
  case (Inr p)
  consider "files' = files" "exec_failed r"
    | old oldMode data n lint where "files p = Regular old oldMode" "applyEditPolicy re old args ep = Inr (data, n)"
        "stage_and_commit sha xe pr p (Some old) oldMode lint data files = (files', r)"
    using assms Inr
    by (auto simp: executeEdit_def exec_failed_def Let_def split: if_splits file_node.splits sum.splits)
  then show ?thesis
  proof cases
    case 2
    from stage_and_commit_cases [OF 2(3)] 2(1,2) Inr show ?thesis
      by (auto simp: default_mode_def intro!: exI [of _ "if oldMode = 0 then default_mode else oldMode"] split: if_splits)
  qed simp
qed

end
