(* ===== verification/Run_Guard.thy ===== *)
theory Run_Guard
  imports Interfaces
begin

text \<open>
  The repetition guard of \<^verbatim>\<open>internal/agent/run_guard.go\<close>: it counts equivalent
  tool attempts of one run and denies an action once its budget is used up. Actions are
  identified by a fingerprint. JSON canonicalisation (decoding and encoding by
  \<^verbatim>\<open>encoding/json\<close>) and the SHA-256 digest of the encoded payload are
  arguments of the model, gathered in \<^verbatim>\<open>digests\<close>; the theorems hold for
  every choice of them. Counts of the source are non-negative and are natural numbers here.
\<close>

record action_input =
  ai_ToolName :: string
  ai_Arguments :: string
  ai_TargetRevision :: string
  ai_FailureCode :: string
  ai_PlanStep :: string

text \<open>
  \<^verbatim>\<open>dg_canon\<close> is the re-encoding of a text that is exactly one JSON value and
  \<^const>\<open>None\<close> for any other text; \<^verbatim>\<open>dg_payload\<close> is the hex digest of
  the JSON encoding of the payload, \<^verbatim>\<open>dg_text\<close> the hex digest of a text.
\<close>

record digests =
  dg_canon :: "string \<Rightarrow> string option"
  dg_payload :: "action_input \<Rightarrow> string"
  dg_text :: "string \<Rightarrow> string"

definition DefaultRunGuardRepeatLimit :: int where
  "DefaultRunGuardRepeatLimit = 3"

record guard_decision =
  gd_Allowed :: bool
  gd_Fingerprint :: string
  gd_Occurrences :: nat
  gd_Limit :: int
  gd_Reason :: string

record run_guard =
  rg_repeatLimit :: int
  rg_seen :: "string \<Rightarrow> nat"
  rg_successfulResults :: "string \<rightharpoonup> string"
  rg_observations :: nat
  rg_denied :: nat
  rg_lastDenied :: guard_decision

record guard_snapshot =
  gs_RepeatLimit :: int
  gs_Observations :: nat
  gs_Denied :: nat
  gs_LastDeniedReason :: string
  gs_LastDeniedFingerprint :: string
  gs_LastDeniedOccurrences :: nat

definition zero_decision :: guard_decision where
  "zero_decision = \<lparr>gd_Allowed = False, gd_Fingerprint = [], gd_Occurrences = 0, gd_Limit = 0, gd_Reason = []\<rparr>"

definition NewRunGuard :: "int \<Rightarrow> run_guard" where
  "NewRunGuard limit = \<lparr>rg_repeatLimit = (if limit \<le> 0 then DefaultRunGuardRepeatLimit else limit),
     rg_seen = (\<lambda>_. 0), rg_successfulResults = Map.empty, rg_observations = 0, rg_denied = 0,
     rg_lastDenied = zero_decision\<rparr>"

definition canonicalFingerprintArguments :: "digests \<Rightarrow> string \<Rightarrow> string" where
  "canonicalFingerprintArguments dg args =
     (let trimmed = trim_space args in
      if trimmed = [] then ''valid:{}''
      else (case dg_canon dg trimmed of
              None \<Rightarrow> ''invalid:'' @ trimmed
            | Some canonical \<Rightarrow> ''valid:'' @ canonical))"

definition CanonicalActionFingerprint :: "digests \<Rightarrow> action_input \<Rightarrow> string" where
  "CanonicalActionFingerprint dg i =
     dg_payload dg (i\<lparr>ai_Arguments := canonicalFingerprintArguments dg (ai_Arguments i)\<rparr>)"

definition Observe :: "digests \<Rightarrow> action_input \<Rightarrow> run_guard \<Rightarrow> run_guard \<times> guard_decision" where
  "Observe dg i g =
     (let fp = CanonicalActionFingerprint dg i;
          occ = Suc (rg_seen g fp);
          allowed = (int occ \<le> rg_repeatLimit g);
          dec = \<lparr>gd_Allowed = allowed, gd_Fingerprint = fp, gd_Occurrences = occ,
            gd_Limit = rg_repeatLimit g,
            gd_Reason = (if allowed then ''within_limit'' else ''repeated_action'')\<rparr>;
          g' = g\<lparr>rg_seen := (rg_seen g)(fp := occ), rg_observations := Suc (rg_observations g)\<rparr>
      in (if allowed then g' else g'\<lparr>rg_denied := Suc (rg_denied g), rg_lastDenied := dec\<rparr>, dec))"

definition Snapshot :: "run_guard \<Rightarrow> guard_snapshot" where
  "Snapshot g = \<lparr>gs_RepeatLimit = rg_repeatLimit g, gs_Observations = rg_observations g,
     gs_Denied = rg_denied g, gs_LastDeniedReason = gd_Reason (rg_lastDenied g),
     gs_LastDeniedFingerprint = gd_Fingerprint (rg_lastDenied g),
     gs_LastDeniedOccurrences = gd_Occurrences (rg_lastDenied g)\<rparr>"

definition Reset :: "run_guard \<Rightarrow> run_guard" where
  "Reset g = g\<lparr>rg_seen := (\<lambda>_. 0), rg_successfulResults := Map.empty\<rparr>"

definition ObserveResult :: "digests \<Rightarrow> action_input \<Rightarrow> string \<Rightarrow> bool \<Rightarrow> run_guard \<Rightarrow> run_guard \<times> bool" where
  "ObserveResult dg i result isError g =
     (if isError then (g, False)
      else
        let fp = CanonicalActionFingerprint dg i; d = dg_text dg result in
        if rg_successfulResults g fp = Some d then (g, False)
        else (g\<lparr>rg_successfulResults := (rg_successfulResults g)(fp \<mapsto> d), rg_seen := (\<lambda>_. 0)\<rparr>, True))"

section \<open>The guard as a machine\<close>

datatype guard_event = GObserve action_input | GResult action_input string bool | GReset

fun guard_step :: "digests \<Rightarrow> run_guard \<Rightarrow> guard_event \<Rightarrow> run_guard" where
  "guard_step dg g (GObserve i) = fst (Observe dg i g)"
| "guard_step dg g (GResult i res err) = fst (ObserveResult dg i res err g)"
| "guard_step dg g GReset = Reset g"

text \<open>An agent loop that repeats one attempt with one outcome.\<close>

fun repeat_attempt :: "digests \<Rightarrow> action_input \<Rightarrow> string \<Rightarrow> bool \<Rightarrow> nat \<Rightarrow> run_guard \<Rightarrow> run_guard" where
  "repeat_attempt dg i res err 0 g = g"
| "repeat_attempt dg i res err (Suc n) g =
     repeat_attempt dg i res err n (fst (ObserveResult dg i res err (fst (Observe dg i g))))"

definition guard_inv :: "run_guard \<Rightarrow> bool" where
  "guard_inv g \<longleftrightarrow> 0 < rg_repeatLimit g \<and> rg_denied g \<le> rg_observations g
     \<and> (0 < rg_denied g \<longleftrightarrow> gd_Reason (rg_lastDenied g) = ''repeated_action'')
     \<and> (0 < rg_denied g \<longrightarrow> rg_repeatLimit g < int (gd_Occurrences (rg_lastDenied g)))"

lemma NewRunGuard_inv: "guard_inv (NewRunGuard limit)"
  by (simp add: guard_inv_def NewRunGuard_def DefaultRunGuardRepeatLimit_def zero_decision_def)

lemma guard_step_inv: "guard_inv g \<Longrightarrow> guard_inv (guard_step dg g ev)"
  by (cases ev) (auto simp: guard_inv_def Observe_def ObserveResult_def Reset_def Let_def)

interpretation guard: invariant_machine "guard_step dg" guard_inv
  for dg by unfold_locales (rule guard_step_inv)

lemma Observe_allowed:
  "gd_Allowed (snd (Observe dg i g)) \<longleftrightarrow>
     int (Suc (rg_seen g (CanonicalActionFingerprint dg i))) \<le> rg_repeatLimit g"
  by (simp add: Observe_def Let_def)

lemma Observe_sel [simp]:
  "rg_seen (fst (Observe dg i g)) = (rg_seen g)(CanonicalActionFingerprint dg i :=
     Suc (rg_seen g (CanonicalActionFingerprint dg i)))"
  "rg_repeatLimit (fst (Observe dg i g)) = rg_repeatLimit g"
  "rg_successfulResults (fst (Observe dg i g)) = rg_successfulResults g"
  by (simp_all add: Observe_def Let_def)

lemma repeat_no_progress:
  assumes "err \<or> rg_successfulResults g (CanonicalActionFingerprint dg i) = Some (dg_text dg res)"
  shows "rg_seen (repeat_attempt dg i res err n g) (CanonicalActionFingerprint dg i)
      = n + rg_seen g (CanonicalActionFingerprint dg i)
    \<and> rg_repeatLimit (repeat_attempt dg i res err n g) = rg_repeatLimit g"
  using assms
proof (induction n arbitrary: g)
  case (Suc n)
  then have "fst (ObserveResult dg i res err (fst (Observe dg i g))) = fst (Observe dg i g)"
    by (auto simp: ObserveResult_def Let_def)
  with Suc.IH [of "fst (Observe dg i g)"] Suc.prems show ?case by simp
qed simp

lemma first_success:
  assumes "\<not> err" and "rg_successfulResults g (CanonicalActionFingerprint dg i) \<noteq> Some (dg_text dg res)"
  defines "g1 \<equiv> fst (ObserveResult dg i res err (fst (Observe dg i g)))"
  shows "rg_seen g1 = (\<lambda>_. 0)" "rg_repeatLimit g1 = rg_repeatLimit g"
    "rg_successfulResults g1 (CanonicalActionFingerprint dg i) = Some (dg_text dg res)"
  using assms by (auto simp: ObserveResult_def Let_def)

section \<open>Properties\<close>

text \<open>
  C12. The repetition budget is exact and cannot be renewed by replaying success: if the
  agent repeats the same attempt with the same outcome, then after a failing attempt has
  run limit times from a fresh guard, the next one is denied and all earlier ones were
  allowed; a repeated success is progress once, so it is allowed limit + 1 times, and
  then denied.
\<close>

theorem repeat_budget_exact:
  fixes limit :: nat
  assumes "0 < limit"
  shows "gd_Allowed (snd (Observe dg i (repeat_attempt dg i res err n (NewRunGuard (int limit)))))
    \<longleftrightarrow> n < (if err then limit else Suc limit)"
proof -
  let ?fp = "CanonicalActionFingerprint dg i"
  let ?g = "NewRunGuard (int limit)"
  have g: "rg_seen ?g ?fp = 0" "rg_repeatLimit ?g = int limit" "rg_successfulResults ?g ?fp = None"
    using assms(1) by (simp_all add: NewRunGuard_def)
  show ?thesis
  proof (cases "err \<or> n = 0")
    case True
    then show ?thesis
      using repeat_no_progress [of err ?g dg i res n] g assms(1)
      by (cases "n = 0") (auto simp: Observe_allowed)
  next
    case False
    then obtain m where n: "n = Suc m" by (cases n) auto
    let ?g1 = "fst (ObserveResult dg i res err (fst (Observe dg i ?g)))"
    have "rg_seen ?g1 ?fp = 0" "rg_repeatLimit ?g1 = int limit"
      "rg_successfulResults ?g1 ?fp = Some (dg_text dg res)"
      using False g first_success [of err ?g dg i res] by simp_all
    then show ?thesis
      using False repeat_no_progress [of err ?g1 dg i res m]
      by (simp add: n Observe_allowed) linarith
  qed
qed

definition sample_digests :: digests where
  "sample_digests = \<lparr>dg_canon = Some, dg_payload = ai_ToolName, dg_text = id\<rparr>"

definition sample_action :: action_input where
  "sample_action = \<lparr>ai_ToolName = ''Bash'', ai_Arguments = ''{}'', ai_TargetRevision = [],
     ai_FailureCode = [], ai_PlanStep = []\<rparr>"

theorem repeat_budget_exact_witness:
  "gd_Allowed (snd (Observe sample_digests sample_action
      (repeat_attempt sample_digests sample_action ''ok'' False 3 (NewRunGuard 3))))
    \<and> \<not> gd_Allowed (snd (Observe sample_digests sample_action
      (repeat_attempt sample_digests sample_action ''ok'' False 4 (NewRunGuard 3))))"
  using repeat_budget_exact [of 3 sample_digests sample_action "''ok''" False 3]
    repeat_budget_exact [of 3 sample_digests sample_action "''ok''" False 4]
  by simp

text \<open>
  The audit trail survives resets: in any run of a guard, the number of denials never
  exceeds the number of observations, and the snapshot reports a denied repetition, with an
  occurrence count above the limit, exactly if some observation of the run was denied.
\<close>

theorem guard_audit_survives_reset:
  "gs_Denied (Snapshot (foldl (guard_step dg) (NewRunGuard limit) evs))
     \<le> gs_Observations (Snapshot (foldl (guard_step dg) (NewRunGuard limit) evs))
   \<and> (gs_LastDeniedReason (Snapshot (foldl (guard_step dg) (NewRunGuard limit) evs)) = ''repeated_action''
      \<longleftrightarrow> 0 < tally (guard_step dg)
            (\<lambda>g ev. \<exists>i. ev = GObserve i \<and> \<not> gd_Allowed (snd (Observe dg i g))) (NewRunGuard limit) evs)"
proof -
  let ?P = "\<lambda>g ev. \<exists>i. ev = GObserve i \<and> \<not> gd_Allowed (snd (Observe dg i g))"
  have count: "rg_denied (foldl (guard_step dg) g evs) = rg_denied g + tally (guard_step dg) ?P g evs" for g
  proof (induction evs arbitrary: g)
    case (Cons ev evs)
    have "rg_denied (guard_step dg g ev) = rg_denied g + (if ?P g ev then 1 else 0)"
      by (cases ev) (auto simp: Observe_def ObserveResult_def Reset_def Let_def)
    with Cons show ?case by simp
  qed simp
  have "guard_inv (foldl (guard_step dg) (NewRunGuard limit) evs)"
    by (rule guard.inv_run [OF NewRunGuard_inv])
  moreover have "rg_denied (NewRunGuard limit) = 0"
    by (simp add: NewRunGuard_def)
  ultimately show ?thesis
    using count [of "NewRunGuard limit"] by (simp add: guard_inv_def Snapshot_def)
qed

end
