(* ===== verification/Tool_Execution.thy ===== *)
theory Tool_Execution
  imports File_Mutation Run_Guard
begin

text \<open>
  One authorised Write or Edit call, from the dispatcher to the executor and back:
  \<^verbatim>\<open>executePreparedToolCall\<close>, \<^verbatim>\<open>checkDispatchRuntimePolicy\<close> and \<^verbatim>\<open>updateDispatchReadLedger\<close> of
  \<^verbatim>\<open>internal/agent/tool_dispatch.go\<close>, the part of \<^verbatim>\<open>ExecuteToolWithOptions\<close> (\<^verbatim>\<open>tools.go\<close>) these two tools pass,
  and the storing of a result by the loop. The call composes the read ledger, the repetition guard,
  the one-shot preconditions and the executors. Built-in file tools carry no host, plugin or
  full-mode proof. The run has a ledger and a guard, as the loop always gives it.
\<close>

section \<open>Options, answers and the state of a run\<close>

record dispatch_options =
  do_sha :: "string \<Rightarrow> string"
  do_inputDigest :: "string \<Rightarrow> string \<Rightarrow> string"
  do_digests :: digests
  do_decode :: "string \<Rightarrow> json_text"
  do_fs :: filesystem
  do_goodPattern :: "string \<Rightarrow> bool"
  do_regex :: regex_engine
  do_workDir :: string
  do_policy :: "snapshot option"
  do_editPolicy :: string
  do_readBeforeWrite :: bool
  do_planStep :: string
  do_render :: "exec_result \<Rightarrow> string"

text \<open>The answers of everything outside during one call.\<close>

record call_env =
  ce_live :: "bool \<times> bool"
  ce_identity :: "bool \<times> bool \<times> bool"
  ce_before :: bool
  ce_bindTime :: gotime
  ce_random :: "string option"
  ce_journal :: bool
  ce_execTime :: gotime
  ce_owned :: bool
  ce_exec :: execution_env
  ce_stored :: bool

record dispatch_world =
  dw_files :: files
  dw_ledger :: read_ledger
  dw_guard :: run_guard
  dw_pending :: "string \<rightharpoonup> precondition"

record prepared_call =
  pc_index :: nat
  pc_tool :: string
  pc_input :: string

datatype call_denial =
    ReadRequiredDenial | StaleReadDenial | MissingTargetDenial | LedgerDetailDenial ledger_error | LedgerUnsafeDenial
  | RepeatedActionDenial int | ContextCanceled | IdentityFailed | CheckpointFailed | BindingFailed mutation_error
  | JournalFailed | OtherTargetDenial | BatchAborted

section \<open>Around the execution\<close>

definition file_path_of :: "(string \<rightharpoonup> json) \<Rightarrow> string \<Rightarrow> string" where
  "file_path_of object key =
     (case object key of
        Some raw \<Rightarrow> (case store_value json_to_string raw [] of Some p \<Rightarrow> trim_space p | None \<Rightarrow> [])
      | None \<Rightarrow> [])"

text \<open>The first of the two names that holds a string that is not blank.\<close>

definition dispatchFilePath :: "json_text \<Rightarrow> string" where
  "dispatchFilePath input =
     (case input of
        ObjectText members Closed \<Rightarrow>
          (let object = map_of (rev members) in
           if file_path_of object ''file_path'' \<noteq> [] then file_path_of object ''file_path'' else file_path_of object ''path'')
      | _ \<Rightarrow> [])"

definition call_path :: "dispatch_options \<Rightarrow> prepared_call \<Rightarrow> string" where
  "call_path opt c = dispatchFilePath (do_decode opt (pc_input c))"

definition isFileMutationTool :: "string \<Rightarrow> bool" where
  "isFileMutationTool name \<longleftrightarrow> name = ''Write'' \<or> name = ''Edit''"

definition ledger_code_text :: "ledger_code \<Rightarrow> string" where
  "ledger_code_text c =
     (case c of LedgerAllowed \<Rightarrow> ''allowed'' | LedgerNewFile \<Rightarrow> ''new_file'' | LedgerReadRequired \<Rightarrow> ''read_required''
      | LedgerStaleRead \<Rightarrow> ''stale_read'' | LedgerMissingTarget \<Rightarrow> ''missing_target''
      | LedgerRevisionUnavailable \<Rightarrow> ''revision_unavailable'')"

definition readLedgerDenialReason :: "ledger_decision \<Rightarrow> call_denial" where
  "readLedgerDenialReason d =
     (case ld_Code d of
        LedgerReadRequired \<Rightarrow> ReadRequiredDenial
      | LedgerStaleRead \<Rightarrow> StaleReadDenial
      | LedgerMissingTarget \<Rightarrow> MissingTargetDenial
      | _ \<Rightarrow> (case ld_Detail d of Some e \<Rightarrow> LedgerDetailDenial e | None \<Rightarrow> LedgerUnsafeDenial))"

definition ledger_check :: "dispatch_options \<Rightarrow> files \<Rightarrow> read_ledger \<Rightarrow> prepared_call \<Rightarrow> ledger_decision" where
  "ledger_check opt files l c =
     (if pc_tool c = ''Write'' then CheckWrite (do_sha opt) (do_fs opt) files l (call_path opt c)
      else CheckEdit (do_sha opt) (do_fs opt) files l (call_path opt c))"

text \<open>The result is the new guard, a denial, the decision of the ledger to bind, and what the guard counted.\<close>

definition checkDispatchRuntimePolicy ::
    "dispatch_options \<Rightarrow> dispatch_world \<Rightarrow> prepared_call \<Rightarrow>
     run_guard \<times> call_denial option \<times> ledger_decision option \<times> action_input" where
  "checkDispatchRuntimePolicy opt w c =
     (let filePath = call_path opt c;
          current = (if filePath = [] then []
            else case CurrentRevision (do_sha opt) (do_fs opt) (dw_files w) (dw_ledger w) filePath of
              Inr r \<Rightarrow> r | Inl _ \<Rightarrow> ''unavailable'');
          checked = (if do_readBeforeWrite opt \<and> isFileMutationTool (pc_tool c)
            then Some (ledger_check opt (dw_files w) (dw_ledger w) c) else None);
          target = (case checked of
            Some d \<Rightarrow> if ld_CurrentRevision d \<noteq> [] then ld_CurrentRevision d else current | None \<Rightarrow> current);
          denied = (case checked of Some d \<Rightarrow> if ld_Allowed d then None else Some d | None \<Rightarrow> None);
          input = \<lparr>ai_ToolName = pc_tool c, ai_Arguments = pc_input c, ai_TargetRevision = target,
            ai_FailureCode = (case denied of Some d \<Rightarrow> ledger_code_text (ld_Code d) | None \<Rightarrow> []),
            ai_PlanStep = do_planStep opt\<rparr>;
          (guard, seen) = Observe (do_digests opt) input (dw_guard w)
      in if \<not> gd_Allowed seen then (guard, Some (RepeatedActionDenial (gd_Limit seen)), None, input)
         else case denied of
           Some d \<Rightarrow> (guard, Some (readLedgerDenialReason d), None, input)
         | None \<Rightarrow> (guard, None, checked, input))"

definition updateDispatchReadLedger ::
    "dispatch_options \<Rightarrow> files \<Rightarrow> prepared_call \<Rightarrow> bool \<Rightarrow> read_ledger \<Rightarrow> read_ledger" where
  "updateDispatchReadLedger opt files c isError l =
     (let filePath = call_path opt c in
      if filePath = [] then l
      else if pc_tool c = ''Read'' then
        (if \<not> isError then fst (RecordRead (do_sha opt) (do_fs opt) files filePath l) else l)
      else if isFileMutationTool (pc_tool c) then
        (if isError then fst (Forget (do_fs opt) filePath l)
         else fst (RefreshAfterWrite (do_sha opt) (do_fs opt) files filePath l))
      else l)"

section \<open>The execution\<close>

datatype tool_answer =
    ToolDone exec_result | ToolUnwrapBlocked mutation_error | ToolPolicyBlocked | ToolOwnershipBlocked | ToolInputInvalid
  | ResultLost exec_result

definition answer_failed :: "tool_answer \<Rightarrow> bool" where
  "answer_failed a = (case a of ToolDone r \<Rightarrow> exec_failed r | _ \<Rightarrow> True)"

text \<open>The struct fields of the two inputs: keys up to case, a value of another type is an error.\<close>

definition write_args :: "json_text \<Rightarrow> (string \<times> string) option" where
  "write_args input =
     (case input of
        ObjectText members Closed \<Rightarrow>
          (case (decode_field (store_value json_to_string) ''file_path'' members [],
                 decode_field (store_value json_to_string) ''content'' members []) of
             (Some p, Some d) \<Rightarrow> Some (p, d) | _ \<Rightarrow> None)
      | _ \<Rightarrow> None)"

definition edit_args :: "json_text \<Rightarrow> (string \<times> edit_input) option" where
  "edit_args input =
     (case input of
        ObjectText members Closed \<Rightarrow>
          (let str = (\<lambda>name. decode_field (store_value json_to_string) name members []);
               flag = (\<lambda>name. decode_field (store_value json_to_bool) name members False)
           in case (str ''file_path'', str ''old_string'', str ''new_string'', flag ''replace_all'',
                    flag ''regex'', str ''patch'', str ''content'') of
                (Some p, Some old, Some new, Some all, Some re, Some patch, Some data) \<Rightarrow>
                  Some (p, \<lparr>ei_OldString = old, ei_NewString = new, ei_ReplaceAll = all, ei_Regex = re,
                    ei_Patch = patch, ei_Content = data\<rparr>)
              | _ \<Rightarrow> None)
      | _ \<Rightarrow> None)"

definition executeBuiltInMutation ::
    "dispatch_options \<Rightarrow> call_env \<Rightarrow> string \<Rightarrow> string \<Rightarrow> precondition option \<Rightarrow> files \<Rightarrow> files \<times> tool_answer" where
  "executeBuiltInMutation opt ce tool input pr files =
     (if tool = ''Write'' then
        (case write_args (do_decode opt input) of
           None \<Rightarrow> (files, ToolInputInvalid)
         | Some (p, data) \<Rightarrow>
             apsnd ToolDone (executeWrite (do_sha opt) (do_fs opt) (do_goodPattern opt) (ce_exec ce) (do_workDir opt)
               (do_policy opt) pr p data files))
      else
        (case edit_args (do_decode opt input) of
           None \<Rightarrow> (files, ToolInputInvalid)
         | Some (p, args) \<Rightarrow>
             apsnd ToolDone (executeEdit (do_sha opt) (do_fs opt) (do_goodPattern opt) (ce_exec ce) (do_regex opt)
               (do_workDir opt) (do_policy opt) pr p args (do_editPolicy opt) files)))"

text \<open>
  What is executed is the input, or its envelope with the one-shot token, whose precondition is
  taken out of the pending ones first.
\<close>

definition ExecuteToolWithOptions ::
    "dispatch_options \<Rightarrow> call_env \<Rightarrow> string \<Rightarrow> string + envelope \<Rightarrow> files \<times> (string \<rightharpoonup> precondition) \<Rightarrow>
     (files \<times> (string \<rightharpoonup> precondition)) \<times> tool_answer" where
  "ExecuteToolWithOptions opt ce tool bound state =
     (let (files, pending) = state;
          (pending', unwrapped) = (case bound of
             Inl input \<Rightarrow> (pending, Inr (input, None))
           | Inr env \<Rightarrow>
               (case unwrapFileMutationExecutionInput (do_inputDigest opt) (ce_execTime ce) env tool pending of
                  (rest, Inl e) \<Rightarrow> (rest, Inl e)
                | (rest, Inr (input, pr)) \<Rightarrow> (rest, Inr (input, Some pr))))
      in case unwrapped of
           Inl e \<Rightarrow> ((files, pending'), ToolUnwrapBlocked e)
         | Inr (input, pr) \<Rightarrow>
             (if (case do_policy opt of Some sn \<Rightarrow> sn_Mode sn = ModeReadOnly | None \<Rightarrow> False)
              then ((files, pending'), ToolPolicyBlocked)
              else if \<not> ce_owned ce then ((files, pending'), ToolOwnershipBlocked)
              else (case executeBuiltInMutation opt ce tool input pr files of
                     (files', a) \<Rightarrow> ((files', pending'), a))))"

text \<open>A successful result that cannot be stored is reported as an error.\<close>

definition persistSuccessfulToolResult :: "bool \<Rightarrow> tool_answer \<Rightarrow> tool_answer" where
  "persistSuccessfulToolResult stored a =
     (case a of ToolDone r \<Rightarrow> if exec_failed r \<or> stored then a else ResultLost r | _ \<Rightarrow> a)"

datatype snapshot_error = SnapshotPathEmpty | SnapshotPath ledger_error | SnapshotEditMissing | SnapshotUnreadable

datatype call_outcome =
    NotRun | CallExecuted tool_answer | CallDenied call_denial | SnapshotDenied snapshot_error
  | RevisionNotCaptured | RolledBack | RollbackFailed | CheckpointRolledBack | CheckpointIncomplete

definition outcome_error :: "call_outcome \<Rightarrow> bool" where
  "outcome_error r = (case r of CallExecuted a \<Rightarrow> answer_failed a | _ \<Rightarrow> True)"

definition executePreparedToolCall ::
    "dispatch_options \<Rightarrow> call_env \<Rightarrow> prepared_call \<Rightarrow> dispatch_world \<Rightarrow> dispatch_world \<times> call_outcome" where
  "executePreparedToolCall opt ce c w =
     (if \<not> fst (ce_live ce) then (w, CallDenied ContextCanceled)
      else if \<not> fst (ce_identity ce) then (w, CallDenied IdentityFailed)
      else
        let (guard, denial, decision, counted) = checkDispatchRuntimePolicy opt w c;
            w1 = w\<lparr>dw_guard := guard\<rparr>
        in case denial of Some d \<Rightarrow> (w1, CallDenied d) | None \<Rightarrow>
          (if \<not> ce_before ce then (w1, CallDenied CheckpointFailed)
           else if \<not> snd (ce_live ce) then (w1, CallDenied ContextCanceled)
           else if \<not> fst (snd (ce_identity ce)) \<or> \<not> snd (snd (ce_identity ce)) then (w1, CallDenied IdentityFailed)
           else
             let (pending, bound) = (case decision of
                   None \<Rightarrow> (dw_pending w1, Inr (Inl (pc_input c)))
                 | Some d \<Rightarrow>
                     (case bindFileMutationExecutionInput (do_inputDigest opt) (ce_bindTime ce) (ce_random ce)
                         (pc_input c) (pc_tool c) d (dw_pending w1) of
                        (pending, Inl e) \<Rightarrow> (pending, Inl e)
                      | (pending, Inr env) \<Rightarrow> (pending, Inr (Inr env))));
                 w2 = w1\<lparr>dw_pending := pending\<rparr>
             in case bound of Inl e \<Rightarrow> (w2, CallDenied (BindingFailed e)) | Inr bd \<Rightarrow>
               (let discard = (case bd of Inl _ \<Rightarrow> id | Inr env \<Rightarrow> discardFileMutationPrecondition (en_Token env)) in
                if \<not> ce_journal ce then (w2\<lparr>dw_pending := discard (dw_pending w2)\<rparr>, CallDenied JournalFailed)
                else
                  let ((files', pending'), a0) = ExecuteToolWithOptions opt ce (pc_tool c) bd (dw_files w2, dw_pending w2);
                      a = persistSuccessfulToolResult (ce_stored ce) a0;
                      answer = (case a of ToolDone r \<Rightarrow> do_render opt r | _ \<Rightarrow> [])
                  in (w2\<lparr>dw_files := files',
                        dw_ledger := updateDispatchReadLedger opt files' c (answer_failed a) (dw_ledger w2),
                        dw_guard := fst (ObserveResult (do_digests opt) counted answer (answer_failed a) (dw_guard w2)),
                        dw_pending := discard pending'\<rparr>,
                      CallExecuted a))))"

section \<open>What a call does to the files\<close>

lemma executeBuiltInMutation_failed:
  "executeBuiltInMutation opt ce tool input pr files = (files', a) \<Longrightarrow> answer_failed a \<Longrightarrow> files' = files"
  unfolding executeBuiltInMutation_def answer_failed_def
  by (auto simp: apsnd_def map_prod_def split: if_splits option.splits prod.splits dest!: executeWrite_cases executeEdit_cases)

lemma ExecuteToolWithOptions_failed:
  "ExecuteToolWithOptions opt ce tool bd (files, pending) = ((files', pending'), a) \<Longrightarrow> answer_failed a \<Longrightarrow> files' = files"
  unfolding ExecuteToolWithOptions_def
  by (auto simp: Let_def split: if_splits option.splits prod.splits sum.splits dest: executeBuiltInMutation_failed)

lemma persist_failed: "stored \<Longrightarrow> persistSuccessfulToolResult stored a = a"
  by (simp add: persistSuccessfulToolResult_def split: tool_answer.split)

lemma executeBuiltInMutation_done:
  assumes "executeBuiltInMutation opt ce tool input (Some pr) files = (files', a)" and "\<not> answer_failed a"
    and "isFileMutationTool tool"
  shows "\<exists>data mode. files' = files(Clean (pf_CanonicalPath pr) := Regular data mode) \<and> mode \<noteq> 0
    \<and> validateArtifactPrecondition (do_sha opt) files (Clean (pf_CanonicalPath pr)) (Some pr) = Inr ()"
proof -
  have path: "p = Clean (pf_CanonicalPath pr)"
    if "mutationExecutionPath fs gp raw wd tn (Some pr) pol = Inr p" for fs gp raw wd tn pol p
    using that by (auto simp: mutationExecutionPath_def Let_def split: sum.splits if_splits)
  show ?thesis
    using assms unfolding executeBuiltInMutation_def answer_failed_def
    by (auto simp: apsnd_def map_prod_def split: if_splits option.splits prod.splits
        dest!: executeWrite_cases executeEdit_cases path) blast+
qed


lemma executePreparedToolCallE:
  assumes "executePreparedToolCall opt ce c w = (w', r)"
  obtains (denied) d where "r = CallDenied d" "dw_files w' = dw_files w" "dw_ledger w' = dw_ledger w"
  | (executed) guard decision counted pending bd files' pending' a where
      "checkDispatchRuntimePolicy opt w c = (guard, None, decision, counted)"
      "case decision of None \<Rightarrow> bd = Inl (pc_input c)
       | Some d \<Rightarrow> \<exists>env. bd = Inr env \<and> bindFileMutationExecutionInput (do_inputDigest opt) (ce_bindTime ce) (ce_random ce)
             (pc_input c) (pc_tool c) d (dw_pending w) = (pending, Inr env)"
      "ExecuteToolWithOptions opt ce (pc_tool c) bd (dw_files w, pending) = ((files', pending'), a)"
      "r = CallExecuted (persistSuccessfulToolResult (ce_stored ce) a)" "dw_files w' = files'"
      "dw_ledger w' = updateDispatchReadLedger opt files' c (answer_failed (persistSuccessfulToolResult (ce_stored ce) a)) (dw_ledger w)"
proof -
  obtain guard denial decision counted where check: "checkDispatchRuntimePolicy opt w c = (guard, denial, decision, counted)"
    by (metis prod_cases4)
  show ?thesis
  proof (cases decision)
    case None
    obtain files' pending' a where
      x: "ExecuteToolWithOptions opt ce (pc_tool c) (Inl (pc_input c)) (dw_files w, dw_pending w) = ((files', pending'), a)"
      by (metis surj_pair)
    show ?thesis
      using assms executed [of guard decision counted "Inl (pc_input c)" "dw_pending w" files' pending' a] denied
      unfolding executePreparedToolCall_def check
      by (cases denial) (auto simp: None x Let_def split: if_splits)
  next
    case (Some d)
    obtain pending b where
      b: "bindFileMutationExecutionInput (do_inputDigest opt) (ce_bindTime ce) (ce_random ce) (pc_input c) (pc_tool c) d (dw_pending w)
        = (pending, b)" by fastforce
    show ?thesis
    proof (cases b)
      case (Inl e)
      with assms denied show ?thesis
        unfolding executePreparedToolCall_def check by (cases denial) (auto simp: Some b Let_def split: if_splits)
    next
      case (Inr env)
      obtain files' pending' a where
        x: "ExecuteToolWithOptions opt ce (pc_tool c) (Inr env) (dw_files w, pending) = ((files', pending'), a)"
        by (metis surj_pair)
      show ?thesis
        using assms executed [of guard decision counted "Inr env" pending files' pending' a] denied
        unfolding executePreparedToolCall_def check
        by (cases denial) (auto simp: Some b Inr x Let_def split: if_splits)
    qed
  qed
qed

lemma checkDispatch_decision:
  assumes "checkDispatchRuntimePolicy opt w c = (guard, None, decision, counted)"
    and "do_readBeforeWrite opt" and "isFileMutationTool (pc_tool c)"
  shows "decision = Some (ledger_check opt (dw_files w) (dw_ledger w) c)
    \<and> ld_Allowed (ledger_check opt (dw_files w) (dw_ledger w) c)"
  using assms unfolding checkDispatchRuntimePolicy_def
  by (auto simp: Let_def split: if_splits option.splits prod.splits)

lemma ledger_check_path:
  assumes "ld_Allowed (ledger_check opt files l c)"
  shows "ledger_canonicalPath (do_fs opt) l (call_path opt c) = Inr (ld_Path (ledger_check opt files l c))"
  using assms unfolding ledger_check_def CheckWrite_def CheckEdit_def checkMutation_def
  by (auto simp: no_decision_def Let_def split: if_splits sum.splits option.splits file_error.splits)

lemma ledger_canonicalPath_clean: "ledger_canonicalPath fs l p = Inr q \<Longrightarrow> Clean q = q"
  by (auto simp: ledger_canonicalPath_def split: if_splits sum.splits option.splits)

text \<open>The precondition a bound call brings along is the one its decision gave.\<close>

lemma bind_then_execute:
  assumes "bindFileMutationExecutionInput dig now rnd input tool d pending0 = (pending, Inr env)"
    and "ExecuteToolWithOptions opt ce tool (Inr env) (files, pending) = ((files', pending'), a)" and "\<not> answer_failed a"
  shows "\<exists>pr. pf_CanonicalPath pr = Clean (ld_Path d) \<and> pf_ExpectedRevision pr = ld_CurrentRevision d
    \<and> pf_ExpectAbsent pr = (ld_Code d = LedgerNewFile)
    \<and> executeBuiltInMutation opt ce tool input (Some pr) files = (files', a)"
proof -
  have "\<exists>token pr. env = \<lparr>en_Token = token, en_Input = input\<rparr> \<and> pending token = Some pr
      \<and> pf_CanonicalPath pr = Clean (ld_Path d) \<and> pf_ExpectedRevision pr = ld_CurrentRevision d
      \<and> pf_ExpectAbsent pr = (ld_Code d = LedgerNewFile)"
    using assms(1) unfolding bindFileMutationExecutionInput_def
    by (auto simp: Let_def split: if_splits option.splits)
  then obtain token pr where t: "env = \<lparr>en_Token = token, en_Input = input\<rparr>" "pending token = Some pr"
      "pf_CanonicalPath pr = Clean (ld_Path d)" "pf_ExpectedRevision pr = ld_CurrentRevision d"
      "pf_ExpectAbsent pr = (ld_Code d = LedgerNewFile)" by blast
  show ?thesis
    using assms(2,3) t unfolding ExecuteToolWithOptions_def unwrapFileMutationExecutionInput_def
    by (auto simp: Let_def answer_failed_def split: if_splits option.splits prod.splits)
qed

text \<open>
  Under read-before-write, a call that is reported as successful has replaced exactly the file
  the ledger vouched for, and that file was still as the ledger knew it.
\<close>

lemma executed_call_target:
  assumes "executePreparedToolCall opt ce c w = (w', r)" and "\<not> outcome_error r"
    and "do_readBeforeWrite opt" and "isFileMutationTool (pc_tool c)"
  shows "\<exists>p data mode. ledger_canonicalPath (do_fs opt) (dw_ledger w) (call_path opt c) = Inr p \<and> Clean p = p
    \<and> dw_files w' = (dw_files w)(p := Regular data mode) \<and> mode \<noteq> 0
    \<and> ld_Allowed (ledger_check opt (dw_files w) (dw_ledger w) c)"
  using assms(1)
proof (cases rule: executePreparedToolCallE)
  case (denied d)
  with assms(2) show ?thesis by (simp add: outcome_error_def)
next
  case (executed guard decision counted pending bd files' pending' a)
  let ?d = "ledger_check opt (dw_files w) (dw_ledger w) c"
  have d: "decision = Some ?d" "ld_Allowed ?d"
    using checkDispatch_decision [OF executed(1) assms(3,4)] by simp_all
  note path = ledger_check_path [OF d(2)]
  note clean = ledger_canonicalPath_clean [OF path]
  obtain env where env: "bd = Inr env" "bindFileMutationExecutionInput (do_inputDigest opt) (ce_bindTime ce) (ce_random ce)
      (pc_input c) (pc_tool c) ?d (dw_pending w) = (pending, Inr env)"
    using executed(2) d by auto
  have a: "\<not> answer_failed a"
    using assms(2) executed(4)
    by (auto simp: outcome_error_def answer_failed_def persistSuccessfulToolResult_def split: tool_answer.splits if_splits)
  obtain pr where "pf_CanonicalPath pr = Clean (ld_Path ?d)"
      and x: "executeBuiltInMutation opt ce (pc_tool c) (pc_input c) (Some pr) (dw_files w) = (files', a)"
    using bind_then_execute [OF env(2) executed(3) [unfolded env(1)] a] by blast
  with executeBuiltInMutation_done [OF x a assms(4)] executed(5) path d(2) clean show ?thesis by auto
qed

lemma failed_call_keeps_files:
  assumes "executePreparedToolCall opt ce c w = (w', r)" and "outcome_error r" and "ce_stored ce"
  shows "dw_files w' = dw_files w"
  using assms(1)
proof (cases rule: executePreparedToolCallE)
  case (executed guard decision counted pending bd files' pending' a)
  with assms(2) have "answer_failed a"
    by (simp add: outcome_error_def persist_failed [OF assms(3)])
  with ExecuteToolWithOptions_failed [OF executed(3)] executed(5) show ?thesis by simp
qed simp

definition ledger_frame :: "read_ledger \<Rightarrow> read_ledger \<Rightarrow> bool" where
  "ledger_frame l l' \<longleftrightarrow> rl_workDir l' = rl_workDir l \<and> rl_allowExternal l' = rl_allowExternal l"

lemma ledger_frame_simps [simp]:
  "ledger_frame l l" "ledger_frame l (fst (RecordRead sha fs files p l'')) \<longleftrightarrow> ledger_frame l l''"
  "ledger_frame l (fst (RefreshAfterWrite sha fs files p l'')) \<longleftrightarrow> ledger_frame l l''"
  "ledger_frame l (fst (Forget fs p l'')) \<longleftrightarrow> ledger_frame l l''"
  by (simp_all add: ledger_frame_def RefreshAfterWrite_def)

lemma call_keeps_frame:
  assumes "executePreparedToolCall opt ce c w = (w', r)"
  shows "ledger_frame (dw_ledger w) (dw_ledger w')"
  using assms
  by (cases rule: executePreparedToolCallE) (simp_all add: updateDispatchReadLedger_def Let_def)

end
