(* ===== verification/Mutation_Batch.thy ===== *)
theory Mutation_Batch
  imports Tool_Execution
begin

text \<open>
  The file mutations of one model turn as a transaction: \<^verbatim>\<open>internal/agent/file_mutation_batch.go\<close> and the
  serial part of \<^verbatim>\<open>dispatchToolCalls\<close> in \<^verbatim>\<open>tool_dispatch.go\<close>. Every mutation is preceded by a snapshot of its
  target and followed by the capture of the committed revision; after a failure the earlier ones
  are rolled back, newest first. How a call is executed is an argument, with its contract in the
  locale \<^verbatim>\<open>file_mutator\<close>: a failed execution changes no file, a successful one only its target. The
  execution of Write and Edit calls satisfies it under read-before-write. Nobody else touches the
  files while a batch runs (the code holds a lock against other batches).
\<close>

section \<open>Snapshots and roll back\<close>

record file_snapshot =
  fsn_Path :: string
  fsn_Existed :: bool
  fsn_Data :: string
  fsn_Mode :: nat
  fsn_Revision :: string

definition captureFileMutationSnapshot ::
    "dispatch_options \<Rightarrow> dispatch_world \<Rightarrow> prepared_call \<Rightarrow> snapshot_error + file_snapshot" where
  "captureFileMutationSnapshot opt w c =
     (let rawPath = call_path opt c in
      if blank rawPath then Inl SnapshotPathEmpty
      else case ledger_canonicalPath (do_fs opt) (dw_ledger w) rawPath of
        Inl e \<Rightarrow> Inl (SnapshotPath e)
      | Inr canonical \<Rightarrow>
          (let p = Clean canonical in
           case dw_files w p of
             Absent \<Rightarrow>
               (if pc_tool c = ''Edit'' then Inl SnapshotEditMissing
                else Inr \<lparr>fsn_Path = p, fsn_Existed = False, fsn_Data = [], fsn_Mode = default_mode, fsn_Revision = []\<rparr>)
           | Regular data mode \<Rightarrow>
               Inr \<lparr>fsn_Path = p, fsn_Existed = True, fsn_Data = data, fsn_Mode = mode,
                 fsn_Revision = artifactBytesRevision (do_sha opt) data\<rparr>
           | _ \<Rightarrow> Inl SnapshotUnreadable))"

record committed_mutation =
  cm_ResultIndex :: nat
  cm_Snapshot :: file_snapshot
  cm_PostRevision :: string

definition committedMutationRevision :: "(string \<Rightarrow> string) \<Rightarrow> files \<Rightarrow> file_snapshot \<Rightarrow> file_error + string" where
  "committedMutationRevision sha files s = readLedgerFileRevision sha files (fsn_Path s)"

text \<open>The first answer is that of removing or staging, the second that of publishing.\<close>

definition rollbackCommittedFileMutation ::
    "(string \<Rightarrow> string) \<Rightarrow> bool \<times> bool \<Rightarrow> committed_mutation \<Rightarrow> files \<Rightarrow> files \<times> bool" where
  "rollbackCommittedFileMutation sha ok m files =
     (let s = cm_Snapshot m in
      case validateExpectedArtifactState sha files (fsn_Path s) (cm_PostRevision m) False of
        Inl _ \<Rightarrow> (files, False)
      | Inr _ \<Rightarrow>
          (if \<not> fsn_Existed s then (if fst ok then (files(fsn_Path s := Absent), True) else (files, False))
           else case stageArtifact (fst ok) (fsn_Path s) (fsn_Data s) (fsn_Mode s) of
             None \<Rightarrow> (files, False)
           | Some stg \<Rightarrow>
               (case commit_staged sha (snd ok) stg (cm_PostRevision m) False files of
                  Inl _ \<Rightarrow> (files, False)
                | Inr files' \<Rightarrow>
                    (files', readLedgerFileRevision sha files' (fsn_Path s) = Inr (fsn_Revision s)))))"

record batch_state =
  ba_world :: dispatch_world
  ba_results :: "call_outcome list"
  ba_journal :: "committed_mutation list"
  ba_failed :: bool
  ba_conflicts :: nat

definition rollback_step ::
    "dispatch_options \<Rightarrow> (string \<Rightarrow> bool \<times> bool) \<Rightarrow> batch_state \<Rightarrow> committed_mutation \<Rightarrow> batch_state" where
  "rollback_step opt ok b m =
     (let s = cm_Snapshot m; p = fsn_Path s; w = ba_world b;
          (files', restored) = rollbackCommittedFileMutation (do_sha opt) (ok p) m (dw_files w);
          l = (if restored \<and> fsn_Existed s then fst (RefreshAfterWrite (do_sha opt) (do_fs opt) files' p (dw_ledger w))
               else fst (Forget (do_fs opt) p (dw_ledger w)))
      in b\<lparr>ba_world := w\<lparr>dw_files := files', dw_ledger := l\<rparr>,
           ba_results := (ba_results b)[cm_ResultIndex m := if restored then RolledBack else RollbackFailed],
           ba_conflicts := ba_conflicts b + (if restored then 0 else 1)\<rparr>)"

text \<open>Newest first; the number of changes that could not be taken back is the result.\<close>

definition rollbackFileMutationBatch ::
    "dispatch_options \<Rightarrow> (string \<Rightarrow> bool \<times> bool) \<Rightarrow> batch_state \<Rightarrow> batch_state" where
  "rollbackFileMutationBatch opt ok b =
     (foldl (rollback_step opt ok) (b\<lparr>ba_conflicts := 0\<rparr>) (rev (ba_journal b)))\<lparr>ba_journal := []\<rparr>"

section \<open>The serial loop\<close>

text \<open>
  Before the first mutation, every target is checked against the ledger; one failure blocks all
  mutations of the turn.
\<close>

definition preflightFileMutationBatch ::
    "dispatch_options \<Rightarrow> dispatch_world \<Rightarrow> prepared_call list \<Rightarrow> (nat \<rightharpoonup> call_denial)" where
  "preflightFileMutationBatch opt w calls =
     (let mutations = filter (\<lambda>c. isFileMutationTool (pc_tool c)) calls;
          check = ledger_check opt (dw_files w) (dw_ledger w);
          refused = filter (\<lambda>c. \<not> ld_Allowed (check c)) mutations;
          failures = foldl (\<lambda>m c. m(pc_index c \<mapsto> readLedgerDenialReason (check c))) Map.empty refused
      in if \<not> do_readBeforeWrite opt \<or> refused = [] then Map.empty
         else foldl (\<lambda>m c. m(pc_index c \<mapsto>
                case failures (pc_index c) of Some reason \<Rightarrow> reason | None \<Rightarrow> OtherTargetDenial)) Map.empty mutations)"

definition put_result :: "prepared_call \<Rightarrow> call_outcome \<Rightarrow> batch_state \<Rightarrow> batch_state" where
  "put_result c r b = b\<lparr>ba_results := (ba_results b)[pc_index c := r]\<rparr>"

text \<open>\<^verbatim>\<open>run\<close> is the execution of a prepared call, \<^verbatim>\<open>ok\<close> the answers of the operating system in a roll back.\<close>

definition batch_call ::
    "dispatch_options \<Rightarrow> (string \<Rightarrow> bool \<times> bool) \<Rightarrow> (prepared_call \<Rightarrow> dispatch_world \<Rightarrow> dispatch_world \<times> call_outcome) \<Rightarrow>
     (nat \<rightharpoonup> call_denial) \<Rightarrow> batch_state \<Rightarrow> prepared_call \<Rightarrow> batch_state" where
  "batch_call opt ok run blocked b c =
     (let isMutation = isFileMutationTool (pc_tool c);
          abort = (\<lambda>r b. rollbackFileMutationBatch opt ok ((put_result c r b)\<lparr>ba_failed := True\<rparr>))
      in case blocked (pc_index c) of
           Some reason \<Rightarrow> (put_result c (CallDenied reason) b)\<lparr>ba_failed := True\<rparr>
         | None \<Rightarrow>
             (if isMutation \<and> ba_failed b then put_result c (CallDenied BatchAborted) b
              else if \<not> isMutation then
                (let (w', r) = run c (ba_world b) in put_result c r (b\<lparr>ba_world := w'\<rparr>))
              else case captureFileMutationSnapshot opt (ba_world b) c of
                Inl e \<Rightarrow> abort (SnapshotDenied e) b
              | Inr snap \<Rightarrow>
                  (let (w', r) = run c (ba_world b); b' = b\<lparr>ba_world := w'\<rparr>
                   in if outcome_error r then abort r b'
                      else case committedMutationRevision (do_sha opt) (dw_files w') snap of
                        Inl _ \<Rightarrow> abort RevisionNotCaptured b'
                      | Inr post \<Rightarrow>
                          (put_result c r b')\<lparr>ba_journal := ba_journal b
                            @ [\<lparr>cm_ResultIndex = pc_index c, cm_Snapshot = snap, cm_PostRevision = post\<rparr>]\<rparr>)))"

text \<open>
  After the loop, the recovery checkpoint of the committed changes is saved, or they are taken
  back. If the checkpoint of a failed batch cannot be settled, the texts of results that are
  errors already change; that is left out.
\<close>

definition settle_batch :: "dispatch_options \<Rightarrow> (string \<Rightarrow> bool \<times> bool) \<Rightarrow> bool \<Rightarrow> batch_state \<Rightarrow> batch_state" where
  "settle_batch opt ok saved b =
     (if \<not> ba_failed b \<and> ba_journal b \<noteq> [] \<and> \<not> saved then
        (let b' = rollbackFileMutationBatch opt ok (b\<lparr>ba_failed := True\<rparr>);
             verdict = (if ba_conflicts b' = 0 then CheckpointRolledBack else CheckpointIncomplete)
         in b'\<lparr>ba_results := foldl (\<lambda>rs m. rs[cm_ResultIndex m := verdict]) (ba_results b') (ba_journal b)\<rparr>)
      else b)"

definition run_batch ::
    "dispatch_options \<Rightarrow> (string \<Rightarrow> bool \<times> bool) \<Rightarrow> bool \<Rightarrow>
     (prepared_call \<Rightarrow> dispatch_world \<Rightarrow> dispatch_world \<times> call_outcome) \<Rightarrow>
     nat \<Rightarrow> prepared_call list \<Rightarrow> dispatch_world \<Rightarrow> batch_state" where
  "run_batch opt ok saved run n calls w =
     settle_batch opt ok saved
       (foldl (batch_call opt ok run (preflightFileMutationBatch opt w calls))
         \<lparr>ba_world = w, ba_results = replicate n NotRun, ba_journal = [], ba_failed = False, ba_conflicts = 0\<rparr> calls)"

section \<open>What the journal knows\<close>

text \<open>
  From the newest entry back, every entry names the state its target had before, and taking the
  entries back in this order leads to the files of the beginning.
\<close>

definition snapshot_node :: "file_snapshot \<Rightarrow> file_node" where
  "snapshot_node s = (if fsn_Existed s then Regular (fsn_Data s) (fsn_Mode s) else Absent)"

fun undoes :: "(string \<Rightarrow> string) \<Rightarrow> files \<Rightarrow> files \<Rightarrow> committed_mutation list \<Rightarrow> bool" where
  "undoes sha start files [] \<longleftrightarrow> files = start"
| "undoes sha start files (m # ms) \<longleftrightarrow>
     (fsn_Existed (cm_Snapshot m) \<longrightarrow> fsn_Mode (cm_Snapshot m) \<noteq> 0
        \<and> fsn_Revision (cm_Snapshot m) = artifactBytesRevision sha (fsn_Data (cm_Snapshot m)))
     \<and> readLedgerFileRevision sha files (fsn_Path (cm_Snapshot m)) = Inr (cm_PostRevision m)
     \<and> undoes sha start (files(fsn_Path (cm_Snapshot m) := snapshot_node (cm_Snapshot m))) ms"

text \<open>Files whose permission bits are zero cannot be read, so a regular node has some.\<close>

definition modes_ok :: "files \<Rightarrow> bool" where
  "modes_ok files \<longleftrightarrow> (\<forall>p d. files p \<noteq> Regular d 0)"

definition outcome_of :: "batch_state \<Rightarrow> prepared_call \<Rightarrow> call_outcome" where
  "outcome_of b c = ba_results b ! pc_index c"

lemma rollback_one:
  assumes "undoes sha start files (m # ms)" and "ok = (True, True)"
  shows "rollbackCommittedFileMutation sha ok m files
    = (files(fsn_Path (cm_Snapshot m) := snapshot_node (cm_Snapshot m)), True)"
  using assms
  by (auto simp: rollbackCommittedFileMutation_def validateExpectedArtifactState_def stageArtifact_def commit_staged_def
      snapshot_node_def readLedgerFileRevision_def Let_def split: file_node.splits)

lemma rollback_steps_restore:
  assumes "undoes (do_sha opt) start (dw_files (ba_world b)) ms" and "\<forall>p. ok p = (True, True)"
  shows "dw_files (ba_world (foldl (rollback_step opt ok) b ms)) = start
    \<and> ba_conflicts (foldl (rollback_step opt ok) b ms) = ba_conflicts b
    \<and> ba_failed (foldl (rollback_step opt ok) b ms) = ba_failed b
    \<and> length (ba_results (foldl (rollback_step opt ok) b ms)) = length (ba_results b)
    \<and> ledger_frame (dw_ledger (ba_world b)) (dw_ledger (ba_world (foldl (rollback_step opt ok) b ms)))
    \<and> (\<forall>i < length (ba_results b). i \<in> cm_ResultIndex ` set ms \<longrightarrow>
         ba_results (foldl (rollback_step opt ok) b ms) ! i = RolledBack)
    \<and> (\<forall>i. i \<notin> cm_ResultIndex ` set ms \<longrightarrow>
         ba_results (foldl (rollback_step opt ok) b ms) ! i = ba_results b ! i)"
  using assms(1)
proof (induction ms arbitrary: b)
  case (Cons m ms)
  let ?b = "rollback_step opt ok b m"
  have one: "rollbackCommittedFileMutation (do_sha opt) (ok (fsn_Path (cm_Snapshot m))) m (dw_files (ba_world b))
      = ((dw_files (ba_world b))(fsn_Path (cm_Snapshot m) := snapshot_node (cm_Snapshot m)), True)"
    using rollback_one [OF Cons.prems] assms(2) by simp
  have step: "dw_files (ba_world ?b) = (dw_files (ba_world b))(fsn_Path (cm_Snapshot m) := snapshot_node (cm_Snapshot m))"
      "ba_conflicts ?b = ba_conflicts b" "ba_failed ?b = ba_failed b"
      "ba_results ?b = (ba_results b)[cm_ResultIndex m := RolledBack]"
      "ledger_frame (dw_ledger (ba_world b)) (dw_ledger (ba_world ?b))"
    by (simp_all add: rollback_step_def one Let_def)
  have "undoes (do_sha opt) start (dw_files (ba_world ?b)) ms" using Cons.prems step(1) by simp
  from Cons.IH [OF this] step(2-) show ?case
    by (auto simp: nth_list_update ledger_frame_def)
qed simp

lemma rollback_restores:
  assumes "undoes (do_sha opt) start (dw_files (ba_world b)) (rev (ba_journal b))" and "\<forall>p. ok p = (True, True)"
  defines "b' \<equiv> rollbackFileMutationBatch opt ok b"
  shows "dw_files (ba_world b') = start" "ba_conflicts b' = 0" "ba_failed b' = ba_failed b" "ba_journal b' = []"
    "length (ba_results b') = length (ba_results b)"
    "ledger_frame (dw_ledger (ba_world b)) (dw_ledger (ba_world b'))"
    "i < length (ba_results b) \<Longrightarrow> i \<in> cm_ResultIndex ` set (ba_journal b) \<Longrightarrow> ba_results b' ! i = RolledBack"
    "i \<notin> cm_ResultIndex ` set (ba_journal b) \<Longrightarrow> ba_results b' ! i = ba_results b ! i"
  using rollback_steps_restore [of opt start "b\<lparr>ba_conflicts := 0\<rparr>" "rev (ba_journal b)" ok] assms(1,2)
  by (simp_all add: b'_def rollbackFileMutationBatch_def)

lemma foldl_update_dom:
  "foldl (\<lambda>m c. m(k c \<mapsto> f c)) m0 xs i = None \<longleftrightarrow> m0 i = None \<and> i \<notin> k ` set xs"
  by (induction xs arbitrary: m0) auto

lemma preflight_all_or_none:
  assumes "list_all (\<lambda>c. isFileMutationTool (pc_tool c)) calls"
  shows "preflightFileMutationBatch opt w calls = Map.empty
    \<or> (\<forall>c \<in> set calls. preflightFileMutationBatch opt w calls (pc_index c) \<noteq> None)"
  using assms by (auto simp: preflightFileMutationBatch_def Let_def foldl_update_dom list_all_iff)

lemma undoes_snoc_snapshot:
  assumes "undoes sha start files ms" and "modes_ok files"
    and "snapshot_node s = files (fsn_Path s)" and "fsn_Existed s \<Longrightarrow> fsn_Revision s = artifactBytesRevision sha (fsn_Data s)"
    and "files' = files(fsn_Path s := Regular data mode)"
  shows "undoes sha start files' (\<lparr>cm_ResultIndex = i, cm_Snapshot = s, cm_PostRevision = artifactBytesRevision sha data\<rparr> # ms)"
proof -
  have "fsn_Existed s \<Longrightarrow> fsn_Mode s \<noteq> 0"
    using assms(2,3) unfolding modes_ok_def snapshot_node_def by (metis (full_types))
  moreover have "files'(fsn_Path s := snapshot_node s) = files" using assms(3,5) by simp
  ultimately show ?thesis using assms(1,4,5) by (simp add: readLedgerFileRevision_def)
qed

lemma capture_snapshot:
  assumes "captureFileMutationSnapshot opt w c = Inr s"
  shows "\<exists>q. ledger_canonicalPath (do_fs opt) (dw_ledger w) (call_path opt c) = Inr q \<and> fsn_Path s = Clean q
    \<and> snapshot_node s = dw_files w (fsn_Path s)
    \<and> (fsn_Existed s \<longrightarrow> fsn_Revision s = artifactBytesRevision (do_sha opt) (fsn_Data s))"
  using assms
  by (auto simp: captureFileMutationSnapshot_def snapshot_node_def Let_def split: if_splits sum.splits file_node.splits)

section \<open>The contract of an execution\<close>

locale file_mutator =
  fixes opt :: dispatch_options
    and run :: "prepared_call \<Rightarrow> dispatch_world \<Rightarrow> dispatch_world \<times> call_outcome"
  assumes failed_keeps:
      "isFileMutationTool (pc_tool c) \<Longrightarrow> run c w = (w', r) \<Longrightarrow> outcome_error r \<Longrightarrow> dw_files w' = dw_files w"
    and changes_target:
      "isFileMutationTool (pc_tool c) \<Longrightarrow> run c w = (w', r) \<Longrightarrow> \<not> outcome_error r
         \<Longrightarrow> \<exists>p data mode. ledger_canonicalPath (do_fs opt) (dw_ledger w) (call_path opt c) = Inr p \<and> Clean p = p
            \<and> dw_files w' = (dw_files w)(p := Regular data mode) \<and> mode \<noteq> 0"
    and keeps_frame:
      "isFileMutationTool (pc_tool c) \<Longrightarrow> run c w = (w', r) \<Longrightarrow> ledger_frame (dw_ledger w) (dw_ledger w')"
begin

definition batch_inv :: "dispatch_world \<Rightarrow> nat \<Rightarrow> prepared_call list \<Rightarrow> batch_state \<Rightarrow> bool" where
  "batch_inv start n prev b \<longleftrightarrow>
     length (ba_results b) = n \<and> ledger_frame (dw_ledger start) (dw_ledger (ba_world b))
     \<and> modes_ok (dw_files start) \<and> modes_ok (dw_files (ba_world b))
     \<and> (if ba_failed b
        then ba_journal b = [] \<and> dw_files (ba_world b) = dw_files start \<and> (\<forall>c \<in> set prev. outcome_error (outcome_of b c))
        else undoes (do_sha opt) (dw_files start) (dw_files (ba_world b)) (rev (ba_journal b))
          \<and> cm_ResultIndex ` set (ba_journal b) = pc_index ` set prev
          \<and> (\<forall>c \<in> set prev. \<not> outcome_error (outcome_of b c))
          \<and> (\<forall>p. dw_files (ba_world b) p \<noteq> dw_files start p \<longrightarrow>
               (\<exists>c \<in> set prev. ledger_canonicalPath (do_fs opt) (dw_ledger start) (call_path opt c) = Inr p)))"

lemma abort_inv:
  assumes inv: "batch_inv start n prev b" "\<not> ba_failed b" and ok: "\<forall>p. ok p = (True, True)"
    and w: "dw_files w' = dw_files (ba_world b)" "ledger_frame (dw_ledger start) (dw_ledger w')"
    and c: "pc_index c < n" "pc_index c \<notin> pc_index ` set prev" "\<forall>c \<in> set prev. pc_index c < n" and r: "outcome_error r"
  shows "batch_inv start n (prev @ [c]) (rollbackFileMutationBatch opt ok ((put_result c r (b\<lparr>ba_world := w'\<rparr>))\<lparr>ba_failed := True\<rparr>))"
proof -
  let ?b = "(put_result c r (b\<lparr>ba_world := w'\<rparr>))\<lparr>ba_failed := True\<rparr>"
  have j: "undoes (do_sha opt) (dw_files start) (dw_files (ba_world ?b)) (rev (ba_journal ?b))"
      "cm_ResultIndex ` set (ba_journal ?b) = pc_index ` set prev" "length (ba_results ?b) = n" "ba_failed ?b"
    using inv w by (simp_all add: batch_inv_def put_result_def)
  note rb = rollback_restores [OF j(1) ok]
  have "ba_results ?b ! pc_index c = r" using c(1) inv by (simp add: put_result_def batch_inv_def)
  with rb(8) [of "pc_index c"] j(2) c(2) have "outcome_of (rollbackFileMutationBatch opt ok ?b) c = r"
    by (simp add: outcome_of_def)
  moreover have "outcome_of (rollbackFileMutationBatch opt ok ?b) d = RolledBack" if "d \<in> set prev" for d
    using rb(7) [of "pc_index d"] j(2,3) c(3) that by (auto simp: outcome_of_def)
  moreover have "ledger_frame (dw_ledger start) (dw_ledger (ba_world (rollbackFileMutationBatch opt ok ?b)))"
    using rb(6) w(2) by (simp add: put_result_def ledger_frame_def)
  moreover have "modes_ok (dw_files start)" using inv by (simp add: batch_inv_def)
  ultimately show ?thesis
    using rb(1-5) j(3,4) r by (auto simp: batch_inv_def outcome_error_def)
qed

lemma blocked_inv:
  assumes "batch_inv start n prev b" "ba_failed b \<or> prev = []" "blocked (pc_index c) = Some d" "pc_index c < n"
    "pc_index c \<notin> pc_index ` set prev"
  shows "batch_inv start n (prev @ [c]) (batch_call opt ok run blocked b c) \<and> ba_failed (batch_call opt ok run blocked b c)"
  using assms
  by (auto simp: batch_inv_def batch_call_def put_result_def outcome_of_def outcome_error_def nth_list_update split: if_splits)

lemma execute_inv:
  assumes inv: "batch_inv start n prev b" "\<not> ba_failed b" and c: "isFileMutationTool (pc_tool c)" "pc_index c < n"
      "pc_index c \<notin> pc_index ` set prev"
    and snap: "captureFileMutationSnapshot opt (ba_world b) c = Inr s"
    and run: "run c (ba_world b) = (w', r)" "\<not> outcome_error r"
  shows "\<exists>post. committedMutationRevision (do_sha opt) (dw_files w') s = Inr post
    \<and> batch_inv start n (prev @ [c]) ((put_result c r (b\<lparr>ba_world := w'\<rparr>))\<lparr>ba_journal := ba_journal b
        @ [\<lparr>cm_ResultIndex = pc_index c, cm_Snapshot = s, cm_PostRevision = post\<rparr>]\<rparr>)"
proof -
  obtain p data mode where p: "ledger_canonicalPath (do_fs opt) (dw_ledger (ba_world b)) (call_path opt c) = Inr p"
      "Clean p = p" "dw_files w' = (dw_files (ba_world b))(p := Regular data mode)" "mode \<noteq> 0"
    using changes_target [OF c(1) run] by blast
  have s: "fsn_Path s = p" "snapshot_node s = dw_files (ba_world b) (fsn_Path s)"
      "fsn_Existed s \<Longrightarrow> fsn_Revision s = artifactBytesRevision (do_sha opt) (fsn_Data s)"
    using capture_snapshot [OF snap] p(1,2) by auto
  have f: "dw_files w' = (dw_files (ba_world b))(fsn_Path s := Regular data mode)" using p(3) s(1) by simp
  have u: "undoes (do_sha opt) (dw_files start) (dw_files (ba_world b)) (rev (ba_journal b))" "modes_ok (dw_files (ba_world b))"
    using inv by (simp_all add: batch_inv_def)
  have canon: "ledger_canonicalPath (do_fs opt) (dw_ledger start) (call_path opt c) = Inr p"
    using p(1) inv(1) canonicalPath_cong [of "dw_ledger (ba_world b)" "dw_ledger start"]
    by (simp add: batch_inv_def ledger_frame_def)
  have frame: "ledger_frame (dw_ledger start) (dw_ledger w')"
    using keeps_frame [OF c(1) run(1)] inv(1) by (simp add: batch_inv_def ledger_frame_def)
  have modes: "modes_ok (dw_files w')" using u(2) p(3,4) by (simp add: modes_ok_def)
  have same: "d \<in> set prev \<Longrightarrow> pc_index d \<noteq> pc_index c" for d using c(3) by (metis image_eqI)
  show ?thesis
    using undoes_snoc_snapshot [OF u s(2,3) f, of "pc_index c"] inv c(2) run(2) canon frame modes same p(3)
    by (auto simp: committedMutationRevision_def readLedgerFileRevision_def s(1) batch_inv_def put_result_def outcome_of_def
        nth_list_update dest: same)
qed

lemma batch_call_inv:
  assumes inv: "batch_inv start n prev b" and ok: "\<forall>p. ok p = (True, True)"
    and c: "isFileMutationTool (pc_tool c)" "pc_index c < n" "pc_index c \<notin> pc_index ` set prev"
      "\<forall>c \<in> set prev. pc_index c < n"
  shows "batch_inv start n (prev @ [c]) (batch_call opt ok run Map.empty b c)"
proof (cases "ba_failed b")
  case True
  with inv c show ?thesis
    by (auto simp: batch_inv_def batch_call_def put_result_def outcome_of_def outcome_error_def nth_list_update)
next
  case False
  obtain w' r where run: "run c (ba_world b) = (w', r)" by fastforce
  have frame: "ledger_frame (dw_ledger start) (dw_ledger (ba_world b))" "ledger_frame (dw_ledger start) (dw_ledger w')"
    using inv keeps_frame [OF c(1) run] by (auto simp: batch_inv_def ledger_frame_def)
  show ?thesis
  proof (cases "captureFileMutationSnapshot opt (ba_world b) c")
    case (Inl e)
    with abort_inv [OF inv False ok refl frame(1) c(2-4), of "SnapshotDenied e"] c(1) False show ?thesis
      by (simp add: batch_call_def outcome_error_def)
  next
    case (Inr s)
    show ?thesis
    proof (cases "outcome_error r")
      case True
      with abort_inv [OF inv False ok failed_keeps [OF c(1) run True] frame(2) c(2-4) True] Inr run c(1) False
      show ?thesis by (simp add: batch_call_def)
    next
      case good: False
      with execute_inv [OF inv False c(1-3) Inr run good] Inr run c(1) False show ?thesis
        by (auto simp: batch_call_def)
    qed
  qed
qed

lemma batch_run_inv:
  assumes "batch_inv start n prev b" and "\<forall>p. ok p = (True, True)"
    and "\<forall>c \<in> set (prev @ calls). isFileMutationTool (pc_tool c) \<and> pc_index c < n" and "distinct (map pc_index (prev @ calls))"
    and "blocked = Map.empty \<or> (\<forall>c \<in> set calls. blocked (pc_index c) \<noteq> None) \<and> (ba_failed b \<or> prev = [])"
  shows "batch_inv start n (prev @ calls) (foldl (batch_call opt ok run blocked) b calls)"
  using assms
proof (induction calls arbitrary: prev b)
  case (Cons c calls)
  let ?b = "batch_call opt ok run blocked b c"
  have c: "isFileMutationTool (pc_tool c)" "pc_index c < n" "pc_index c \<notin> pc_index ` set prev" "\<forall>c \<in> set prev. pc_index c < n"
    using Cons.prems(3,4) by auto
  have "batch_inv start n (prev @ [c]) ?b \<and> (blocked = Map.empty \<or> ba_failed ?b)"
    using Cons.prems(5)
  proof
    assume "blocked = Map.empty"
    with batch_call_inv [OF Cons.prems(1,2) c] show ?thesis by simp
  next
    assume "(\<forall>c \<in> set (c # calls). blocked (pc_index c) \<noteq> None) \<and> (ba_failed b \<or> prev = [])"
    with blocked_inv [OF Cons.prems(1) _ _ c(2,3)] show ?thesis by auto
  qed
  then have "batch_inv start n ((prev @ [c]) @ calls) (foldl (batch_call opt ok run blocked) ?b calls)"
    using Cons.prems(3-5) by (intro Cons.IH [OF _ Cons.prems(2)]) auto
  then show ?case by simp
qed simp

lemma settle_inv:
  assumes inv: "batch_inv start n prev b" and ok: "\<forall>p. ok p = (True, True)" and n: "\<forall>c \<in> set prev. pc_index c < n"
  shows "batch_inv start n prev (settle_batch opt ok saved b)"
proof (cases "\<not> ba_failed b \<and> ba_journal b \<noteq> [] \<and> \<not> saved")
  case True
  let ?b = "b\<lparr>ba_failed := True\<rparr>"
  have u: "undoes (do_sha opt) (dw_files start) (dw_files (ba_world ?b)) (rev (ba_journal ?b))"
      "cm_ResultIndex ` set (ba_journal ?b) = pc_index ` set prev" "length (ba_results ?b) = n"
    using inv True by (simp_all add: batch_inv_def)
  note rb = rollback_restores [OF u(1) ok]
  have over: "foldl (\<lambda>rs m. rs[cm_ResultIndex m := v]) rs ms ! i = (if i \<in> cm_ResultIndex ` set ms then v else rs ! i)
      \<and> length (foldl (\<lambda>rs m. rs[cm_ResultIndex m := v]) rs ms) = length rs"
    if "i < length rs" for ms :: "committed_mutation list" and v :: call_outcome and rs i
    using that by (induction ms arbitrary: rs) (auto simp: nth_list_update)
  have len: "length (foldl (\<lambda>rs m. rs[cm_ResultIndex m := v]) rs ms) = length rs"
    for ms :: "committed_mutation list" and v :: call_outcome and rs
    by (induction ms arbitrary: rs) auto
  have settled: "settle_batch opt ok saved b = (rollbackFileMutationBatch opt ok ?b)
      \<lparr>ba_results := foldl (\<lambda>rs m. rs[cm_ResultIndex m := CheckpointRolledBack])
         (ba_results (rollbackFileMutationBatch opt ok ?b)) (ba_journal b)\<rparr>"
    using True rb(2) by (simp add: settle_batch_def Let_def)
  have "outcome_of (settle_batch opt ok saved b) c = CheckpointRolledBack" if "c \<in> set prev" for c
    using over [of "pc_index c" "ba_results (rollbackFileMutationBatch opt ok ?b)"] n that u(2,3) rb(5)
    by (auto simp: settled outcome_of_def)
  then have "\<forall>c \<in> set prev. outcome_error (outcome_of (settle_batch opt ok saved b) c)"
    by (simp add: outcome_error_def)
  then show ?thesis
    unfolding batch_inv_def settled using rb(1,3-6) u(3) inv by (auto simp: batch_inv_def len ledger_frame_def)
qed (use inv in \<open>auto simp: settle_batch_def\<close>)

text \<open>All mutations of a turn take effect, or none does and every one is reported as an error.\<close>

lemma all_or_nothing:
  fixes saved :: bool
  assumes ok: "\<forall>p. ok p = (True, True)" and calls: "\<forall>c \<in> set calls. isFileMutationTool (pc_tool c) \<and> pc_index c < n"
    and "distinct (map pc_index calls)" and "modes_ok (dw_files w)"
  defines "b \<equiv> run_batch opt ok saved run n calls w"
  shows "(\<forall>c \<in> set calls. outcome_error (outcome_of b c)) \<and> dw_files (ba_world b) = dw_files w
    \<or> (\<forall>c \<in> set calls. \<not> outcome_error (outcome_of b c))
      \<and> (\<forall>p. dw_files (ba_world b) p \<noteq> dw_files w p \<longrightarrow>
           (\<exists>c \<in> set calls. ledger_canonicalPath (do_fs opt) (dw_ledger w) (call_path opt c) = Inr p))"
proof -
  let ?b0 = "\<lparr>ba_world = w, ba_results = replicate n NotRun, ba_journal = [], ba_failed = False, ba_conflicts = 0\<rparr>"
  have "batch_inv w n [] ?b0" using assms(4) by (simp add: batch_inv_def)
  moreover have "list_all (\<lambda>c. isFileMutationTool (pc_tool c)) calls" using calls by (simp add: list_all_iff)
  ultimately have "batch_inv w n ([] @ calls) (foldl (batch_call opt ok run (preflightFileMutationBatch opt w calls)) ?b0 calls)"
    using batch_run_inv [of w n "[]" ?b0 ok calls "preflightFileMutationBatch opt w calls"]
      preflight_all_or_none [of calls opt w] assms by auto
  from settle_inv [OF this ok] calls have "batch_inv w n calls b" by (simp add: b_def run_batch_def)
  then show ?thesis by (auto simp: batch_inv_def split: if_splits)
qed

end

section \<open>The turns of the agent\<close>

text \<open>Write and Edit calls run as modelled; what the other serial tools do is open.\<close>

definition dispatch_run ::
    "dispatch_options \<Rightarrow> (nat \<Rightarrow> call_env) \<Rightarrow> (prepared_call \<Rightarrow> dispatch_world \<Rightarrow> dispatch_world \<times> call_outcome) \<Rightarrow>
     prepared_call \<Rightarrow> dispatch_world \<Rightarrow> dispatch_world \<times> call_outcome" where
  "dispatch_run opt env other c w =
     (if isFileMutationTool (pc_tool c) then executePreparedToolCall opt (env (pc_index c)) c w else other c w)"

interpretation turn: file_mutator
    "opt\<lparr>do_readBeforeWrite := True\<rparr>"
    "dispatch_run (opt\<lparr>do_readBeforeWrite := True\<rparr>) (\<lambda>i. (env i)\<lparr>ce_stored := True\<rparr>) other"
  for opt env other
proof unfold_locales
  fix c w w' r
  let ?opt = "opt\<lparr>do_readBeforeWrite := True\<rparr>"
  assume c: "isFileMutationTool (pc_tool c)"
    and "dispatch_run ?opt (\<lambda>i. (env i)\<lparr>ce_stored := True\<rparr>) other c w = (w', r)"
  then have run: "executePreparedToolCall ?opt ((env (pc_index c))\<lparr>ce_stored := True\<rparr>) c w = (w', r)"
    by (simp add: dispatch_run_def)
  show "outcome_error r \<Longrightarrow> dw_files w' = dw_files w" by (rule failed_call_keeps_files [OF run]) simp_all
  show "\<not> outcome_error r \<Longrightarrow> \<exists>p data mode. ledger_canonicalPath (do_fs ?opt) (dw_ledger w) (call_path ?opt c) = Inr p
      \<and> Clean p = p \<and> dw_files w' = (dw_files w)(p := Regular data mode) \<and> mode \<noteq> 0"
    using executed_call_target [OF run] c by fastforce
  show "ledger_frame (dw_ledger w) (dw_ledger w')" by (rule call_keeps_frame [OF run])
qed


text \<open>
  A turn of two calls on a file \<^verbatim>\<open>/w/a\<close> that was read: the first overwrites it, the second wants to
  replace a text the file does not contain.
\<close>

definition demo_json :: "string \<Rightarrow> json_text" where
  "demo_json s =
     (if s = ''w'' then ObjectText [(''file_path'', JStr ''a''), (''content'', JStr ''new'')] Closed
      else ObjectText [(''file_path'', JStr ''a''), (''old_string'', JStr ''gone''), (''new_string'', JStr ''x'')] Closed)"

definition demo_options :: dispatch_options where
  "demo_options = \<lparr>do_sha = id, do_inputDigest = (\<lambda>t i. t @ i), do_digests = sample_digests, do_decode = demo_json,
     do_fs = plain_fs, do_goodPattern = (\<lambda>_. True), do_regex = \<lparr>re_Matches = (\<lambda>_ _. None), re_ReplaceAll = (\<lambda>_ _ s. s)\<rparr>,
     do_workDir = ''/w'', do_policy = None, do_editPolicy = [], do_readBeforeWrite = True, do_planStep = [],
     do_render = (\<lambda>_. [])\<rparr>"

definition demo_env :: "bool \<Rightarrow> nat \<Rightarrow> call_env" where
  "demo_env stored i = \<lparr>ce_live = (True, True), ce_identity = (True, True, True), ce_before = True, ce_bindTime = 0,
     ce_random = Some ''t'', ce_journal = True, ce_execTime = 0, ce_owned = True,
     ce_exec = \<lparr>xe_mkdir = Some plain_fs, xe_stage = True, xe_publish = True,
       xe_lint = (\<lambda>_ _. \<lparr>lr_Checked = False, lr_Valid = True, lr_Failure = LintNone\<rparr>)\<rparr>,
     ce_stored = stored\<rparr>"

definition demo_files :: files where
  "demo_files p = (if p = ''/w/a'' then Regular ''old'' 420 else Absent)"

definition demo_world :: dispatch_world where
  "demo_world = \<lparr>dw_files = demo_files,
     dw_ledger = fst (RecordRead id plain_fs demo_files ''a'' (NewReadLedger plain_fs ''/w'' False)),
     dw_guard = NewRunGuard 3, dw_pending = Map.empty\<rparr>"

definition demo_calls :: "prepared_call list" where
  "demo_calls = [\<lparr>pc_index = 0, pc_tool = ''Write'', pc_input = ''w''\<rparr>, \<lparr>pc_index = 1, pc_tool = ''Edit'', pc_input = ''e''\<rparr>]"

definition demo_batch :: "(nat \<Rightarrow> call_env) \<Rightarrow> prepared_call list \<Rightarrow> batch_state" where
  "demo_batch env calls =
     run_batch demo_options (\<lambda>_. (True, True)) True (dispatch_run demo_options env (\<lambda>_ w. (w, NotRun))) 2 calls demo_world"



text \<open>
  The condition on stored results is needed: a change whose result cannot be stored is reported
  as an error and stays, because only earlier changes are in the journal that is rolled back.
\<close>

lemma lost_result_keeps_change:
  "let b = demo_batch (demo_env False) [hd demo_calls] in
   outcome_error (outcome_of b (hd demo_calls)) \<and> ba_failed b \<and> content (dw_files (ba_world b)) ''/w/a'' = Some ''new''"
  by code_simp

end
