(* ===== verification/Tool_Dispatch.thy ===== *)
theory Tool_Dispatch
  imports Permission Mutation_Batch Approval_Broker
begin

text \<open>
  The authorization boundary of \<^verbatim>\<open>internal/agent/tool_dispatch.go\<close>: every call of a turn passes
  \<^verbatim>\<open>dispatchToolCalls\<close> before it may execute. The first loop normalises a call, checks it against the
  catalog, the mode, the scope, the permission decision and the project's instructions, obtains an
  approval where one is needed, runs the project's hook and mints the proofs for host and plugin
  tools (\<^verbatim>\<open>computer_use.go\<close>, \<^verbatim>\<open>plugin_approval.go\<close>); the calls that pass are queued as concurrent or serial
  ones. The catalog, its schemas and identities, the approval requester, the hooks and the other
  callbacks are arguments; what they are asked is recorded as a trace of effects.
\<close>

section \<open>Calls, options and denials\<close>

record tool_use =
  tu_ID :: string
  tu_Name :: string
  tu_Input :: string
  tu_InputRaw :: string

datatype executor_kind = ExecutorBuiltIn | ExecutorMCP | ExecutorPlugin | ExecutorOther

record identity =
  id_Kind :: executor_kind
  id_ExecutorID :: string

record auth_options =
  au_decode :: "string \<Rightarrow> json_text"
  au_digest :: "string \<Rightarrow> string"
  au_pathJSON :: "string \<Rightarrow> string"
  au_catalog :: "string \<Rightarrow> bool"
  au_schema :: "string \<Rightarrow> (string \<Rightarrow> bool) option"
  au_identity :: "string \<Rightarrow> identity option"
  au_identityOk :: "string \<Rightarrow> bool"
  au_planMode :: bool
  au_offline :: bool
  au_policy :: "snapshot option"
  au_scope :: "tool_use \<Rightarrow> bool"
  au_rules :: "tool_use \<Rightarrow> string"
  au_fs :: filesystem
  au_goodPattern :: "string \<Rightarrow> bool"
  au_workDir :: string
  au_cfg :: permission_config
  au_instructions :: "tool_use \<Rightarrow> bool"
  au_requester :: bool
  au_open :: "draft \<Rightarrow> pending option"
  au_await :: "string \<Rightarrow> string \<Rightarrow> resolution option"
  au_issue :: "draft \<Rightarrow> snapshot \<Rightarrow> pending option"
  au_sessionID :: string
  au_sessionRevision :: uint64
  au_runID :: string
  au_openTime :: gotime
  au_awaitTime :: gotime
  au_mintTime :: gotime
  au_live :: "tool_use \<Rightarrow> bool"
  au_hookBlocks :: "tool_use \<Rightarrow> bool"
  au_signed :: bool

datatype auth_denial =
    InvalidToolInput | NotInCatalog | SchemaUnavailable | SchemaViolated | IdentityUnavailable | IdentityCheckFailed
  | PlanModeReadOnly | AirGapped | ShellNeedsIsolation | ReadOnlyEffect | OutOfScope | InstructionsPending
  | PermissionRefused perm_reason | NoRequester | NoSession | GrantNotIssued | RequestNotOpened | RequestInvalid
  | ApprovalRefused | FullModeIdentity | RunCanceled | HookBlocked | HostProofFailed | PluginProofFailed

datatype auth_effect = RequestOpened draft | GrantIssued draft | GuardReset | HookRan tool_use

section \<open>Approvals of exact calls\<close>

definition toolInputDigest :: "auth_options \<Rightarrow> tool_use \<Rightarrow> string" where
  "toolInputDigest au call = ''sha256:'' @ au_digest au (tu_Name call @ [CHR 0x00] @ tu_Input call)"

definition redactedApprovalInput :: "auth_options \<Rightarrow> tool_use \<Rightarrow> string" where
  "redactedApprovalInput au call =
     (let p = dispatchFilePath (au_decode au (tu_Input call)) in
      if p \<noteq> [] then au_pathJSON au p
      else ''{'' @ [CHR 0x22] @ ''input'' @ [CHR 0x22] @ '':'' @ [CHR 0x22] @ ''omitted'' @ [CHR 0x22] @ '','' @ [CHR 0x22]
        @ ''digest'' @ [CHR 0x22] @ '':'' @ [CHR 0x22] @ toolInputDigest au call @ [CHR 0x22] @ ''}'')"

definition approvalScope :: "auth_options \<Rightarrow> tool_use \<Rightarrow> string" where
  "approvalScope au call =
     (let p = dispatchFilePath (au_decode au (tu_Input call)) in if p \<noteq> [] then p else ''workspace'')"

definition danger_text :: "danger_level \<Rightarrow> string" where
  "danger_text d = (case d of DangerSafe \<Rightarrow> ''safe'' | DangerModerate \<Rightarrow> ''moderate''
     | DangerDangerous \<Rightarrow> ''dangerous'' | DangerUnknown \<Rightarrow> ''unknown'')"

definition fullModeApprovalDraft :: "auth_options \<Rightarrow> tool_use \<Rightarrow> identity \<Rightarrow> danger_level \<Rightarrow> draft" where
  "fullModeApprovalDraft au call ident danger =
     \<lparr>d_SessionID = au_sessionID au, d_SessionRevision = au_sessionRevision au, d_RunID = au_runID au,
      d_ToolCallID = tu_ID call, d_ToolName = tu_Name call, d_ExecutorID = id_ExecutorID ident,
      d_RedactedInput = redactedApprovalInput au call, d_InputDigest = toolInputDigest au call,
      d_ExecutionPolicyRevision = (case au_policy au of Some sn \<Rightarrow> sn_Revision sn | None \<Rightarrow> 0),
      d_FullSelectionRevision = (case au_policy au of Some sn \<Rightarrow> sn_FullSelectionRevision sn | None \<Rightarrow> 0),
      d_DangerLevel = danger_text danger, d_Scope = approvalScope au call, d_RememberAllowed = False\<rparr>"

definition pendingMatchesApprovalDraft :: "gotime \<Rightarrow> pending \<Rightarrow> draft \<Rightarrow> string \<Rightarrow> bool" where
  "pendingMatchesApprovalDraft now p d source \<longleftrightarrow>
     \<not> blank (p_ID p) \<and> p_SessionID p = d_SessionID d \<and> p_SessionRevision p = d_SessionRevision d
     \<and> p_RunID p = d_RunID d \<and> p_ToolCallID p = d_ToolCallID d \<and> p_ToolName p = d_ToolName d
     \<and> p_ExecutorID p = d_ExecutorID d \<and> p_RedactedInput p = d_RedactedInput d \<and> p_InputDigest p = d_InputDigest d
     \<and> p_ExecutionPolicyRevision p = d_ExecutionPolicyRevision d
     \<and> p_FullSelectionRevision p = d_FullSelectionRevision d \<and> p_ApprovalSource p = source
     \<and> p_DangerLevel p = d_DangerLevel d \<and> p_Scope p = d_Scope d \<and> p_RememberAllowed p = d_RememberAllowed d
     \<and> now < p_ExpiresAt p"

definition isHostInteractionTool :: "string \<Rightarrow> bool" where
  "isHostInteractionTool name \<longleftrightarrow>
     name \<in> set [''Screenshot'', ''MouseClick'', ''TypeText'', ''OpenApp'', ''ListWindows'', ''FileManager'', ''Clipboard'']"

text \<open>The question to the user: the request is opened for this draft, and its resolution awaited.\<close>

definition request_open :: "auth_options \<Rightarrow> draft \<Rightarrow> auth_effect list \<times> (auth_denial + pending)" where
  "request_open au d =
     (case au_open au d of
        None \<Rightarrow> ([RequestOpened d], Inl RequestNotOpened)
      | Some p \<Rightarrow>
          (if \<not> pendingMatchesApprovalDraft (au_openTime au) p d ApprovalSourceUser
              \<or> p_ExpiresAt p \<noteq> zero_time \<and> \<not> au_openTime au < p_ExpiresAt p
           then ([RequestOpened d], Inl RequestInvalid)
           else case au_await au (au_sessionID au) (p_ID p) of
             None \<Rightarrow> ([RequestOpened d], Inl ApprovalRefused)
           | Some r \<Rightarrow>
               (if rs_ApprovalID r \<noteq> p_ID p \<or> \<not> Allowed r
                  \<or> p_ExpiresAt p \<noteq> zero_time \<and> \<not> au_awaitTime au < p_ExpiresAt p
                then ([RequestOpened d], Inl ApprovalRefused) else ([RequestOpened d], Inr p))))"

definition requestToolApproval ::
    "auth_options \<Rightarrow> tool_use \<Rightarrow> danger_level \<Rightarrow> identity \<Rightarrow> auth_effect list \<times> (auth_denial + pending)" where
  "requestToolApproval au call danger ident =
     (if \<not> au_requester au then ([], Inl NoRequester)
      else if blank (au_sessionID au) then ([], Inl NoSession)
      else
        let d = fullModeApprovalDraft au call ident danger in
        case au_policy au of
          Some policy \<Rightarrow>
            (if sn_Mode policy = ModeFull \<and> (id_Kind ident \<noteq> ExecutorBuiltIn \<or> isHostInteractionTool (tu_Name call)) then
               (case au_issue au d policy of
                  Some p \<Rightarrow>
                    (if pendingMatchesApprovalDraft (au_openTime au) p d ApprovalSourceUserSelectedFull
                     then ([GrantIssued d], Inr p) else ([GrantIssued d], Inl GrantNotIssued))
                | None \<Rightarrow> ([GrantIssued d], Inl GrantNotIssued))
             else request_open au d)
        | None \<Rightarrow> request_open au d)"

section \<open>Proofs for host and plugin tools\<close>

definition validateApprovalProofSource :: "string \<Rightarrow> snapshot \<Rightarrow> bool" where
  "validateApprovalProofSource source policy =
     (if source = ApprovalSourceUser then sn_Mode policy \<noteq> ModeFull
      else if source = ApprovalSourceUserSelectedFull then
        sn_Mode policy = ModeFull \<and> sn_FullSelectionRevision policy \<noteq> 0
        \<and> (if sn_Source policy = SourceUserSelected
           then sn_Revision policy \<noteq> 0 \<and> sn_FullSelectionRevision policy = sn_Revision policy
           else if sn_Source policy = SourceInherited \<or> sn_Source policy = SourceChildRestriction
           then sn_ParentRevision policy \<noteq> 0 \<and> sn_ParentRevision policy = sn_Revision policy
           else False)
      else False)"

definition validateApprovalProofMetadata ::
    "gotime \<Rightarrow> pending \<Rightarrow> string \<Rightarrow> string \<Rightarrow> string \<Rightarrow> string \<Rightarrow> snapshot \<Rightarrow> bool" where
  "validateApprovalProofMetadata now p toolCallID toolName executorID inputDigest policy \<longleftrightarrow>
     ValidateSnapshot policy = Inr ()
     \<and> \<not> blank (p_ID p) \<and> \<not> blank (p_SessionID p) \<and> \<not> blank (p_RunID p) \<and> \<not> blank toolCallID
     \<and> \<not> blank toolName \<and> \<not> blank executorID \<and> \<not> blank (p_InputDigest p)
     \<and> p_ExpiresAt p \<noteq> zero_time \<and> now < p_ExpiresAt p
     \<and> p_ToolCallID p = toolCallID \<and> p_ToolName p = toolName \<and> p_ExecutorID p = executorID
     \<and> p_InputDigest p = inputDigest
     \<and> p_ExecutionPolicyRevision p = sn_Revision policy \<and> p_FullSelectionRevision p = sn_FullSelectionRevision policy
     \<and> validateApprovalProofSource (p_ApprovalSource p) policy"

definition policy_or_zero :: "auth_options \<Rightarrow> snapshot" where
  "policy_or_zero au = (case au_policy au of Some sn \<Rightarrow> sn | None \<Rightarrow> zero_snapshot)"

definition mintHostInteractionApproval :: "auth_options \<Rightarrow> pending \<Rightarrow> tool_use \<Rightarrow> bool" where
  "mintHostInteractionApproval au p call \<longleftrightarrow>
     validateApprovalProofMetadata (au_mintTime au) p (tu_ID call) (p_ToolName p) (p_ExecutorID p)
       (toolInputDigest au (call\<lparr>tu_Name := p_ToolName p\<rparr>)) (policy_or_zero au)
     \<and> p_ExecutorID p = ''builtin:'' @ p_ToolName p \<and> isHostInteractionTool (p_ToolName p) \<and> au_signed au"

definition mintPluginApproval :: "auth_options \<Rightarrow> pending \<Rightarrow> tool_use \<Rightarrow> bool" where
  "mintPluginApproval au p call \<longleftrightarrow>
     validateApprovalProofMetadata (au_mintTime au) p (tu_ID call) (p_ToolName p) (p_ExecutorID p)
       (toolInputDigest au (call\<lparr>tu_Name := p_ToolName p\<rparr>)) (policy_or_zero au)
     \<and> has_prefix (trim_space (p_ExecutorID p)) ''plugin:sha256:'' \<and> au_signed au"

section \<open>The authorization of a call\<close>

definition normalizeDispatchToolCall :: "auth_options \<Rightarrow> tool_use \<Rightarrow> tool_use option" where
  "normalizeDispatchToolCall au call =
     (let raw0 = (if \<not> blank (tu_InputRaw call) then trim_space (tu_InputRaw call) else trim_space (tu_Input call));
          raw = (if raw0 = [] then ''{}'' else raw0)
      in case unmarshal_map (au_decode au raw) of
           None \<Rightarrow> None | Some _ \<Rightarrow> Some (call\<lparr>tu_Input := raw, tu_InputRaw := raw\<rparr>))"

definition planModeTools :: "string list" where
  "planModeTools = [''Read'', ''Glob'', ''Grep'', ''LS'', ''RepoMap'', ''LSP'', ''LoadToolResult'', ''LoadSkill'', ''ReportCompletion'']"

definition IsEgressTool :: "string \<Rightarrow> bool" where
  "IsEgressTool name \<longleftrightarrow> name \<in> set [''WebSearch'', ''WebFetch'', ''WebResearch'', ''HTTPRequest'']"

definition read_only_denial :: "auth_options \<Rightarrow> tool_use \<Rightarrow> identity \<Rightarrow> auth_denial option" where
  "read_only_denial au call ident =
     (case au_policy au of
        None \<Rightarrow> None
      | Some sn \<Rightarrow>
          (if sn_Mode sn \<noteq> ModeReadOnly then None
           else if canonicalPermissionToolName (tu_Name call) \<in> set [''Bash'', ''Git'']
                \<and> \<not> FilesystemIsolation (sn_Capabilities sn) then Some ShellNeedsIsolation
           else if id_Kind ident \<noteq> ExecutorBuiltIn
                \<or> \<not> readOnlyPolicyAllowsBuiltIn (tu_Name call) (au_decode au (tu_Input call)) then Some ReadOnlyEffect
           else None))"

text \<open>The checks before the permission decision, on the normalised call.\<close>

definition boundary_checks :: "auth_options \<Rightarrow> tool_use \<Rightarrow> auth_denial + identity" where
  "boundary_checks au call =
     (if \<not> au_catalog au (tu_Name call) then Inl NotInCatalog
      else case au_schema au (tu_Name call) of None \<Rightarrow> Inl SchemaUnavailable | Some valid \<Rightarrow>
        (if \<not> valid (tu_Input call) then Inl SchemaViolated
         else case au_identity au (tu_Name call) of None \<Rightarrow> Inl IdentityUnavailable | Some ident \<Rightarrow>
           (if \<not> au_identityOk au (tu_Name call) then Inl IdentityCheckFailed
            else if au_planMode au \<and> tu_Name call \<notin> set planModeTools then Inl PlanModeReadOnly
            else if au_offline au \<and> IsEgressTool (tu_Name call) then Inl AirGapped
            else case read_only_denial au call ident of Some d \<Rightarrow> Inl d | None \<Rightarrow>
              (if \<not> au_scope au call then Inl OutOfScope else Inr ident))))"

definition call_permission :: "auth_options \<Rightarrow> tool_use \<Rightarrow> permission_result" where
  "call_permission au call =
     ResolvePermissionWithPolicy (au_fs au) (au_goodPattern au) (tu_Name call) (au_decode au (tu_Input call))
       (au_workDir au) (au_cfg au) (au_rules au call) (au_policy au)"

definition needs_bound_authorization :: "auth_options \<Rightarrow> tool_use \<Rightarrow> identity \<Rightarrow> bool" where
  "needs_bound_authorization au call ident \<longleftrightarrow>
     isHostInteractionTool (tu_Name call) \<or> id_Kind ident = ExecutorPlugin
     \<or> full_mode (au_policy au) \<and> id_Kind ident \<noteq> ExecutorBuiltIn"

text \<open>
  The approvals: one if the decision asks for it, one if the tool must be bound to a call and
  none was given. The empty approval is \<^const>\<open>None\<close>.
\<close>

definition obtain_approval ::
    "auth_options \<Rightarrow> tool_use \<Rightarrow> identity \<Rightarrow> permission_result \<Rightarrow> auth_effect list \<times> (auth_denial + pending option)" where
  "obtain_approval au call ident perm =
     (let (asked, first) = (if re_Decision perm = PermissionApproval
            then (case requestToolApproval au call (re_Danger perm) ident of (es, r) \<Rightarrow> (es, map_sum id Some r))
            else ([], Inr None))
      in case first of Inl d \<Rightarrow> (asked, Inl d) | Inr completed \<Rightarrow>
        (if full_mode (au_policy au) \<and> id_Kind ident = ExecutorOther then (asked, Inl FullModeIdentity)
         else if needs_bound_authorization au call ident
              \<and> (case completed of None \<Rightarrow> True | Some p \<Rightarrow> p_ID p = []) then
           (case requestToolApproval au call (re_Danger perm) ident of (es, r) \<Rightarrow> (asked @ es, map_sum id Some r))
         else (asked, Inr completed)))"

record authorised_call =
  ac_call :: tool_use
  ac_index :: nat
  ac_concurrent :: bool
  ac_danger :: danger_level
  ac_approval :: "pending option"
  ac_hostApproval :: bool
  ac_pluginApproval :: bool
  ac_fullModeGrant :: bool

definition approval_source :: "pending option \<Rightarrow> string" where
  "approval_source a = (case a of Some p \<Rightarrow> p_ApprovalSource p | None \<Rightarrow> [])"

text \<open>After the approvals: the guard, the run's context, the hook and the proofs.\<close>

definition admit ::
    "auth_options \<Rightarrow> nat \<Rightarrow> tool_use \<Rightarrow> identity \<Rightarrow> danger_level \<Rightarrow> pending option \<Rightarrow>
     auth_effect list \<times> (auth_denial + authorised_call)" where
  "admit au i call ident danger completed =
     (let reset = (if approval_source completed = ApprovalSourceUser then [GuardReset] else []);
          host = isHostInteractionTool (tu_Name call);
          plugin = id_Kind ident = ExecutorPlugin;
          minted = (\<lambda>mint. case completed of Some p \<Rightarrow> mint au p call | None \<Rightarrow> False)
      in if \<not> au_live au call then (reset, Inl RunCanceled)
         else let effects = reset @ [HookRan call] in
           if au_hookBlocks au call then (effects, Inl HookBlocked)
           else if host \<and> \<not> minted mintHostInteractionApproval then (effects, Inl HostProofFailed)
           else if plugin \<and> \<not> minted mintPluginApproval then (effects, Inl PluginProofFailed)
           else (effects, Inr \<lparr>ac_call = call, ac_index = i,
             ac_concurrent = IsConcurrencySafe (tu_Name call)
               (case unmarshal_map (au_decode au (tu_Input call)) of Some m \<Rightarrow> m | None \<Rightarrow> Map.empty),
             ac_danger = danger, ac_approval = completed, ac_hostApproval = host, ac_pluginApproval = plugin,
             ac_fullModeGrant = (approval_source completed = ApprovalSourceUserSelectedFull)\<rparr>))"

definition authorize_call ::
    "auth_options \<Rightarrow> nat \<Rightarrow> tool_use \<Rightarrow> auth_effect list \<times> (auth_denial + authorised_call)" where
  "authorize_call au i original =
     (case normalizeDispatchToolCall au original of None \<Rightarrow> ([], Inl InvalidToolInput) | Some call \<Rightarrow>
       (case boundary_checks au call of Inl d \<Rightarrow> ([], Inl d) | Inr ident \<Rightarrow>
         (let perm = call_permission au call in
          if re_Decision perm \<noteq> PermissionDeny \<and> \<not> au_instructions au call then ([], Inl InstructionsPending)
          else if re_Decision perm = PermissionDeny then ([], Inl (PermissionRefused (re_Reason perm)))
          else case obtain_approval au call ident perm of
            (asked, Inl d) \<Rightarrow> (asked, Inl d)
          | (asked, Inr completed) \<Rightarrow>
              (case admit au i call ident (re_Danger perm) completed of (es, r) \<Rightarrow> (asked @ es, r)))))"

text \<open>The loop over the calls of a turn: the effects in order, and the slot of every call.\<close>

definition authorize_all ::
    "auth_options \<Rightarrow> tool_use list \<Rightarrow> auth_effect list \<times> (auth_denial + authorised_call) list" where
  "authorize_all au calls =
     (let rs = map (\<lambda>(i, c). authorize_call au i c) (enumerate 0 calls) in (concat (map fst rs), map snd rs))"

definition queued :: "(auth_denial + authorised_call) list \<Rightarrow> authorised_call list" where
  "queued slots = List.map_filter (\<lambda>s. case s of Inr a \<Rightarrow> Some a | Inl _ \<Rightarrow> None) slots"

section \<open>The dispatcher\<close>

definition prepared_of :: "authorised_call \<Rightarrow> prepared_call" where
  "prepared_of a = \<lparr>pc_index = ac_index a, pc_tool = tu_Name (ac_call a), pc_input = tu_Input (ac_call a)\<rparr>"

text \<open>
  The concurrent calls finish in some order, which \<^verbatim>\<open>order\<close> gives; then the serial ones run as a
  batch. Explicit approvals have reset the guard before. Every slot belongs to the call at its index.
\<close>

definition run_concurrent ::
    "(prepared_call \<Rightarrow> dispatch_world \<Rightarrow> dispatch_world \<times> call_outcome) \<Rightarrow> authorised_call list \<Rightarrow>
     dispatch_world \<times> call_outcome list \<Rightarrow> dispatch_world \<times> call_outcome list" where
  "run_concurrent run calls s =
     foldl (\<lambda>(w, rs) a. case run (prepared_of a) w of (w', r) \<Rightarrow> (w', rs[ac_index a := r])) s calls"

definition dispatchToolCalls ::
    "auth_options \<Rightarrow> dispatch_options \<Rightarrow> (string \<Rightarrow> bool \<times> bool) \<Rightarrow> bool \<Rightarrow>
     (prepared_call \<Rightarrow> dispatch_world \<Rightarrow> dispatch_world \<times> call_outcome) \<Rightarrow>
     (authorised_call list \<Rightarrow> authorised_call list) \<Rightarrow> tool_use list \<Rightarrow> dispatch_world \<Rightarrow>
     auth_effect list \<times> dispatch_world \<times> (auth_denial + call_outcome) list" where
  "dispatchToolCalls au opt ok saved run order calls w =
     (let (effects, slots) = authorize_all au calls;
          n = length calls;
          w0 = (if GuardReset \<in> set effects then w\<lparr>dw_guard := Reset (dw_guard w)\<rparr> else w);
          (w1, read) = run_concurrent run (order (filter ac_concurrent (queued slots))) (w0, replicate n NotRun);
          b = run_batch opt ok saved run n (map prepared_of (filter (\<lambda>a. \<not> ac_concurrent a) (queued slots))) w1
      in (effects, ba_world b,
          map (\<lambda>i. case slots ! i of Inl d \<Rightarrow> Inl d
            | Inr a \<Rightarrow> Inr (if ac_concurrent a then read ! i else ba_results b ! i)) [0..<n]))"

section \<open>What is cleared\<close>

text \<open>
  A user allowed this request, or a full-mode grant was issued for it, and the request is the one
  made for exactly this call: its session, run, identifier, tool, executor, input digest and policy.
\<close>

definition explicitly_approved :: "auth_options \<Rightarrow> tool_use \<Rightarrow> identity \<Rightarrow> danger_level \<Rightarrow> bool" where
  "explicitly_approved au call ident danger \<longleftrightarrow>
     (\<exists>p. let d = fullModeApprovalDraft au call ident danger in
        (au_open au d = Some p \<and> pendingMatchesApprovalDraft (au_openTime au) p d ApprovalSourceUser
           \<and> (\<exists>r. au_await au (au_sessionID au) (p_ID p) = Some r \<and> rs_ApprovalID r = p_ID p \<and> Allowed r))
        \<or> (\<exists>sn. au_policy au = Some sn \<and> sn_Mode sn = ModeFull \<and> au_issue au d sn = Some p
             \<and> pendingMatchesApprovalDraft (au_openTime au) p d ApprovalSourceUserSelectedFull))"

definition read_only_run :: "auth_options \<Rightarrow> bool" where
  "read_only_run au \<longleftrightarrow> (\<exists>sn. au_policy au = Some sn \<and> sn_Mode sn = ModeReadOnly)"

definition cleared :: "auth_options \<Rightarrow> tool_use \<Rightarrow> bool" where
  "cleared au call \<longleftrightarrow>
     au_catalog au (tu_Name call) \<and> (\<exists>valid. au_schema au (tu_Name call) = Some valid \<and> valid (tu_Input call))
     \<and> (au_planMode au \<longrightarrow> tu_Name call \<in> set planModeTools)
     \<and> (au_offline au \<longrightarrow> \<not> IsEgressTool (tu_Name call))
     \<and> (read_only_run au \<longrightarrow> readOnlyPolicyAllowsBuiltIn (tu_Name call) (au_decode au (tu_Input call)))
     \<and> au_scope au call \<and> au_instructions au call
     \<and> \<not> hard_refusal (au_fs au) (au_goodPattern au) (tu_Name call) (au_decode au (tu_Input call)) (au_workDir au)
          ((au_cfg au)\<lparr>pc_AllowExternalPaths := full_mode (au_policy au)\<rparr>)
     \<and> au_rules au call \<noteq> ''deny''
     \<and> (\<exists>ident. au_identity au (tu_Name call) = Some ident \<and> au_identityOk au (tu_Name call)
          \<and> (read_only_run au \<longrightarrow> id_Kind ident = ExecutorBuiltIn)
          \<and> (re_Decision (call_permission au call) = PermissionApproval \<or> isHostInteractionTool (tu_Name call)
               \<or> id_Kind ident = ExecutorPlugin \<or> full_mode (au_policy au) \<and> id_Kind ident \<noteq> ExecutorBuiltIn \<longrightarrow>
             explicitly_approved au call ident (re_Danger (call_permission au call))))"

lemma pending_named: "pendingMatchesApprovalDraft now p d source \<Longrightarrow> p_ID p \<noteq> []"
  by (auto simp: pendingMatchesApprovalDraft_def blank_def)

lemma request_open_approved:
  assumes "request_open au (fullModeApprovalDraft au call ident danger) = (es, Inr p)"
  shows "explicitly_approved au call ident danger \<and> p_ID p \<noteq> []"
proof -
  let ?d = "fullModeApprovalDraft au call ident danger"
  have "au_open au ?d = Some p" "pendingMatchesApprovalDraft (au_openTime au) p ?d ApprovalSourceUser"
      "\<exists>r. au_await au (au_sessionID au) (p_ID p) = Some r \<and> rs_ApprovalID r = p_ID p \<and> Allowed r"
    using assms unfolding request_open_def by (auto split: option.splits if_splits)
  then show ?thesis unfolding explicitly_approved_def Let_def using pending_named by blast
qed

lemma requestToolApproval_approved:
  assumes "requestToolApproval au call danger ident = (es, Inr p)"
  shows "explicitly_approved au call ident danger \<and> p_ID p \<noteq> []"
proof -
  let ?d = "fullModeApprovalDraft au call ident danger"
  consider "request_open au ?d = (es, Inr p)"
    | sn where "au_policy au = Some sn" "sn_Mode sn = ModeFull" "au_issue au ?d sn = Some p"
        "pendingMatchesApprovalDraft (au_openTime au) p ?d ApprovalSourceUserSelectedFull"
    using assms unfolding requestToolApproval_def Let_def by (auto split: option.splits if_splits)
  then show ?thesis
  proof cases
    case 1
    then show ?thesis by (rule request_open_approved)
  next
    case 2
    then show ?thesis unfolding explicitly_approved_def Let_def using pending_named by blast
  qed
qed

lemma obtain_approval_ok:
  assumes "obtain_approval au call ident perm = (es, Inr completed)"
    and "re_Decision perm = PermissionApproval \<or> needs_bound_authorization au call ident"
  shows "explicitly_approved au call ident (re_Danger perm)"
proof -
  obtain es' r where q: "requestToolApproval au call (re_Danger perm) ident = (es', r)" by fastforce
  have "\<exists>p. r = Inr p"
  proof (cases "re_Decision perm = PermissionApproval")
    case True
    with assms(1) q show ?thesis
      by (cases r) (auto simp: obtain_approval_def Let_def split: if_splits)
  next
    case False
    with assms q show ?thesis
      by (cases r) (auto simp: obtain_approval_def Let_def split: if_splits)
  qed
  with q requestToolApproval_approved show ?thesis by blast
qed

lemma boundary_checksD:
  assumes "boundary_checks au call = Inr ident"
  shows "au_catalog au (tu_Name call)" "\<exists>valid. au_schema au (tu_Name call) = Some valid \<and> valid (tu_Input call)"
    "au_identity au (tu_Name call) = Some ident" "au_identityOk au (tu_Name call)"
    "au_planMode au \<Longrightarrow> tu_Name call \<in> set planModeTools" "au_offline au \<Longrightarrow> \<not> IsEgressTool (tu_Name call)"
    "read_only_denial au call ident = None" "au_scope au call"
  using assms unfolding boundary_checks_def by (auto split: if_splits option.splits)

lemma read_only_denial_None:
  assumes "read_only_denial au call ident = None" and "read_only_run au"
  shows "id_Kind ident = ExecutorBuiltIn \<and> readOnlyPolicyAllowsBuiltIn (tu_Name call) (au_decode au (tu_Input call))"
  using assms unfolding read_only_denial_def read_only_run_def by (auto split: if_splits)

lemma not_denied:
  assumes "re_Decision (call_permission au call) \<noteq> PermissionDeny"
  shows "\<not> hard_refusal (au_fs au) (au_goodPattern au) (tu_Name call) (au_decode au (tu_Input call)) (au_workDir au)
      ((au_cfg au)\<lparr>pc_AllowExternalPaths := full_mode (au_policy au)\<rparr>)"
    and "au_rules au call \<noteq> ''deny''"
  using assms unfolding call_permission_def ResolvePermission_cases by (auto split: if_splits)

text \<open>A call that reaches the hook, or the queue, is cleared.\<close>

lemma authorize_call_cleared:
  assumes "authorize_call au i original = (es, r)" and "(\<exists>a. r = Inr a) \<or> (\<exists>c. HookRan c \<in> set es)"
  obtains call where "normalizeDispatchToolCall au original = Some call" "cleared au call"
    "\<And>a. r = Inr a \<Longrightarrow> ac_call a = call \<and> ac_index a = i
       \<and> ac_concurrent a = IsConcurrencySafe (tu_Name call)
           (case unmarshal_map (au_decode au (tu_Input call)) of Some m \<Rightarrow> m | None \<Rightarrow> Map.empty)"
    "\<And>c. HookRan c \<in> set es \<Longrightarrow> c = call"
proof -
  obtain call where call: "normalizeDispatchToolCall au original = Some call"
    using assms by (cases "normalizeDispatchToolCall au original") (auto simp: authorize_call_def)
  obtain ident where ident: "boundary_checks au call = Inr ident"
    using assms call by (cases "boundary_checks au call") (auto simp: authorize_call_def)
  let ?perm = "call_permission au call"
  have perm: "re_Decision ?perm \<noteq> PermissionDeny" "au_instructions au call"
    using assms call ident by (auto simp: authorize_call_def Let_def split: if_splits)
  obtain asked first where asked: "obtain_approval au call ident ?perm = (asked, first)" by fastforce
  have no_hook: "HookRan c \<notin> set asked" for c
  proof -
    have "HookRan c \<notin> set (fst (request_open au d))" for d
      by (auto simp: request_open_def split: option.splits)
    then have "HookRan c \<notin> set (fst (requestToolApproval au call danger ident))" for danger
      by (auto simp: requestToolApproval_def Let_def split: option.splits)
    then have "HookRan c \<notin> set (fst (obtain_approval au call ident ?perm))"
      by (auto simp: obtain_approval_def Let_def split: prod.splits sum.splits if_splits) (metis fst_conv)+
    then show ?thesis by (simp add: asked)
  qed
  obtain completed where completed: "first = Inr completed"
    using assms call ident perm asked no_hook by (cases first) (auto simp: authorize_call_def Let_def)
  obtain es' where admit: "admit au i call ident (re_Danger ?perm) completed = (es', r)" and es: "es = asked @ es'"
    using assms(1) call ident perm asked completed by (auto simp: authorize_call_def Let_def split: prod.splits)
  note b = boundary_checksD [OF ident]
  have "cleared au call"
    unfolding cleared_def using b not_denied [OF perm(1)] perm(2) read_only_denial_None [OF b(7)]
      obtain_approval_ok [OF asked [unfolded completed]]
    by (auto simp: needs_bound_authorization_def)
  moreover have "\<And>c. HookRan c \<in> set es' \<Longrightarrow> c = call"
    using admit by (auto simp: admit_def Let_def split: if_splits)
  moreover have "\<And>a. r = Inr a \<Longrightarrow> ac_call a = call \<and> ac_index a = i
       \<and> ac_concurrent a = IsConcurrencySafe (tu_Name call)
           (case unmarshal_map (au_decode au (tu_Input call)) of Some m \<Rightarrow> m | None \<Rightarrow> Map.empty)"
    using admit by (auto simp: admit_def Let_def split: if_splits)
  ultimately show thesis using call no_hook es by (intro that) auto
qed

text \<open>In plan mode and in read-only mode no cleared call writes a file.\<close>

lemma cleared_writes:
  assumes "cleared au call" and "isFileMutationTool (tu_Name call)"
  shows "\<not> au_planMode au \<and> \<not> read_only_run au"
proof -
  have "tu_Name call \<notin> set planModeTools" using assms(2) unfolding isFileMutationTool_def planModeTools_def by auto
  moreover have "\<not> readOnlyPolicyAllowsBuiltIn (tu_Name call) input" for input
    using assms(2) unfolding isFileMutationTool_def
    by (auto simp: readOnlyPolicyAllowsBuiltIn_def canonicalPermissionToolName_def Let_def)
  ultimately show ?thesis using assms(1) unfolding cleared_def by blast
qed

lemma mutation_not_concurrent: "isFileMutationTool name \<Longrightarrow> \<not> IsConcurrencySafe name m"
  unfolding isFileMutationTool_def by (auto simp: IsConcurrencySafe_def)

section \<open>Soundness of the dispatcher\<close>

lemma authorize_all_slots:
  "length (snd (authorize_all au calls)) = length calls"
  "i < length calls \<Longrightarrow> snd (authorize_all au calls) ! i = snd (authorize_call au i (calls ! i))"
  by (simp_all add: authorize_all_def Let_def nth_enumerate_eq split: prod.split)

lemma authorize_all_effects:
  assumes "e \<in> set (fst (authorize_all au calls))"
  shows "\<exists>i < length calls. e \<in> set (fst (authorize_call au i (calls ! i)))"
  using assms by (auto simp: authorize_all_def Let_def in_set_enumerate_eq)

text \<open>The call at a position, cleared and prepared for execution.\<close>

definition cleared_call :: "auth_options \<Rightarrow> tool_use list \<Rightarrow> prepared_call \<Rightarrow> bool" where
  "cleared_call au calls c \<longleftrightarrow>
     (\<exists>call. pc_index c < length calls \<and> normalizeDispatchToolCall au (calls ! pc_index c) = Some call \<and> cleared au call
        \<and> pc_tool c = tu_Name call \<and> pc_input c = tu_Input call
        \<and> (isFileMutationTool (pc_tool c) \<longrightarrow> \<not> au_planMode au \<and> \<not> read_only_run au))"

lemma slot_cleared:
  assumes "i < length calls" and "snd (authorize_all au calls) ! i = Inr a"
  shows "cleared_call au calls (prepared_of a)" "ac_index a = i"
    "ac_concurrent a \<Longrightarrow> \<not> isFileMutationTool (tu_Name (ac_call a))"
proof -
  obtain es where e: "authorize_call au i (calls ! i) = (es, Inr a)"
    using assms authorize_all_slots(2) by (metis prod.collapse)
  obtain call where call: "normalizeDispatchToolCall au (calls ! i) = Some call" "cleared au call"
      and a: "ac_call a = call \<and> ac_index a = i
       \<and> ac_concurrent a = IsConcurrencySafe (tu_Name call)
           (case unmarshal_map (au_decode au (tu_Input call)) of Some m \<Rightarrow> m | None \<Rightarrow> Map.empty)"
    by (rule authorize_call_cleared [OF e]) auto
  show "cleared_call au calls (prepared_of a)"
    unfolding cleared_call_def prepared_of_def using call a assms(1) cleared_writes by auto
  show "ac_index a = i" "ac_concurrent a \<Longrightarrow> \<not> isFileMutationTool (tu_Name (ac_call a))"
    using a mutation_not_concurrent by metis+
qed

lemma queued_slot:
  assumes "a \<in> set (queued (snd (authorize_all au calls)))"
  shows "\<exists>i < length calls. snd (authorize_all au calls) ! i = Inr a"
proof -
  from assms have "Inr a \<in> set (snd (authorize_all au calls))"
    by (auto simp: queued_def map_filter_def split: sum.splits)
  then show ?thesis by (metis authorize_all_slots(1) in_set_conv_nth)
qed

lemma run_concurrent_cong:
  assumes "\<And>a w. a \<in> set as \<Longrightarrow> run (prepared_of a) w = run' (prepared_of a) w"
  shows "run_concurrent run as s = run_concurrent run' as s"
  unfolding run_concurrent_def by (rule foldl_cong) (auto simp: assms)

lemma run_batch_cong:
  assumes "\<And>c w. c \<in> set calls \<Longrightarrow> run c w = run' c w"
  shows "run_batch opt ok saved run n calls w = run_batch opt ok saved run' n calls w"
proof -
  have "foldl (batch_call opt ok run bl) b calls = foldl (batch_call opt ok run' bl) b calls" for bl b
  proof (rule foldl_cong)
    fix b c
    assume "c \<in> set calls"
    then have "run c = run' c" by (simp add: assms fun_eq_iff)
    then show "batch_call opt ok run bl b c = batch_call opt ok run' bl b c"
      unfolding batch_call_def by (rule ssubst) (rule refl)
  qed simp_all
  then show ?thesis by (simp add: run_batch_def)
qed

lemma dispatch_run_cong:
  assumes "\<forall>xs. set (order xs) \<subseteq> set xs" and "\<forall>c w. cleared_call au calls c \<longrightarrow> run c w = run' c w"
  shows "dispatchToolCalls au opt ok saved run order calls w = dispatchToolCalls au opt ok saved run' order calls w"
proof -
  let ?q = "queued (snd (authorize_all au calls))"
  have same: "run (prepared_of a) w = run' (prepared_of a) w" if "a \<in> set ?q" for a w
    using queued_slot [OF that] slot_cleared(1) assms(2) by blast
  have "run_concurrent run (order (filter ac_concurrent ?q)) s = run_concurrent run' (order (filter ac_concurrent ?q)) s" for s
    using assms(1) same by (intro run_concurrent_cong) (metis filter_is_subset subsetD)
  moreover have "run_batch opt ok saved run n (map prepared_of (filter (\<lambda>a. \<not> ac_concurrent a) ?q)) w1
      = run_batch opt ok saved run' n (map prepared_of (filter (\<lambda>a. \<not> ac_concurrent a) ?q)) w1" for n w1
    using same by (intro run_batch_cong) auto
  ultimately show ?thesis
    by (cases "authorize_all au calls") (simp add: dispatchToolCalls_def)
qed

lemma dispatch_slots:
  assumes "dispatchToolCalls au opt ok saved run order calls w = (effects, w', slots)"
  shows "effects = fst (authorize_all au calls)" "length slots = length calls"
    "i < length calls \<Longrightarrow> slots ! i = Inl d \<longleftrightarrow> snd (authorize_all au calls) ! i = Inl d"
proof -
  show "effects = fst (authorize_all au calls)" "length slots = length calls"
    using assms by (auto simp: dispatchToolCalls_def Let_def split: prod.splits)
  show "slots ! i = Inl d \<longleftrightarrow> snd (authorize_all au calls) ! i = Inl d" if "i < length calls"
    using assms that by (auto simp: dispatchToolCalls_def Let_def split: prod.splits sum.splits)
qed

text \<open>
  C33. The dispatcher is the authorization boundary. In every turn, in whatever order the
  concurrent calls finish: the executor is only ever asked to run cleared calls (an executor that
  behaves differently on all other calls gives the same turn), each result slot belongs to the
  call at its index, a call without a denial was cleared, and a project hook runs only for a
  cleared call. A cleared call is in the catalog, has a valid input and a confirmed executor, is
  allowed by plan mode, the air gap, the read-only mode and the scope, meets no hard limit and no
  deny rule, and where the permission decision asks for it, or the tool acts on the host, comes
  from a plugin or from outside in full mode, a user or a full-mode grant approved exactly this
  call. In plan mode and read-only mode it is neither Write nor Edit.
\<close>

theorem dispatch_runs_only_cleared_calls:
  assumes "\<forall>xs. set (order xs) \<subseteq> set xs"
    and "dispatchToolCalls au opt ok saved run order calls w = (effects, w', slots)"
  shows "(\<forall>run'. (\<forall>c w. cleared_call au calls c \<longrightarrow> run c w = run' c w) \<longrightarrow>
       dispatchToolCalls au opt ok saved run' order calls w = (effects, w', slots))
    \<and> length slots = length calls
    \<and> (\<forall>i < length calls. \<forall>r. slots ! i = Inr r \<longrightarrow> (\<exists>c. cleared_call au calls c \<and> pc_index c = i))
    \<and> (\<forall>call. HookRan call \<in> set effects \<longrightarrow>
         cleared au call \<and> (\<exists>original \<in> set calls. normalizeDispatchToolCall au original = Some call))"
proof (intro conjI allI impI)
  fix run'
  assume "\<forall>c w. cleared_call au calls c \<longrightarrow> run c w = run' c w"
  from dispatch_run_cong [OF assms(1) this, of opt ok saved w] assms(2)
  show "dispatchToolCalls au opt ok saved run' order calls w = (effects, w', slots)" by simp
next
  show "length slots = length calls" by (rule dispatch_slots(2) [OF assms(2)])
next
  fix i r
  assume i: "i < length calls" "slots ! i = Inr r"
  with dispatch_slots(3) [OF assms(2) i(1)] obtain a where a: "snd (authorize_all au calls) ! i = Inr a"
    by (cases "snd (authorize_all au calls) ! i") auto
  from slot_cleared [OF i(1) a] show "\<exists>c. cleared_call au calls c \<and> pc_index c = i"
    by (intro exI [of _ "prepared_of a"]) (simp add: prepared_of_def)
next
  fix call
  assume "HookRan call \<in> set effects"
  then obtain i where i: "i < length calls" and h: "HookRan call \<in> set (fst (authorize_call au i (calls ! i)))"
    using authorize_all_effects dispatch_slots(1) [OF assms(2)] by blast
  obtain es r where e: "authorize_call au i (calls ! i) = (es, r)" by fastforce
  obtain c where "normalizeDispatchToolCall au (calls ! i) = Some c" "cleared au c" "call = c"
    by (rule authorize_call_cleared [OF e]) (use h e in auto)
  with i show "cleared au call" "\<exists>original \<in> set calls. normalizeDispatchToolCall au original = Some call"
    using nth_mem by blast+
qed

text \<open>A turn in plan mode: a Read call, which is cleared, and a Write call, which is not.\<close>

definition demo_auth :: auth_options where
  "demo_auth = \<lparr>au_decode = demo_json, au_digest = id, au_pathJSON = id, au_catalog = (\<lambda>_. True),
     au_schema = (\<lambda>_. Some (\<lambda>_. True)), au_identity = (\<lambda>n. Some \<lparr>id_Kind = ExecutorBuiltIn, id_ExecutorID = ''builtin:'' @ n\<rparr>),
     au_identityOk = (\<lambda>_. True), au_planMode = True, au_offline = False, au_policy = None, au_scope = (\<lambda>_. True),
     au_rules = (\<lambda>_. ''ask''), au_fs = plain_fs, au_goodPattern = (\<lambda>_. True), au_workDir = ''/w'',
     au_cfg = DefaultPermissionConfig, au_instructions = (\<lambda>_. True), au_requester = False, au_open = (\<lambda>_. None),
     au_await = (\<lambda>_ _. None), au_issue = (\<lambda>_ _. None), au_sessionID = ''s'', au_sessionRevision = 1, au_runID = ''r'',
     au_openTime = 0, au_awaitTime = 0, au_mintTime = 0, au_live = (\<lambda>_. True), au_hookBlocks = (\<lambda>_. False), au_signed = True\<rparr>"

definition demo_turn :: "tool_use list" where
  "demo_turn = [\<lparr>tu_ID = ''1'', tu_Name = ''Read'', tu_Input = ''w'', tu_InputRaw = []\<rparr>,
     \<lparr>tu_ID = ''2'', tu_Name = ''Write'', tu_Input = ''w'', tu_InputRaw = []\<rparr>]"

definition demo_dispatch :: "auth_effect list \<times> dispatch_world \<times> (auth_denial + call_outcome) list" where
  "demo_dispatch = dispatchToolCalls demo_auth demo_options (\<lambda>_. (True, True)) True (\<lambda>_ w. (w, CallExecuted (ToolDone (Applied True))))
     rev demo_turn demo_world"

lemma demo_dispatch_slots: "snd (snd demo_dispatch) = [Inr (CallExecuted (ToolDone (Applied True))), Inl PlanModeReadOnly]"
  by code_simp

theorem dispatch_runs_only_cleared_calls_witness:
  "(\<exists>c. cleared_call demo_auth demo_turn c \<and> pc_index c = 0) \<and> length (snd (snd demo_dispatch)) = 2"
proof -
  have "\<forall>xs :: authorised_call list. set (rev xs) \<subseteq> set xs" by simp
  note main = dispatch_runs_only_cleared_calls [OF this, of demo_auth demo_options "\<lambda>_. (True, True)" True
      "\<lambda>_ w. (w, CallExecuted (ToolDone (Applied True)))" demo_turn demo_world
      "fst demo_dispatch" "fst (snd demo_dispatch)" "snd (snd demo_dispatch)", folded demo_dispatch_def, simplified]
  have "length demo_turn = 2" by (simp add: demo_turn_def)
  moreover have "snd (snd demo_dispatch) ! 0 = Inr (CallExecuted (ToolDone (Applied True)))" by (simp add: demo_dispatch_slots)
  ultimately show ?thesis using main by (metis zero_less_numeral)
qed

end
