(* ===== verification/Plan_Record.thy ===== *)
theory Plan_Record
  imports Interfaces
begin

text \<open>
  The revisioned plan of a workstream (\<^verbatim>\<open>internal/workstream/plans.go\<close>): its record with
  the stages and their attempts, the identifiers it may carry, and
  \<^verbatim>\<open>validatePlanRecord\<close>, the check every record passes when it is read and before it is
  written. The JSON text of a definition is not interpreted here: what
  \<^verbatim>\<open>encoding/json\<close> makes of it is the parameter \<^verbatim>\<open>plan_codec\<close>. The lemmas turn the check into
  the facts the transitions need, stage by stage.
\<close>

named_theorems plan_checks \<open>what a valid plan record satisfies\<close>

section \<open>Records\<close>

record plan_evidence =
  evd_Source :: string
  evd_ReceiptDigest :: string
  evd_CriteriaDigest :: string
  evd_VerificationStatus :: string
  evd_CompletionStatus :: string
  evd_RecordedAt :: gotime

record stage_attempt =
  att_RunID :: string
  att_PlanRevision :: uint64
  att_Status :: string
  att_StartedAt :: gotime
  att_FinishedAt :: gotime
  att_VerificationStatus :: string
  att_ReceiptDigest :: string
  att_Evidence :: "plan_evidence option"

record stage_state =
  stg_ID :: string
  stg_Status :: string
  stg_Attempts :: "stage_attempt list"

record stored_plan =
  wpl_Version :: int
  wpl_ID :: string
  wpl_WorkstreamID :: string
  wpl_Revision :: uint64
  wpl_StateRevision :: uint64
  wpl_Status :: string
  wpl_ApprovedRevision :: uint64
  wpl_Definition :: string
  wpl_Stages :: "stage_state list"
  wpl_CreatedAt :: gotime
  wpl_UpdatedAt :: gotime

definition CurrentPlanVersion :: int where "CurrentPlanVersion = 1"
definition maxPlanDefinitionBytes :: nat where "maxPlanDefinitionBytes = 8388608"

definition PlanStatusDraft :: string where "PlanStatusDraft = ''draft''"
definition PlanStatusApproved :: string where "PlanStatusApproved = ''approved''"
definition PlanStatusExecuting :: string where "PlanStatusExecuting = ''executing''"
definition PlanStatusCompleted :: string where "PlanStatusCompleted = ''completed''"
definition PlanStatusFailed :: string where "PlanStatusFailed = ''failed''"
definition PlanStageStatusPending :: string where "PlanStageStatusPending = ''pending''"
definition PlanStageStatusRunning :: string where "PlanStageStatusRunning = ''running''"
definition PlanStageStatusCompleted :: string where "PlanStageStatusCompleted = ''completed''"
definition PlanStageStatusFailed :: string where "PlanStageStatusFailed = ''failed''"
definition PlanStageAttemptRunning :: string where "PlanStageAttemptRunning = ''running''"
definition PlanStageAttemptComplete :: string where "PlanStageAttemptComplete = ''completed''"
definition PlanStageAttemptFailed :: string where "PlanStageAttemptFailed = ''failed''"

lemmas plan_status_defs = PlanStatusDraft_def PlanStatusApproved_def PlanStatusExecuting_def
  PlanStatusCompleted_def PlanStatusFailed_def PlanStageStatusPending_def PlanStageStatusRunning_def
  PlanStageStatusCompleted_def PlanStageStatusFailed_def PlanStageAttemptRunning_def
  PlanStageAttemptComplete_def PlanStageAttemptFailed_def

text \<open>The sentinel errors, with the text that follows them.\<close>

datatype plan_error =
    ErrPlanNotFound string
  | ErrPlanInvalid string
  | ErrPlanCorrupt "plan_error option"
  | ErrPlanConflict string
  | ErrPlanRevisionConflict string
  | ErrPlanTransition string
  | ErrPlanEvidence string
  | PlanStreamError string
  | PlanStorageError string

text \<open>
  What the code relies on of \<^verbatim>\<open>encoding/json\<close>: whether a text is JSON, the stage identifiers and
  the name it decodes from a definition, the text a raw definition has after the record around
  it was written indented and read back, and the same for a string.
\<close>

record plan_codec =
  pcd_valid :: "string \<Rightarrow> bool"
  pcd_stages :: "string \<Rightarrow> string list option"
  pcd_name :: "string \<Rightarrow> string"
  pcd_indent :: "string \<Rightarrow> string"
  pcd_text :: "string \<Rightarrow> string"

section \<open>Identifiers\<close>

definition id_char :: "char \<Rightarrow> bool" where
  "id_char c \<longleftrightarrow> (97 \<le> byte c \<and> byte c \<le> 122) \<or> (65 \<le> byte c \<and> byte c \<le> 90)
     \<or> (48 \<le> byte c \<and> byte c \<le> 57) \<or> c \<in> set ''_.-''"

text \<open>A rune outside ASCII has only bytes that are no identifier character, and gives one dash.\<close>

fun dash_runes :: "(char \<Rightarrow> bool) \<Rightarrow> bool \<Rightarrow> string \<Rightarrow> string" where
  "dash_runes ok prevDash [] = []"
| "dash_runes ok prevDash (c # s) =
     (if ok c then c # dash_runes ok False s
      else if prevDash then dash_runes ok True s else CHR ''-'' # dash_runes ok True s)"

definition sanitizeID :: "string \<Rightarrow> string" where
  "sanitizeID s =
     (let out = trim_left_chars ''.-'' (trim_right_chars ''.-'' (dash_runes id_char False (trim_space s)))
      in if out = [] then ''workstream'' else out)"

definition slug_char :: "char \<Rightarrow> bool" where
  "slug_char c \<longleftrightarrow> (97 \<le> byte c \<and> byte c \<le> 122) \<or> (48 \<le> byte c \<and> byte c \<le> 57) \<or> c = CHR ''_''"

definition slug :: "string \<Rightarrow> string" where
  "slug s =
     (let out = trim_left_chars ''-'' (trim_right_chars ''-'' (dash_runes slug_char False (to_lower (trim_space s))))
      in if out = [] then ''workstream''
         else if length out > 48 then trim_right_chars ''-'' (take 48 out) else out)"

definition path_breakers :: string where
  "path_breakers = [CHR ''/'', CHR 0x5C, CHR 0x00, CHR 0x09, CHR 0x0D, CHR 0x0A]"

definition validPlanID :: "string \<Rightarrow> bool" where
  "validPlanID s \<longleftrightarrow> s \<noteq> [] \<and> length s \<le> 256 \<and> trim_space s = s \<and> s \<noteq> ''.'' \<and> s \<noteq> ''..''
     \<and> sanitizeID s = s \<and> \<not> contains_any_char s path_breakers"

definition validPlanRunID :: "string \<Rightarrow> bool" where
  "validPlanRunID s \<longleftrightarrow> s \<noteq> [] \<and> length s \<le> 256 \<and> trim_space s = s \<and> \<not> contains_any_char s path_breakers"

definition validPlanDigest :: "string \<Rightarrow> bool" where
  "validPlanDigest v \<longleftrightarrow> hex_decodable v \<and> length v = 64 \<and> v = to_lower v"

section \<open>The check of a record\<close>

fun hasPlanStageAttempts :: "stage_state list \<Rightarrow> bool" where
  "hasPlanStageAttempts [] = False"
| "hasPlanStageAttempts (s # ss) = (if stg_Attempts s \<noteq> [] then True else hasPlanStageAttempts ss)"

fun planHasRunningStage :: "stage_state list \<Rightarrow> bool" where
  "planHasRunningStage [] = False"
| "planHasRunningStage (s # ss) = (if stg_Status s = PlanStageStatusRunning then True else planHasRunningStage ss)"

fun planStageIndex :: "stage_state list \<Rightarrow> string \<Rightarrow> nat option" where
  "planStageIndex [] stageID = None"
| "planStageIndex (s # ss) stageID =
     (if stg_ID s = stageID then Some 0 else map_option Suc (planStageIndex ss stageID))"

definition planHasAnyStageState :: "stage_state list \<Rightarrow> string list \<Rightarrow> bool" where
  "planHasAnyStageState stages statuses \<longleftrightarrow> list_ex (\<lambda>s. list_ex (\<lambda>st. stg_Status s = st) statuses) stages"

definition validAcceptanceEvidence :: "plan_evidence \<Rightarrow> bool" where
  "validAcceptanceEvidence e \<longleftrightarrow>
     (evd_Source e = ''agent-receipt'' \<or> evd_Source e = ''team-receipt'')
     \<and> validPlanDigest (evd_ReceiptDigest e) \<and> validPlanDigest (evd_CriteriaDigest e)
     \<and> evd_VerificationStatus e = ''passed'' \<and> evd_CompletionStatus e = ''complete''
     \<and> evd_RecordedAt e \<noteq> zero_time"

fun check_stage_ids :: "string list \<Rightarrow> string list \<Rightarrow> plan_error option" where
  "check_stage_ids seen [] = None"
| "check_stage_ids seen (i # is) =
     (if \<not> validPlanID (trim_space i) \<or> trim_space i \<noteq> i then Some (ErrPlanInvalid ''stage id'')
      else if i \<in> set seen then Some (ErrPlanInvalid ''duplicate stage id'')
      else check_stage_ids (i # seen) is)"

definition planDefinitionStageIDs :: "plan_codec \<Rightarrow> string \<Rightarrow> plan_error + string list" where
  "planDefinitionStageIDs cd d =
     (if d = [] \<or> length d > maxPlanDefinitionBytes \<or> \<not> pcd_valid cd d
      then Inl (ErrPlanInvalid ''definition is missing, malformed, or too large'')
      else case pcd_stages cd d of
          None \<Rightarrow> Inl (ErrPlanInvalid ''decode stages'')
        | Some ids \<Rightarrow> (case check_stage_ids [] ids of Some e \<Rightarrow> Inl e | None \<Rightarrow> Inr ids))"

text \<open>The state an attempt must have; \<^verbatim>\<open>final\<close> says it is the last one of its stage.\<close>

definition attempt_state :: "bool \<Rightarrow> stage_attempt \<Rightarrow> plan_error option" where
  "attempt_state final a =
     (if att_Status a = PlanStageAttemptRunning then
        (if \<not> final \<or> att_FinishedAt a \<noteq> zero_time \<or> att_Evidence a \<noteq> None
         then Some (ErrPlanInvalid ''running attempt state'') else None)
      else if att_Status a = PlanStageAttemptComplete then
        (if \<not> final \<or> att_FinishedAt a = zero_time then Some (ErrPlanInvalid ''completed attempt evidence'')
         else case att_Evidence a of
             None \<Rightarrow> Some (ErrPlanInvalid ''completed attempt evidence'')
           | Some e \<Rightarrow>
               (if att_VerificationStatus a \<noteq> ''passed'' \<or> att_ReceiptDigest a \<noteq> evd_ReceiptDigest e
                   \<or> \<not> validAcceptanceEvidence e
                then Some (ErrPlanInvalid ''completed attempt evidence'') else None))
      else if att_Status a = PlanStageAttemptFailed then
        (if att_FinishedAt a = zero_time \<or> att_Evidence a \<noteq> None
            \<or> att_VerificationStatus a \<notin> set ['''', ''passed'', ''failed'', ''not-run'']
            \<or> (att_ReceiptDigest a \<noteq> [] \<and> \<not> validPlanDigest (att_ReceiptDigest a))
         then Some (ErrPlanInvalid ''failed attempt state'') else None)
      else Some (ErrPlanInvalid ''stage attempt status''))"

text \<open>The loop over the attempts of a stage: the run identifiers seen and the running attempts.\<close>

fun validate_attempts :: "uint64 \<Rightarrow> stage_attempt list \<Rightarrow> string list \<Rightarrow> nat \<Rightarrow> plan_error + string list \<times> nat" where
  "validate_attempts r [] seen n = Inr (seen, n)"
| "validate_attempts r (a # as) seen n =
     (if \<not> validPlanRunID (att_RunID a) \<or> att_PlanRevision a \<noteq> r \<or> att_StartedAt a = zero_time
      then Inl (ErrPlanInvalid ''stage attempt identity'')
      else if att_RunID a \<in> set seen then Inl (ErrPlanInvalid ''duplicate stage attempt run id'')
      else if as \<noteq> [] \<and> att_Status a \<noteq> PlanStageAttemptFailed
      then Inl (ErrPlanInvalid ''non-final attempt must be failed'')
      else case attempt_state (as = []) a of
          Some e \<Rightarrow> Inl e
        | None \<Rightarrow> validate_attempts r as (att_RunID a # seen)
            (if att_Status a = PlanStageAttemptRunning then Suc n else n))"

definition stage_mismatch :: "stage_state \<Rightarrow> bool" where
  "stage_mismatch s \<longleftrightarrow>
     (stg_Status s = PlanStageStatusPending \<and> stg_Attempts s \<noteq> [])
     \<or> (stg_Status s = PlanStageStatusRunning
        \<and> (stg_Attempts s = [] \<or> att_Status (last (stg_Attempts s)) \<noteq> PlanStageAttemptRunning))
     \<or> (stg_Status s = PlanStageStatusCompleted
        \<and> (stg_Attempts s = [] \<or> att_Status (last (stg_Attempts s)) \<noteq> PlanStageAttemptComplete))
     \<or> (stg_Status s = PlanStageStatusFailed
        \<and> (stg_Attempts s = [] \<or> att_Status (last (stg_Attempts s)) \<noteq> PlanStageAttemptFailed))"

text \<open>The loop over the stages, beside the identifiers of the definition.\<close>

fun validate_stages ::
  "uint64 \<Rightarrow> string list \<Rightarrow> stage_state list \<Rightarrow> string list \<Rightarrow> nat \<Rightarrow> plan_error + string list \<times> nat" where
  "validate_stages r (i # is) (s # ss) seen n =
     (if stg_ID s \<noteq> i \<or> \<not> validPlanID (stg_ID s) then Inl (ErrPlanInvalid ''stage identity'')
      else if stg_Status s \<notin> set [PlanStageStatusPending, PlanStageStatusRunning,
                PlanStageStatusCompleted, PlanStageStatusFailed]
      then Inl (ErrPlanInvalid ''stage status'')
      else if length (stg_Attempts s) > 32 then Inl (ErrPlanInvalid ''too many stage attempts'')
      else case validate_attempts r (stg_Attempts s) seen n of
          Inl e \<Rightarrow> Inl e
        | Inr (seen', n') \<Rightarrow>
            (if stage_mismatch s then Inl (ErrPlanInvalid ''stage attempt does not match stage state'')
             else validate_stages r is ss seen' n'))"
| "validate_stages r is ss seen n = Inr (seen, n)"

definition plan_progress_error :: "stored_plan \<Rightarrow> plan_error option" where
  "plan_progress_error p =
     (let stages = wpl_Stages p; status = wpl_Status p in
      if (status = PlanStatusDraft \<or> status = PlanStatusApproved)
         \<and> (hasPlanStageAttempts stages
            \<or> planHasAnyStageState stages [PlanStageStatusRunning, PlanStageStatusCompleted, PlanStageStatusFailed])
      then Some (ErrPlanInvalid ''unexecuted plan has progress'')
      else if status = PlanStatusExecuting \<and> planHasAnyStageState stages [PlanStageStatusFailed]
      then Some (ErrPlanInvalid ''executing plan has failed stage'')
      else if status = PlanStatusFailed
         \<and> (planHasRunningStage stages \<or> \<not> planHasAnyStageState stages [PlanStageStatusFailed])
      then Some (ErrPlanInvalid ''failed plan stage state'')
      else if status = PlanStatusCompleted \<and> list_ex (\<lambda>s. stg_Status s \<noteq> PlanStageStatusCompleted) stages
      then Some (ErrPlanInvalid ''completed plan has incomplete stage'')
      else None)"

definition validatePlanRecord :: "plan_codec \<Rightarrow> stored_plan \<Rightarrow> string \<Rightarrow> string \<Rightarrow> plan_error option" where
  "validatePlanRecord cd p workstreamID planID =
     (if wpl_Version p \<noteq> CurrentPlanVersion \<or> wpl_ID p \<noteq> planID \<or> wpl_WorkstreamID p \<noteq> workstreamID
         \<or> \<not> validPlanID (wpl_ID p) \<or> wpl_Revision p = 0 \<or> wpl_StateRevision p = 0
         \<or> wpl_CreatedAt p = zero_time \<or> wpl_UpdatedAt p = zero_time
      then Some (ErrPlanInvalid ''identity or revision'')
      else if wpl_Status p \<notin> set [PlanStatusDraft, PlanStatusApproved, PlanStatusExecuting,
                PlanStatusCompleted, PlanStatusFailed]
      then Some (ErrPlanInvalid ''status'')
      else if wpl_ApprovedRevision p > wpl_Revision p
         \<or> (wpl_Status p = PlanStatusDraft \<and> wpl_ApprovedRevision p \<noteq> 0)
         \<or> (wpl_Status p \<noteq> PlanStatusDraft \<and> wpl_ApprovedRevision p \<noteq> wpl_Revision p)
      then Some (ErrPlanInvalid ''approval revision'')
      else case planDefinitionStageIDs cd (wpl_Definition p) of
          Inl e \<Rightarrow> Some e
        | Inr ids \<Rightarrow>
            (if length ids \<noteq> length (wpl_Stages p)
             then Some (ErrPlanInvalid ''stage state does not match definition'')
             else case validate_stages (wpl_Revision p) ids (wpl_Stages p) [] 0 of
                 Inl e \<Rightarrow> Some e
               | Inr (_, running) \<Rightarrow>
                   (if running > 1 then Some (ErrPlanInvalid ''multiple stage attempts are running'')
                    else plan_progress_error p)))"

end
