(* ===== verification/Plan_Store.thy ===== *)
theory Plan_Store
  imports Plan_Record "HOL-Library.AList"
begin

text \<open>
  The workstream store (\<^verbatim>\<open>internal/workstream/store.go\<close> and \<^verbatim>\<open>plans.go\<close>): the files of one
  workspace, shared by every \<^verbatim>\<open>Store\<close> of it, and the operations on them, each under the store's
  locks. A plan is read, compared with the revisions the caller names, changed, checked and
  written back. The clock readings of an operation and the outcome of its writes are arguments.
\<close>

section \<open>Workstreams and their files\<close>

record verification_policy =
  vpo_Commands :: "string list"
  vpo_RequiredSignals :: "string list"
  vpo_MaxRepairAttempts :: int

record stream_goal =
  gol_Objective :: string
  gol_AcceptanceCriteria :: "string list"
  gol_Constraints :: "string list"
  gol_DefinitionOfDone :: "string list"
  gol_VerificationPolicy :: verification_policy

record verification_result =
  vrs_Status :: string
  vrs_Source :: string
  vrs_Summary :: string
  vrs_UpdatedAt :: gotime

record workstream =
  wst_Version :: int
  wst_ID :: string
  wst_Title :: string
  wst_Workspace :: string
  wst_Status :: string
  wst_Summary :: string
  wst_NextAction :: string
  wst_Decisions :: "string list"
  wst_OpenQuestions :: "string list"
  wst_Tags :: "string list"
  wst_Goal :: stream_goal
  wst_LastVerification :: verification_result
  wst_CreatedAt :: gotime
  wst_UpdatedAt :: gotime

record timeline_event =
  tev_Version :: int
  tev_ID :: string
  tev_Type :: string
  tev_At :: gotime
  tev_Message :: string
  tev_Data :: "(string \<times> string) list"

record stream_create =
  scr_ID :: string
  scr_Title :: string
  scr_Summary :: string
  scr_NextAction :: string
  scr_Decisions :: "string list"
  scr_Tags :: "string list"
  scr_Goal :: stream_goal

record stream_patch =
  spt_Status :: "string option"
  spt_Summary :: "string option"
  spt_NextAction :: "string option"
  spt_Decisions :: "string list option"
  spt_OpenQuestions :: "string list option"
  spt_Tags :: "string list option"
  spt_Goal :: "stream_goal option"
  spt_LastVerification :: "verification_result option"
  spt_HasDecisions :: bool

text \<open>
  A file is absent, unreadable as the JSON expected, or holds a record. Paths are the sanitized
  identifiers; the directory of the workspace is fixed while the store is in use.
\<close>

record plan_store =
  pst_workspace :: string
  pst_streams :: "string \<Rightarrow> workstream option option"
  pst_plans :: "string \<times> string \<Rightarrow> stored_plan option option"
  pst_timeline :: "string \<Rightarrow> timeline_event list"

text \<open>Outside the module: the file system's resolution of a path, JSON, and the format of times.\<close>

record store_env =
  sen_codec :: plan_codec
  sen_canonical :: "string \<Rightarrow> string"
  sen_format :: "string \<Rightarrow> gotime \<Rightarrow> string"
  sen_stream :: "workstream \<Rightarrow> workstream"

text \<open>The clock readings of one operation, and whether its file operations succeed.\<close>

record op_clock =
  clk_change :: gotime
  clk_update :: gotime
  clk_event :: gotime

record op_io =
  pio_inspect :: bool
  pio_write :: bool
  pio_event :: bool

definition Status_Valid :: "string \<Rightarrow> bool" where
  "Status_Valid s \<longleftrightarrow> s = ''active'' \<or> s = ''blocked'' \<or> s = ''completed'' \<or> s = ''archived''"

definition sameWorkspace :: "store_env \<Rightarrow> string \<Rightarrow> string \<Rightarrow> bool" where
  "sameWorkspace en l r \<longleftrightarrow> sen_canonical en l = sen_canonical en r"

definition getLocked :: "store_env \<Rightarrow> plan_store \<Rightarrow> string \<Rightarrow> plan_error + workstream" where
  "getLocked en st i =
     (if sanitizeID i = [] \<or> sanitizeID i \<noteq> i then Inl (PlanStreamError ''invalid id'')
      else case pst_streams st (sanitizeID i) of
          None \<Rightarrow> Inl (PlanStreamError ''read json'')
        | Some None \<Rightarrow> Inl (PlanStreamError ''parse json'')
        | Some (Some ws) \<Rightarrow>
            (if \<not> sameWorkspace en (wst_Workspace ws) (pst_workspace st)
             then Inl (PlanStreamError ''workspace mismatch'') else Inr ws))"

definition appendEventLocked ::
  "store_env \<Rightarrow> gotime \<Rightarrow> bool \<Rightarrow> string \<Rightarrow> timeline_event \<Rightarrow> plan_store \<Rightarrow> plan_error option \<times> plan_store" where
  "appendEventLocked en now ok i ev st =
     (let ev1 = (if tev_Version ev = 0 then ev\<lparr>tev_Version := 1\<rparr> else ev);
          ev2 = (if tev_At ev1 = zero_time then ev1\<lparr>tev_At := now\<rparr> else ev1);
          ev3 = (if tev_ID ev2 = [] then
                   ev2\<lparr>tev_ID := ''evt_'' @ sen_format en ''20060102T150405.000000000'' (tev_At ev2)\<rparr> else ev2)
      in if ok then (None, st\<lparr>pst_timeline := (pst_timeline st)(sanitizeID i := pst_timeline st (sanitizeID i) @ [ev3])\<rparr>)
         else (Some (PlanStorageError ''append event''), st))"

definition new_event :: "string \<Rightarrow> string \<Rightarrow> (string \<times> string) list \<Rightarrow> timeline_event" where
  "new_event ty msg dat =
     \<lparr>tev_Version = 0, tev_ID = [], tev_Type = ty, tev_At = zero_time, tev_Message = msg, tev_Data = dat\<rparr>"

definition maxWorkstreamDecisions :: nat where "maxWorkstreamDecisions = 64"
definition maxWorkstreamDecisionBytes :: nat where "maxWorkstreamDecisionBytes = 4096"

fun normalize_decisions :: "string list \<Rightarrow> plan_error + string list" where
  "normalize_decisions [] = Inr []"
| "normalize_decisions (d # ds) =
     (if trim_space d = [] then normalize_decisions ds
      else if length (trim_space d) > maxWorkstreamDecisionBytes
      then Inl (PlanStreamError ''each decision must be at most 4096 bytes'')
      else case normalize_decisions ds of Inl e \<Rightarrow> Inl e | Inr r \<Rightarrow> Inr (trim_space d # r))"

definition normalizeDecisionList :: "string list \<Rightarrow> plan_error + string list" where
  "normalizeDecisionList ds =
     (if length ds > maxWorkstreamDecisions then Inl (PlanStreamError ''at most 64 decisions are allowed'')
      else normalize_decisions ds)"

definition newID :: "store_env \<Rightarrow> gotime \<Rightarrow> string \<Rightarrow> string" where
  "newID en now title = ''ws_'' @ sen_format en ''20060102T150405'' now @ ''_'' @ slug title"

definition zero_verification :: verification_result where
  "zero_verification = \<lparr>vrs_Status = [], vrs_Source = [], vrs_Summary = [], vrs_UpdatedAt = zero_time\<rparr>"

definition put_stream :: "store_env \<Rightarrow> string \<Rightarrow> workstream \<Rightarrow> plan_store \<Rightarrow> plan_store" where
  "put_stream en i ws st = st\<lparr>pst_streams := (pst_streams st)(sanitizeID i := Some (Some (sen_stream en ws)))\<rparr>"

definition Create_stream ::
  "store_env \<Rightarrow> op_clock \<Rightarrow> op_io \<Rightarrow> stream_create \<Rightarrow> plan_store \<Rightarrow> (plan_error + workstream) \<times> plan_store" where
  "Create_stream en ck io req st =
     (let title = trim_space (scr_Title req); now = clk_change ck;
          i = (if scr_ID req = [] then newID en now title else sanitizeID (scr_ID req)) in
      if title = [] then (Inl (PlanStreamError ''title is required''), st)
      else if i \<noteq> sanitizeID i then (Inl (PlanStreamError ''invalid id''), st)
      else case normalizeDecisionList (scr_Decisions req) of
          Inl e \<Rightarrow> (Inl e, st)
        | Inr decisions \<Rightarrow>
            if pst_streams st (sanitizeID i) \<noteq> None then (Inl (PlanStreamError ''id already exists''), st)
            else
              let goal = scr_Goal req; vp = gol_VerificationPolicy goal;
                  goal' = (if vpo_MaxRepairAttempts vp = 0
                           then goal\<lparr>gol_VerificationPolicy := vp\<lparr>vpo_MaxRepairAttempts := 2\<rparr>\<rparr> else goal);
                  ws = \<lparr>wst_Version = 1, wst_ID = i, wst_Title = title, wst_Workspace = pst_workspace st,
                    wst_Status = ''active'', wst_Summary = trim_space (scr_Summary req),
                    wst_NextAction = trim_space (scr_NextAction req), wst_Decisions = decisions,
                    wst_OpenQuestions = [], wst_Tags = scr_Tags req, wst_Goal = goal',
                    wst_LastVerification = zero_verification, wst_CreatedAt = now, wst_UpdatedAt = now\<rparr>
              in if \<not> pio_write io then (Inl (PlanStorageError ''write''), st)
                 else case appendEventLocked en (clk_event ck) (pio_event io) i
                     (new_event ''created'' ''Workstream created'' [(''title'', title)]) (put_stream en i ws st) of
                     (Some e, st') \<Rightarrow> (Inl e, st')
                   | (None, st') \<Rightarrow> (Inr ws, st'))"

text \<open>The fields a patch sets, with the record of what it changed.\<close>

definition set_if :: "'a option \<Rightarrow> ('a \<Rightarrow> workstream \<times> (string \<times> string) list \<Rightarrow> workstream \<times> (string \<times> string) list)
    \<Rightarrow> workstream \<times> (string \<times> string) list \<Rightarrow> workstream \<times> (string \<times> string) list" where
  "set_if o1 f s = (case o1 of None \<Rightarrow> s | Some v \<Rightarrow> f v s)"

definition patched :: "gotime \<Rightarrow> stream_patch \<Rightarrow> string list option \<Rightarrow> workstream \<Rightarrow> workstream \<times> (string \<times> string) list" where
  "patched now pt decisions ws =
     (let s1 = set_if (spt_Status pt) (\<lambda>v (w, ch). (w\<lparr>wst_Status := v\<rparr>, AList.update ''status'' v ch)) (ws, []);
          s2 = set_if (spt_Summary pt) (\<lambda>v (w, ch).
                 (w\<lparr>wst_Summary := trim_space v\<rparr>, AList.update ''summary'' (trim_space v) ch)) s1;
          s3 = set_if (spt_NextAction pt) (\<lambda>v (w, ch).
                 (w\<lparr>wst_NextAction := trim_space v\<rparr>, AList.update ''nextAction'' (trim_space v) ch)) s2;
          s4 = set_if decisions (\<lambda>v (w, ch).
                 (w\<lparr>wst_Decisions := v\<rparr>, AList.update ''decisionCount'' (show_nat (length v)) ch)) s3;
          s5 = set_if (spt_OpenQuestions pt) (\<lambda>v (w, ch).
                 (w\<lparr>wst_OpenQuestions := v\<rparr>, AList.update ''openQuestions'' (show_nat (length v)) ch)) s4;
          s6 = set_if (spt_Tags pt) (\<lambda>v (w, ch).
                 (w\<lparr>wst_Tags := v\<rparr>, AList.update ''tags'' (join '','' v) ch)) s5;
          s7 = set_if (spt_Goal pt) (\<lambda>v (w, ch). (w\<lparr>wst_Goal := v\<rparr>, AList.update ''goal'' ''updated'' ch)) s6
      in set_if (spt_LastVerification pt) (\<lambda>v (w, ch).
           (w\<lparr>wst_LastVerification := (if vrs_UpdatedAt v = zero_time then v\<lparr>vrs_UpdatedAt := now\<rparr> else v)\<rparr>,
            AList.update ''verification'' (vrs_Status v) ch)) s7)"

definition Patch_stream ::
  "store_env \<Rightarrow> op_clock \<Rightarrow> op_io \<Rightarrow> string \<Rightarrow> stream_patch \<Rightarrow> plan_store \<Rightarrow> (plan_error + workstream) \<times> plan_store" where
  "Patch_stream en ck io i pt st =
     (case getLocked en st i of
        Inl e \<Rightarrow> (Inl e, st)
      | Inr ws \<Rightarrow>
          (case (if spt_Decisions pt \<noteq> None \<or> spt_HasDecisions pt
                 then map_sum id Some (normalizeDecisionList (case spt_Decisions pt of None \<Rightarrow> [] | Some ds \<Rightarrow> ds))
                 else Inr None) of
             Inl e \<Rightarrow> (Inl e, st)
           | Inr decisions \<Rightarrow>
               if (case spt_Status pt of None \<Rightarrow> False | Some s \<Rightarrow> \<not> Status_Valid s)
               then (Inl (PlanStreamError ''invalid status''), st)
               else
                 let (ws1, changed) = patched (clk_change ck) pt decisions ws;
                     ws2 = ws1\<lparr>wst_UpdatedAt := clk_update ck\<rparr>;
                     ty = (if map_of changed ''verification'' \<noteq> None then ''verification_updated''
                           else if map_of changed ''decisionCount'' \<noteq> None then ''decision_updated'' else ''updated'')
                 in if \<not> pio_write io then (Inl (PlanStorageError ''write''), st)
                    else case appendEventLocked en (clk_event ck) (pio_event io) (wst_ID ws2)
                        (new_event ty ''Workstream updated'' changed) (put_stream en (wst_ID ws2) ws2 st) of
                        (Some e, st') \<Rightarrow> (Inl e, st')
                      | (None, st') \<Rightarrow> (Inr ws2, st')))"

definition AppendEvent ::
  "store_env \<Rightarrow> op_clock \<Rightarrow> op_io \<Rightarrow> string \<Rightarrow> timeline_event \<Rightarrow> plan_store \<Rightarrow> plan_error option \<times> plan_store" where
  "AppendEvent en ck io i ev st =
     (case getLocked en st i of
        Inl e \<Rightarrow> (Some e, st)
      | Inr _ \<Rightarrow> appendEventLocked en (clk_event ck) (pio_event io) i ev st)"

section \<open>Reading and writing plans\<close>

definition stored_attempt :: "plan_codec \<Rightarrow> stage_attempt \<Rightarrow> stage_attempt" where
  "stored_attempt cd a = a\<lparr>att_RunID := pcd_text cd (att_RunID a)\<rparr>"

definition stored_stage :: "plan_codec \<Rightarrow> stage_state \<Rightarrow> stage_state" where
  "stored_stage cd s = s\<lparr>stg_Attempts := map (stored_attempt cd) (stg_Attempts s)\<rparr>"

text \<open>What \<^verbatim>\<open>readJSON\<close> finds in the file \<^verbatim>\<open>writeJSONAtomic\<close> made of a plan.\<close>

definition stored_form :: "plan_codec \<Rightarrow> stored_plan \<Rightarrow> stored_plan" where
  "stored_form cd p = p\<lparr>wpl_Definition := pcd_indent cd (wpl_Definition p),
     wpl_Stages := map (stored_stage cd) (wpl_Stages p)\<rparr>"

definition put_plan :: "plan_codec \<Rightarrow> string \<Rightarrow> string \<Rightarrow> stored_plan \<Rightarrow> plan_store \<Rightarrow> plan_store" where
  "put_plan cd wsid planID p st =
     st\<lparr>pst_plans := (pst_plans st)((sanitizeID wsid, sanitizeID planID) := Some (Some (stored_form cd p)))\<rparr>"

definition readPlanLocked :: "store_env \<Rightarrow> plan_store \<Rightarrow> string \<Rightarrow> string \<Rightarrow> plan_error + stored_plan" where
  "readPlanLocked en st wsid planID =
     (if \<not> validPlanID planID then Inl (ErrPlanInvalid ''plan id'')
      else case pst_plans st (sanitizeID wsid, sanitizeID planID) of
          None \<Rightarrow> Inl (ErrPlanNotFound planID)
        | Some None \<Rightarrow> Inl (ErrPlanCorrupt None)
        | Some (Some p) \<Rightarrow>
            (case validatePlanRecord (sen_codec en) p wsid planID of
               Some e \<Rightarrow> Inl (ErrPlanCorrupt (Some e))
             | None \<Rightarrow> Inr p))"

definition recordPlanEvent ::
  "store_env \<Rightarrow> op_clock \<Rightarrow> op_io \<Rightarrow> string \<Rightarrow> string \<Rightarrow> string \<Rightarrow> (string \<times> string) list \<Rightarrow> plan_store \<Rightarrow> plan_store" where
  "recordPlanEvent en ck io wsid ty msg dat st =
     snd (appendEventLocked en (clk_event ck) (pio_event io) wsid (new_event ty msg dat) st)"

definition GetPlan :: "store_env \<Rightarrow> plan_store \<Rightarrow> string \<Rightarrow> string \<Rightarrow> plan_error + stored_plan" where
  "GetPlan en st wsid planID =
     (let wsid = trim_space wsid in
      case getLocked en st wsid of
        Inl e \<Rightarrow> Inl e
      | Inr _ \<Rightarrow> if \<not> validPlanID planID then Inl (ErrPlanInvalid ''plan id'')
                 else readPlanLocked en st wsid planID)"

section \<open>Creating and revising a plan\<close>

definition newPlanID :: "store_env \<Rightarrow> gotime \<Rightarrow> string \<Rightarrow> string" where
  "newPlanID en now d =
     ''plan_'' @ sen_format en ''20060102T150405.000000000'' now @ ''_'' @ slug (pcd_name (sen_codec en) d)"

definition pending_stage :: "string \<Rightarrow> stage_state" where
  "pending_stage i = \<lparr>stg_ID = i, stg_Status = PlanStageStatusPending, stg_Attempts = []\<rparr>"

definition first_plan :: "string \<Rightarrow> string \<Rightarrow> string \<Rightarrow> string list \<Rightarrow> gotime \<Rightarrow> stored_plan" where
  "first_plan wsid i d ids now =
     \<lparr>wpl_Version = CurrentPlanVersion, wpl_ID = i, wpl_WorkstreamID = wsid, wpl_Revision = 1,
      wpl_StateRevision = 1, wpl_Status = PlanStatusDraft, wpl_ApprovedRevision = 0, wpl_Definition = d,
      wpl_Stages = map pending_stage ids, wpl_CreatedAt = now, wpl_UpdatedAt = now\<rparr>"

definition CreatePlan ::
  "store_env \<Rightarrow> op_clock \<Rightarrow> op_io \<Rightarrow> string \<Rightarrow> string \<Rightarrow> string \<Rightarrow> plan_store \<Rightarrow> (plan_error + stored_plan) \<times> plan_store" where
  "CreatePlan en ck io wsid reqID d st =
     (let wsid = trim_space wsid; cd = sen_codec en in
      case getLocked en st wsid of
        Inl e \<Rightarrow> (Inl e, st)
      | Inr _ \<Rightarrow>
        (case planDefinitionStageIDs cd d of
           Inl e \<Rightarrow> (Inl e, st)
         | Inr ids \<Rightarrow>
           let i = (if trim_space reqID = [] then newPlanID en (clk_change ck) d else trim_space reqID) in
           if length d > maxPlanDefinitionBytes then (Inl (ErrPlanInvalid ''definition is too large''), st)
           else if \<not> validPlanID i then (Inl (ErrPlanInvalid ''plan id''), st)
           else if \<not> pio_inspect io then (Inl (PlanStorageError ''inspect plan''), st)
           else if pst_plans st (sanitizeID wsid, sanitizeID i) \<noteq> None
           then (Inl (ErrPlanConflict ''plan id already exists''), st)
           else let p = first_plan wsid i d ids (clk_update ck) in
             (case validatePlanRecord cd p wsid i of
                Some e \<Rightarrow> (Inl e, st)
              | None \<Rightarrow>
                  if \<not> pio_write io then (Inl (PlanStorageError ''write''), st)
                  else case appendEventLocked en (clk_event ck) (pio_event io) wsid
                      (new_event ''plan_created'' ''Plan created'' [(''planId'', i), (''revision'', ''1'')])
                      (put_plan cd wsid i p st) of
                      (Some e, st') \<Rightarrow> (Inl e, st')
                    | (None, st') \<Rightarrow> (Inr p, st'))))"

definition revise :: "string \<Rightarrow> string list \<Rightarrow> gotime \<Rightarrow> stored_plan \<Rightarrow> stored_plan" where
  "revise d ids now p = p\<lparr>wpl_Revision := wpl_Revision p + 1, wpl_StateRevision := wpl_StateRevision p + 1,
     wpl_Status := PlanStatusDraft, wpl_ApprovedRevision := 0, wpl_Definition := d,
     wpl_Stages := map pending_stage ids, wpl_UpdatedAt := now\<rparr>"

definition UpdatePlan ::
  "store_env \<Rightarrow> op_clock \<Rightarrow> op_io \<Rightarrow> string \<Rightarrow> string \<Rightarrow> uint64 \<Rightarrow> uint64 \<Rightarrow> string \<Rightarrow> plan_store
     \<Rightarrow> (plan_error + stored_plan) \<times> plan_store" where
  "UpdatePlan en ck io wsid planID expectedRevision expectedStateRevision d st =
     (let wsid = trim_space wsid; cd = sen_codec en in
      case getLocked en st wsid of
        Inl e \<Rightarrow> (Inl e, st)
      | Inr _ \<Rightarrow>
        if \<not> validPlanID planID then (Inl (ErrPlanInvalid ''plan id''), st)
        else (case planDefinitionStageIDs cd d of
           Inl e \<Rightarrow> (Inl e, st)
         | Inr ids \<Rightarrow>
           if length d > maxPlanDefinitionBytes then (Inl (ErrPlanInvalid ''definition is too large''), st)
           else if expectedRevision = 0 \<or> expectedStateRevision = 0
           then (Inl (ErrPlanRevisionConflict ''expected revisions are required''), st)
           else (case readPlanLocked en st wsid planID of
              Inl e \<Rightarrow> (Inl e, st)
            | Inr p \<Rightarrow>
              if wpl_Revision p \<noteq> expectedRevision \<or> wpl_StateRevision p \<noteq> expectedStateRevision
              then (Inl (ErrPlanRevisionConflict ''stale plan state''), st)
              else if wpl_Status p \<noteq> PlanStatusDraft \<and> wpl_Status p \<noteq> PlanStatusApproved
              then (Inl (ErrPlanTransition ''definition is immutable after execution starts''), st)
              else if hasPlanStageAttempts (wpl_Stages p)
              then (Inl (ErrPlanTransition ''definition is immutable after execution starts''), st)
              else if wpl_Revision p = - 1 \<or> wpl_StateRevision p = - 1
              then (Inl (ErrPlanRevisionConflict ''revision exhausted''), st)
              else let p' = revise d ids (clk_update ck) p in
                (case validatePlanRecord cd p' wsid planID of
                   Some e \<Rightarrow> (Inl e, st)
                 | None \<Rightarrow>
                     if \<not> pio_write io then (Inl (PlanStorageError ''write''), st)
                     else (Inr p', recordPlanEvent en ck io wsid ''plan_revised'' ''Plan definition revised''
                             [(''planId'', planID), (''revision'', show_nat (unat (wpl_Revision p')))]
                             (put_plan cd wsid planID p' st))))))"

section \<open>Changing a plan\<close>

type_synonym plan_change = "stored_plan \<Rightarrow> plan_error + (string \<times> string \<times> (string \<times> string) list) \<times> stored_plan"

text \<open>The change of a plan that has been read, and the check of what is written back.\<close>

definition changed_plan ::
  "plan_codec \<Rightarrow> gotime \<Rightarrow> string \<Rightarrow> string \<Rightarrow> uint64 \<Rightarrow> uint64 \<Rightarrow> plan_change \<Rightarrow> stored_plan
     \<Rightarrow> plan_error + (string \<times> string \<times> (string \<times> string) list) \<times> stored_plan" where
  "changed_plan cd now wsid planID expectedRevision expectedStateRevision change p =
     (if wpl_Revision p \<noteq> expectedRevision \<or> wpl_StateRevision p \<noteq> expectedStateRevision
      then Inl (ErrPlanRevisionConflict ''stale plan state'')
      else if wpl_StateRevision p = - 1 then Inl (ErrPlanRevisionConflict ''state revision exhausted'')
      else case change p of
          Inl e \<Rightarrow> Inl e
        | Inr (ev, p1) \<Rightarrow>
            (let p2 = p1\<lparr>wpl_StateRevision := wpl_StateRevision p1 + 1, wpl_UpdatedAt := now\<rparr> in
             case validatePlanRecord cd p2 wsid planID of Some e \<Rightarrow> Inl e | None \<Rightarrow> Inr (ev, p2)))"

definition mutatePlan ::
  "store_env \<Rightarrow> op_clock \<Rightarrow> op_io \<Rightarrow> string \<Rightarrow> string \<Rightarrow> uint64 \<Rightarrow> uint64 \<Rightarrow> plan_change \<Rightarrow> plan_store
     \<Rightarrow> (plan_error + stored_plan) \<times> plan_store" where
  "mutatePlan en ck io wsid planID expectedRevision expectedStateRevision change st =
     (let wsid = trim_space wsid; cd = sen_codec en in
      case getLocked en st wsid of
        Inl e \<Rightarrow> (Inl e, st)
      | Inr _ \<Rightarrow>
        if \<not> validPlanID planID then (Inl (ErrPlanInvalid ''plan id''), st)
        else if expectedRevision = 0 \<or> expectedStateRevision = 0
        then (Inl (ErrPlanRevisionConflict ''expected revisions are required''), st)
        else (case readPlanLocked en st wsid planID of
           Inl e \<Rightarrow> (Inl e, st)
         | Inr p \<Rightarrow>
           (case changed_plan cd (clk_update ck) wsid planID expectedRevision expectedStateRevision change p of
              Inl e \<Rightarrow> (Inl e, st)
            | Inr ((ty, msg, dat), p') \<Rightarrow>
                if \<not> pio_write io then (Inl (PlanStorageError ''write''), st)
                else (Inr p', recordPlanEvent en ck io wsid ty msg
                        (AList.update ''stateRevision'' (show_nat (unat (wpl_StateRevision p')))
                          (AList.update ''revision'' (show_nat (unat (wpl_Revision p')))
                            (AList.update ''planId'' (wpl_ID p') dat)))
                        (put_plan cd wsid planID p' st)))))"

definition approve_change :: plan_change where
  "approve_change p =
     (if wpl_Status p \<noteq> PlanStatusDraft \<or> wpl_ApprovedRevision p \<noteq> 0
      then Inl (ErrPlanTransition ''only a draft plan can be approved'')
      else if wpl_Stages p = [] then Inl (ErrPlanTransition ''plan requires at least one stage'')
      else if hasPlanStageAttempts (wpl_Stages p) then Inl (ErrPlanTransition ''plan already has execution history'')
      else Inr ((''plan_approved'', ''Plan approved'', []),
             p\<lparr>wpl_Status := PlanStatusApproved, wpl_ApprovedRevision := wpl_Revision p\<rparr>))"

definition ApprovePlan where
  "ApprovePlan en ck io wsid planID er es st = mutatePlan en ck io wsid planID er es approve_change st"

definition run_used :: "stage_state list \<Rightarrow> string \<Rightarrow> bool" where
  "run_used stages runID \<longleftrightarrow> list_ex (\<lambda>s. list_ex (\<lambda>a. att_RunID a = runID) (stg_Attempts s)) stages"

definition stage_data :: "stored_plan \<Rightarrow> string \<Rightarrow> string \<Rightarrow> (string \<times> string) list" where
  "stage_data p stageID runID = [(''planId'', wpl_ID p), (''stageId'', stageID), (''runId'', runID)]"

definition started_attempt :: "string \<Rightarrow> uint64 \<Rightarrow> gotime \<Rightarrow> stage_attempt" where
  "started_attempt runID r now =
     \<lparr>att_RunID = runID, att_PlanRevision = r, att_Status = PlanStageAttemptRunning, att_StartedAt = now,
      att_FinishedAt = zero_time, att_VerificationStatus = [], att_ReceiptDigest = [], att_Evidence = None\<rparr>"

definition begin_change :: "gotime \<Rightarrow> string \<Rightarrow> string \<Rightarrow> plan_change" where
  "begin_change now stageID runID p =
     (if wpl_ApprovedRevision p \<noteq> wpl_Revision p
         \<or> (wpl_Status p \<noteq> PlanStatusApproved \<and> wpl_Status p \<noteq> PlanStatusExecuting \<and> wpl_Status p \<noteq> PlanStatusFailed)
      then Inl (ErrPlanTransition ''current plan revision is not approved for execution'')
      else if trim_space (wpl_Status p) = PlanStatusCompleted
      then Inl (ErrPlanTransition ''completed plan is immutable'')
      else if planHasRunningStage (wpl_Stages p) then Inl (ErrPlanTransition ''another stage is already running'')
      else case planStageIndex (wpl_Stages p) stageID of
          None \<Rightarrow> Inl (ErrPlanTransition ''stage does not belong to plan'')
        | Some k \<Rightarrow>
            (let s = wpl_Stages p ! k in
             if stg_Status s \<noteq> PlanStageStatusPending \<and> stg_Status s \<noteq> PlanStageStatusFailed
             then Inl (ErrPlanTransition ''stage is not eligible to run'')
             else if list_ex (\<lambda>q. stg_Status q \<noteq> PlanStageStatusCompleted) (take k (wpl_Stages p))
             then Inl (ErrPlanTransition ''preceding stages are incomplete'')
             else if run_used (wpl_Stages p) runID then Inl (ErrPlanTransition ''run id already used by plan'')
             else if length (stg_Attempts s) \<ge> 32 then Inl (ErrPlanTransition ''stage attempt limit reached'')
             else Inr ((''plan_stage_started'', ''Plan stage started'', stage_data p stageID runID),
                    p\<lparr>wpl_Stages := (wpl_Stages p)[k := s\<lparr>stg_Status := PlanStageStatusRunning,
                         stg_Attempts := stg_Attempts s @ [started_attempt runID (wpl_Revision p) now]\<rparr>],
                      wpl_Status := PlanStatusExecuting\<rparr>)))"

definition BeginPlanStage ::
  "store_env \<Rightarrow> op_clock \<Rightarrow> op_io \<Rightarrow> string \<Rightarrow> string \<Rightarrow> uint64 \<Rightarrow> uint64 \<Rightarrow> string \<Rightarrow> string \<Rightarrow> plan_store
     \<Rightarrow> (plan_error + stored_plan) \<times> plan_store" where
  "BeginPlanStage en ck io wsid planID er es stageID runID st =
     (if \<not> validPlanRunID runID \<or> \<not> validPlanID stageID then (Inl (ErrPlanInvalid ''stage or run id''), st)
      else mutatePlan en ck io wsid planID er es (begin_change (clk_change ck) stageID runID) st)"

record finish_request =
  fin_StageID :: string
  fin_RunID :: string
  fin_Status :: string
  fin_VerificationStatus :: string
  fin_ReceiptDigest :: string
  fin_CriteriaDigest :: string
  fin_EvidenceSource :: string
  fin_CompletionStatus :: string

text \<open>
  The active attempt a result or a reconciliation must name: its stage's index, or the error.
\<close>

definition active_attempt :: "string \<Rightarrow> string \<Rightarrow> string \<Rightarrow> string \<Rightarrow> stored_plan \<Rightarrow> plan_error + nat" where
  "active_attempt none wrong stageID runID p =
     (case planStageIndex (wpl_Stages p) stageID of
        None \<Rightarrow> Inl (ErrPlanTransition ''stage does not belong to plan'')
      | Some k \<Rightarrow>
          (let s = wpl_Stages p ! k; a = last (stg_Attempts s) in
           if wpl_Status p \<noteq> PlanStatusExecuting \<or> stg_Status s \<noteq> PlanStageStatusRunning \<or> stg_Attempts s = []
           then Inl (ErrPlanTransition none)
           else if att_RunID a \<noteq> runID \<or> att_PlanRevision a \<noteq> wpl_Revision p \<or> att_Status a \<noteq> PlanStageAttemptRunning
           then Inl (ErrPlanTransition wrong) else Inr k))"

text \<open>The stage with its last attempt replaced.\<close>

definition close_stage :: "string \<Rightarrow> (stage_attempt \<Rightarrow> stage_attempt) \<Rightarrow> stage_state \<Rightarrow> stage_state" where
  "close_stage status f s = s\<lparr>stg_Status := status,
     stg_Attempts := butlast (stg_Attempts s) @ [f (last (stg_Attempts s))]\<rparr>"

definition accept_attempt :: "gotime \<Rightarrow> finish_request \<Rightarrow> stage_attempt \<Rightarrow> stage_attempt" where
  "accept_attempt now req a = a\<lparr>att_Status := PlanStageAttemptComplete, att_FinishedAt := now,
     att_VerificationStatus := fin_VerificationStatus req, att_ReceiptDigest := fin_ReceiptDigest req,
     att_Evidence := Some \<lparr>evd_Source = fin_EvidenceSource req, evd_ReceiptDigest = fin_ReceiptDigest req,
       evd_CriteriaDigest = fin_CriteriaDigest req, evd_VerificationStatus = fin_VerificationStatus req,
       evd_CompletionStatus = fin_CompletionStatus req, evd_RecordedAt = now\<rparr>\<rparr>"

definition fail_attempt :: "gotime \<Rightarrow> string \<Rightarrow> string \<Rightarrow> stage_attempt \<Rightarrow> stage_attempt" where
  "fail_attempt now verification receipt a = a\<lparr>att_Status := PlanStageAttemptFailed, att_FinishedAt := now,
     att_VerificationStatus := verification, att_ReceiptDigest := receipt, att_Evidence := None\<rparr>"

definition finish_change :: "gotime \<Rightarrow> finish_request \<Rightarrow> plan_change" where
  "finish_change now req p =
     (case active_attempt ''stage has no active attempt'' ''result does not match active attempt''
             (fin_StageID req) (fin_RunID req) p of
        Inl e \<Rightarrow> Inl e
      | Inr k \<Rightarrow>
        if fin_Status req = PlanStageStatusCompleted then
          (if fin_VerificationStatus req \<noteq> ''passed'' \<or> fin_CompletionStatus req \<noteq> ''complete''
              \<or> \<not> validPlanDigest (fin_ReceiptDigest req) \<or> \<not> validPlanDigest (fin_CriteriaDigest req)
              \<or> (fin_EvidenceSource req \<noteq> ''agent-receipt'' \<and> fin_EvidenceSource req \<noteq> ''team-receipt'')
           then Inl (ErrPlanEvidence ''completed stage requires verified receipt evidence'')
           else let stages = (wpl_Stages p)[k := close_stage PlanStageStatusCompleted (accept_attempt now req) (wpl_Stages p ! k)]
             in Inr ((''plan_stage_completed'', ''Plan stage completed with verified evidence'',
                      stage_data p (fin_StageID req) (fin_RunID req)),
                  p\<lparr>wpl_Stages := stages,
                    wpl_Status := (if list_all (\<lambda>s. stg_Status s = PlanStageStatusCompleted) stages
                                   then PlanStatusCompleted else wpl_Status p)\<rparr>))
        else
          let verification = (if fin_VerificationStatus req = [] then ''not-run'' else fin_VerificationStatus req) in
          if verification \<notin> set [''passed'', ''failed'', ''not-run''] then Inl (ErrPlanInvalid ''verification status'')
          else if fin_ReceiptDigest req \<noteq> [] \<and> \<not> validPlanDigest (fin_ReceiptDigest req)
          then Inl (ErrPlanEvidence ''receipt digest'')
          else Inr ((''plan_stage_failed'', ''Plan stage failed verification or execution'',
                     stage_data p (fin_StageID req) (fin_RunID req) @ [(''verification'', verification)]),
                 p\<lparr>wpl_Stages := (wpl_Stages p)[k := close_stage PlanStageStatusFailed
                       (fail_attempt now verification (fin_ReceiptDigest req)) (wpl_Stages p ! k)],
                   wpl_Status := PlanStatusFailed\<rparr>))"

definition FinishPlanStage ::
  "store_env \<Rightarrow> op_clock \<Rightarrow> op_io \<Rightarrow> string \<Rightarrow> string \<Rightarrow> uint64 \<Rightarrow> uint64 \<Rightarrow> finish_request \<Rightarrow> plan_store
     \<Rightarrow> (plan_error + stored_plan) \<times> plan_store" where
  "FinishPlanStage en ck io wsid planID er es req st =
     (if fin_Status req \<noteq> PlanStageStatusCompleted \<and> fin_Status req \<noteq> PlanStageStatusFailed
      then (Inl (ErrPlanInvalid ''result status''), st)
      else mutatePlan en ck io wsid planID er es (finish_change (clk_change ck) req) st)"

text \<open>A reconciliation leaves the receipt digest of the attempt as it is.\<close>

definition reconcile_change :: "gotime \<Rightarrow> string \<Rightarrow> string \<Rightarrow> plan_change" where
  "reconcile_change now stageID runID p =
     (case active_attempt ''stage has no interrupted attempt'' ''reconciliation does not match active attempt''
             stageID runID p of
        Inl e \<Rightarrow> Inl e
      | Inr k \<Rightarrow>
          Inr ((''plan_stage_reconciled'', ''Interrupted Plan stage reconciled as incomplete'',
                stage_data p stageID runID @ [(''reconciliation'', ''manual''), (''verification'', ''not-run'')]),
             p\<lparr>wpl_Stages := (wpl_Stages p)[k := close_stage PlanStageStatusFailed
                   (\<lambda>a. fail_attempt now ''not-run'' (att_ReceiptDigest a) a) (wpl_Stages p ! k)],
               wpl_Status := PlanStatusFailed\<rparr>))"

definition ReconcilePlanStage ::
  "store_env \<Rightarrow> op_clock \<Rightarrow> op_io \<Rightarrow> string \<Rightarrow> string \<Rightarrow> uint64 \<Rightarrow> uint64 \<Rightarrow> string \<Rightarrow> string \<Rightarrow> bool \<Rightarrow> plan_store
     \<Rightarrow> (plan_error + stored_plan) \<times> plan_store" where
  "ReconcilePlanStage en ck io wsid planID er es stageID runID acknowledged st =
     (if \<not> acknowledged then (Inl (ErrPlanTransition ''manual stopped-run acknowledgement is required''), st)
      else if \<not> validPlanRunID runID \<or> \<not> validPlanID stageID then (Inl (ErrPlanInvalid ''stage or run id''), st)
      else mutatePlan en ck io wsid planID er es (reconcile_change (clk_change ck) stageID runID) st)"

end
