(* ===== verification/Plan_Laws.thy ===== *)
theory Plan_Laws
  imports Plan_Store
begin

text \<open>
  What the check of a plan record says, stage by stage, and what every transition keeps of it.
  On top of the check, which looks at stages one at a time, the stages of a plan that was made by
  the store's own operations run in order: completed stages, then at most one stage that was
  begun, then stages that were not.
\<close>

section \<open>The check, declaratively\<close>

lemma plan_status_distinct [simp]:
  "PlanStatusDraft \<noteq> PlanStatusApproved" "PlanStatusDraft \<noteq> PlanStatusExecuting"
  "PlanStatusDraft \<noteq> PlanStatusCompleted" "PlanStatusDraft \<noteq> PlanStatusFailed"
  "PlanStatusApproved \<noteq> PlanStatusDraft" "PlanStatusApproved \<noteq> PlanStatusExecuting"
  "PlanStatusApproved \<noteq> PlanStatusCompleted" "PlanStatusApproved \<noteq> PlanStatusFailed"
  "PlanStatusExecuting \<noteq> PlanStatusDraft" "PlanStatusExecuting \<noteq> PlanStatusApproved"
  "PlanStatusExecuting \<noteq> PlanStatusCompleted" "PlanStatusExecuting \<noteq> PlanStatusFailed"
  "PlanStatusCompleted \<noteq> PlanStatusDraft" "PlanStatusCompleted \<noteq> PlanStatusApproved"
  "PlanStatusCompleted \<noteq> PlanStatusExecuting" "PlanStatusCompleted \<noteq> PlanStatusFailed"
  "PlanStatusFailed \<noteq> PlanStatusDraft" "PlanStatusFailed \<noteq> PlanStatusApproved"
  "PlanStatusFailed \<noteq> PlanStatusExecuting" "PlanStatusFailed \<noteq> PlanStatusCompleted"
  "PlanStageStatusPending \<noteq> PlanStageStatusRunning" "PlanStageStatusPending \<noteq> PlanStageStatusCompleted"
  "PlanStageStatusPending \<noteq> PlanStageStatusFailed" "PlanStageStatusRunning \<noteq> PlanStageStatusPending"
  "PlanStageStatusRunning \<noteq> PlanStageStatusCompleted" "PlanStageStatusRunning \<noteq> PlanStageStatusFailed"
  "PlanStageStatusCompleted \<noteq> PlanStageStatusPending" "PlanStageStatusCompleted \<noteq> PlanStageStatusRunning"
  "PlanStageStatusCompleted \<noteq> PlanStageStatusFailed" "PlanStageStatusFailed \<noteq> PlanStageStatusPending"
  "PlanStageStatusFailed \<noteq> PlanStageStatusRunning" "PlanStageStatusFailed \<noteq> PlanStageStatusCompleted"
  "PlanStageAttemptRunning \<noteq> PlanStageAttemptComplete" "PlanStageAttemptRunning \<noteq> PlanStageAttemptFailed"
  "PlanStageAttemptComplete \<noteq> PlanStageAttemptRunning" "PlanStageAttemptComplete \<noteq> PlanStageAttemptFailed"
  "PlanStageAttemptFailed \<noteq> PlanStageAttemptRunning" "PlanStageAttemptFailed \<noteq> PlanStageAttemptComplete"
  by (simp_all add: plan_status_defs)

definition attempt_ok :: "uint64 \<Rightarrow> stage_attempt \<Rightarrow> bool" where
  "attempt_ok r a \<longleftrightarrow> validPlanRunID (att_RunID a) \<and> att_PlanRevision a = r \<and> att_StartedAt a \<noteq> zero_time"

fun attempts_ok :: "uint64 \<Rightarrow> stage_attempt list \<Rightarrow> bool" where
  "attempts_ok r [] = True"
| "attempts_ok r (a # as) \<longleftrightarrow> attempt_ok r a \<and> attempt_state (as = []) a = None
     \<and> (as \<noteq> [] \<longrightarrow> att_Status a = PlanStageAttemptFailed) \<and> attempts_ok r as"

definition running_attempt :: "stage_attempt \<Rightarrow> bool" where
  "running_attempt a \<longleftrightarrow> att_Status a = PlanStageAttemptRunning"

definition attempt_runs :: "stage_state \<Rightarrow> string list" where
  "attempt_runs s = map att_RunID (stg_Attempts s)"

definition plan_runs :: "stage_state list \<Rightarrow> string list" where
  "plan_runs ss = concat (map attempt_runs ss)"

lemma validate_attempts_Inr:
  "validate_attempts r as seen n = Inr out \<longleftrightarrow>
     attempts_ok r as \<and> distinct (map att_RunID as) \<and> set (map att_RunID as) \<inter> set seen = {}
     \<and> out = (rev (map att_RunID as) @ seen, n + length (filter running_attempt as))"
proof (induction as arbitrary: seen n)
  case (Cons a as)
  show ?case
    by (auto simp: Cons.IH attempt_ok_def running_attempt_def split: option.splits)
qed auto

definition known_status :: "string \<Rightarrow> bool" where
  "known_status s \<longleftrightarrow> s \<in> set [PlanStageStatusPending, PlanStageStatusRunning, PlanStageStatusCompleted, PlanStageStatusFailed]"

definition stage_ok :: "uint64 \<Rightarrow> stage_state \<Rightarrow> bool" where
  "stage_ok r s \<longleftrightarrow> validPlanID (stg_ID s) \<and> known_status (stg_Status s) \<and> length (stg_Attempts s) \<le> 32
     \<and> attempts_ok r (stg_Attempts s) \<and> \<not> stage_mismatch s"

definition running_stage :: "stage_state \<Rightarrow> bool" where
  "running_stage s \<longleftrightarrow> stg_Status s = PlanStageStatusRunning"

lemma attempts_ok_snoc:
  "attempts_ok r (as @ [a]) \<longleftrightarrow> attempts_ok r as \<and> list_all (\<lambda>b. att_Status b = PlanStageAttemptFailed) as
     \<and> attempt_ok r a \<and> attempt_state True a = None"
  by (induction as) (auto simp: attempt_state_def split: option.splits if_splits)

lemma attempts_ok_last: "attempts_ok r as \<Longrightarrow> as \<noteq> [] \<Longrightarrow>
    attempts_ok r (butlast as) \<and> list_all (\<lambda>b. att_Status b = PlanStageAttemptFailed) (butlast as)
    \<and> attempt_ok r (last as) \<and> attempt_state True (last as) = None"
  by (metis append_butlast_last_id attempts_ok_snoc)

lemma not_running_failed: "list_all (\<lambda>b. att_Status b = PlanStageAttemptFailed) as \<Longrightarrow> filter running_attempt as = []"
  by (auto simp: list_all_iff filter_empty_conv running_attempt_def plan_status_defs)

text \<open>Only the last attempt of a stage can be running, and it is exactly when the stage is.\<close>

lemma running_attempts_of_stage:
  assumes "stage_ok r s"
  shows "length (filter running_attempt (stg_Attempts s)) = (if running_stage s then 1 else 0)"
proof (cases "stg_Attempts s = []")
  case True
  with assms show ?thesis
    by (auto simp: stage_ok_def running_stage_def known_status_def stage_mismatch_def plan_status_defs)
next
  case False
  define b l where "b = butlast (stg_Attempts s)" and "l = last (stg_Attempts s)"
  have s: "stg_Attempts s = b @ [l]" using False by (simp add: b_def l_def)
  have "filter running_attempt b = []"
    using assms s by (intro not_running_failed) (simp add: stage_ok_def attempts_ok_snoc)
  moreover have "running_attempt l \<longleftrightarrow> running_stage s"
    using assms s
    by (auto simp: stage_ok_def running_stage_def running_attempt_def known_status_def stage_mismatch_def plan_status_defs)
  ultimately show ?thesis by (simp add: s)
qed

lemma validate_stages_Inr:
  "length ids = length ss \<Longrightarrow>
   validate_stages r ids ss seen n = Inr out \<longleftrightarrow>
     map stg_ID ss = ids \<and> list_all (stage_ok r) ss \<and> distinct (plan_runs ss) \<and> set (plan_runs ss) \<inter> set seen = {}
     \<and> out = (rev (plan_runs ss) @ seen, n + length (filter running_stage ss))"
proof (induction ids ss arbitrary: seen n rule: list_induct2)
  case Nil
  then show ?case by (auto simp: plan_runs_def)
next
  case (Cons i ids s ss)
  let ?runs = "attempt_runs s"
  let ?m = "length (filter running_attempt (stg_Attempts s))"
  have split: "plan_runs (s # ss) = ?runs @ plan_runs ss" by (simp add: plan_runs_def)
  show ?case
  proof (cases "stg_ID s = i \<and> stage_ok r s \<and> distinct ?runs \<and> set ?runs \<inter> set seen = {}")
    case True
    then have va: "validate_attempts r (stg_Attempts s) seen n = Inr (rev ?runs @ seen, n + ?m)"
      by (simp add: validate_attempts_Inr stage_ok_def attempt_runs_def)
    with True have "validate_stages r (i # ids) (s # ss) seen n = validate_stages r ids ss (rev ?runs @ seen) (n + ?m)"
      by (auto simp: stage_ok_def known_status_def)
    with True show ?thesis
      by (auto simp: Cons.IH split running_attempts_of_stage)
  next
    case False
    have "validate_stages r (i # ids) (s # ss) seen n \<noteq> Inr out"
    proof
      assume "validate_stages r (i # ids) (s # ss) seen n = Inr out"
      then show False
        using False
        by (auto simp: stage_ok_def known_status_def validate_attempts_Inr attempt_runs_def
            split: if_splits sum.splits)
    qed
    with False show ?thesis by (auto simp: split)
  qed
qed

definition plan_head_ok :: "stored_plan \<Rightarrow> string \<Rightarrow> string \<Rightarrow> bool" where
  "plan_head_ok p wsid planID \<longleftrightarrow>
     wpl_Version p = CurrentPlanVersion \<and> wpl_ID p = planID \<and> wpl_WorkstreamID p = wsid \<and> validPlanID planID
     \<and> wpl_Revision p \<noteq> 0 \<and> wpl_StateRevision p \<noteq> 0 \<and> wpl_CreatedAt p \<noteq> zero_time \<and> wpl_UpdatedAt p \<noteq> zero_time
     \<and> wpl_Status p \<in> {PlanStatusDraft, PlanStatusApproved, PlanStatusExecuting, PlanStatusCompleted, PlanStatusFailed}
     \<and> wpl_ApprovedRevision p = (if wpl_Status p = PlanStatusDraft then 0 else wpl_Revision p)"

definition plan_body_ok :: "stored_plan \<Rightarrow> bool" where
  "plan_body_ok p \<longleftrightarrow> list_all (stage_ok (wpl_Revision p)) (wpl_Stages p) \<and> distinct (plan_runs (wpl_Stages p))
     \<and> length (filter running_stage (wpl_Stages p)) \<le> 1 \<and> plan_progress_error p = None"

lemma validatePlanRecord_None:
  "validatePlanRecord cd p wsid planID = None \<longleftrightarrow>
     plan_head_ok p wsid planID \<and> planDefinitionStageIDs cd (wpl_Definition p) = Inr (map stg_ID (wpl_Stages p))
     \<and> plan_body_ok p"
proof (cases "planDefinitionStageIDs cd (wpl_Definition p)")
  case (Inl e)
  then show ?thesis by (simp add: validatePlanRecord_def)
next
  case (Inr ids)
  have head: "\<not> (wpl_Version p \<noteq> CurrentPlanVersion \<or> wpl_ID p \<noteq> planID \<or> wpl_WorkstreamID p \<noteq> wsid
         \<or> \<not> validPlanID (wpl_ID p) \<or> wpl_Revision p = 0 \<or> wpl_StateRevision p = 0
         \<or> wpl_CreatedAt p = zero_time \<or> wpl_UpdatedAt p = zero_time)
      \<and> wpl_Status p \<in> set [PlanStatusDraft, PlanStatusApproved, PlanStatusExecuting, PlanStatusCompleted, PlanStatusFailed]
      \<and> \<not> (wpl_ApprovedRevision p > wpl_Revision p
         \<or> (wpl_Status p = PlanStatusDraft \<and> wpl_ApprovedRevision p \<noteq> 0)
         \<or> (wpl_Status p \<noteq> PlanStatusDraft \<and> wpl_ApprovedRevision p \<noteq> wpl_Revision p))
     \<longleftrightarrow> plan_head_ok p wsid planID"
    by (auto simp: plan_head_ok_def)
  show ?thesis
  proof (cases "plan_head_ok p wsid planID \<and> length ids = length (wpl_Stages p)")
    case True
    then have "validatePlanRecord cd p wsid planID = None \<longleftrightarrow>
        (\<exists>x m. validate_stages (wpl_Revision p) ids (wpl_Stages p) [] 0 = Inr (x, m) \<and> m \<le> 1 \<and> plan_progress_error p = None)"
      using head Inr unfolding validatePlanRecord_def
      by (auto split: sum.splits if_splits)
    also have "\<dots> \<longleftrightarrow> ids = map stg_ID (wpl_Stages p) \<and> plan_body_ok p"
      using True by (auto simp: validate_stages_Inr plan_body_ok_def)
    finally show ?thesis using True Inr by auto
  next
    case False
    then have "validatePlanRecord cd p wsid planID \<noteq> None"
      using head Inr unfolding validatePlanRecord_def by (auto split: if_splits)
    with False Inr show ?thesis by auto
  qed
qed

section \<open>Progress through the stages\<close>

abbreviation completed_stage :: "stage_state \<Rightarrow> bool" where
  "completed_stage s \<equiv> stg_Status s = PlanStageStatusCompleted"

abbreviation pending_stages :: "stage_state list \<Rightarrow> bool" where
  "pending_stages ss \<equiv> list_all (\<lambda>s. stg_Status s = PlanStageStatusPending) ss"

text \<open>Completed stages, then at most one that was begun, then stages that were not.\<close>

fun in_order :: "stage_state list \<Rightarrow> bool" where
  "in_order [] = True"
| "in_order (s # ss) = (if completed_stage s then in_order ss else pending_stages ss)"

definition stage_cursor :: "stage_state list \<Rightarrow> nat" where
  "stage_cursor ss = length (takeWhile completed_stage ss)"

lemma pending_in_order: "pending_stages ss \<Longrightarrow> in_order ss"
  by (induction ss) auto

lemma in_order_split:
  "in_order (pre @ s # post) \<Longrightarrow> \<not> completed_stage s \<Longrightarrow> stg_Status s \<noteq> PlanStageStatusPending
     \<Longrightarrow> list_all completed_stage pre \<and> pending_stages post"
  by (induction pre) (auto split: if_splits)

lemma in_order_after:
  "in_order (pre @ s # post) \<Longrightarrow> list_all completed_stage pre \<Longrightarrow> \<not> completed_stage s \<Longrightarrow> pending_stages post"
  by (induction pre) auto

lemma in_order_build: "list_all completed_stage pre \<Longrightarrow> pending_stages post \<Longrightarrow> in_order (pre @ s # post)"
  by (induction pre) (auto simp: pending_in_order)

lemma stage_cursor_split [simp]:
  "list_all completed_stage pre \<Longrightarrow>
     stage_cursor (pre @ s # post) = (if completed_stage s then Suc (length pre) + stage_cursor post else length pre)"
  by (induction pre) (auto simp: stage_cursor_def)

lemma stage_cursor_pending [simp]: "pending_stages ss \<Longrightarrow> stage_cursor ss = 0"
  by (cases ss) (auto simp: stage_cursor_def)

lemma planStageIndex_Some:
  "planStageIndex ss i = Some k \<Longrightarrow> \<exists>pre s post. ss = pre @ s # post \<and> length pre = k \<and> stg_ID s = i
     \<and> i \<notin> stg_ID ` set pre"
proof (induction ss arbitrary: k)
  case (Cons q ss)
  show ?case
  proof (cases "stg_ID q = i")
    case True
    with Cons.prems show ?thesis by (intro exI [of _ "[]"]) auto
  next
    case False
    with Cons.prems obtain j where j: "planStageIndex ss i = Some j" "k = Suc j" by auto
    from Cons.IH [OF j(1)] obtain pre s post where "ss = pre @ s # post" "length pre = j" "stg_ID s = i" "i \<notin> stg_ID ` set pre"
      by blast
    with j False show ?thesis by (intro exI [of _ "q # pre"] exI [of _ s] exI [of _ post]) auto
  qed
qed simp

lemma planStageIndex_None: "planStageIndex ss i = None \<longleftrightarrow> i \<notin> stg_ID ` set ss"
  by (induction ss) auto

lemma planStageIndex_here: "i \<notin> stg_ID ` set pre \<Longrightarrow> stg_ID s = i \<Longrightarrow> planStageIndex (pre @ s # post) i = Some (length pre)"
  by (induction pre) auto

lemma planHasRunningStage_iff: "planHasRunningStage ss \<longleftrightarrow> (\<exists>s \<in> set ss. running_stage s)"
  by (induction ss) (auto simp: running_stage_def)

lemma hasPlanStageAttempts_iff: "hasPlanStageAttempts ss \<longleftrightarrow> (\<exists>s \<in> set ss. stg_Attempts s \<noteq> [])"
  by (induction ss) auto

lemma planHasAnyStageState_iff: "planHasAnyStageState ss sts \<longleftrightarrow> (\<exists>s \<in> set ss. stg_Status s \<in> set sts)"
  by (auto simp: planHasAnyStageState_def list_ex_iff)

lemma stage_ok_pending: "stage_ok r s \<Longrightarrow> stg_Status s = PlanStageStatusPending \<Longrightarrow> stg_Attempts s = []"
  by (auto simp: stage_ok_def stage_mismatch_def)

lemma stage_ok_last:
  assumes "stage_ok r s" and "stg_Attempts s \<noteq> []"
  shows "list_all (\<lambda>b. att_Status b = PlanStageAttemptFailed) (butlast (stg_Attempts s))"
    and "attempts_ok r (butlast (stg_Attempts s))" and "attempt_ok r (last (stg_Attempts s))"
    and "attempt_state True (last (stg_Attempts s)) = None"
  using attempts_ok_last [of r "stg_Attempts s"] assms by (auto simp: stage_ok_def)

definition progress_ok :: "string \<Rightarrow> stage_state list \<Rightarrow> bool" where
  "progress_ok status ss \<longleftrightarrow>
     (status \<in> {PlanStatusDraft, PlanStatusApproved} \<longrightarrow> pending_stages ss)
     \<and> (status = PlanStatusExecuting \<longrightarrow> list_all (\<lambda>s. stg_Status s \<noteq> PlanStageStatusFailed) ss)
     \<and> (status = PlanStatusFailed \<longrightarrow> list_all (\<lambda>s. \<not> running_stage s) ss
          \<and> list_ex (\<lambda>s. stg_Status s = PlanStageStatusFailed) ss)
     \<and> (status = PlanStatusCompleted \<longrightarrow> list_all completed_stage ss)"

lemma plan_progress_iff:
  assumes "list_all (stage_ok r) (wpl_Stages p)"
  shows "plan_progress_error p = None \<longleftrightarrow> progress_ok (wpl_Status p) (wpl_Stages p)"
proof -
  have quiet: "hasPlanStageAttempts (wpl_Stages p) \<or> planHasAnyStageState (wpl_Stages p)
      [PlanStageStatusRunning, PlanStageStatusCompleted, PlanStageStatusFailed] \<longleftrightarrow> \<not> pending_stages (wpl_Stages p)"
  proof -
    have "stg_Attempts s \<noteq> [] \<or> stg_Status s \<in> {PlanStageStatusRunning, PlanStageStatusCompleted, PlanStageStatusFailed}
        \<longleftrightarrow> stg_Status s \<noteq> PlanStageStatusPending" if "s \<in> set (wpl_Stages p)" for s
      using assms that stage_ok_pending [of r s] by (auto simp: list_all_iff stage_ok_def known_status_def)
    then show ?thesis
      by (auto simp: hasPlanStageAttempts_iff planHasAnyStageState_iff list_all_iff)
  qed
  have failed: "planHasAnyStageState (wpl_Stages p) [PlanStageStatusFailed]
      \<longleftrightarrow> list_ex (\<lambda>s. stg_Status s = PlanStageStatusFailed) (wpl_Stages p)"
    "\<not> list_ex (\<lambda>s. stg_Status s = PlanStageStatusFailed) (wpl_Stages p)
      \<longleftrightarrow> list_all (\<lambda>s. stg_Status s \<noteq> PlanStageStatusFailed) (wpl_Stages p)"
    by (auto simp: planHasAnyStageState_iff list_ex_iff list_all_iff)
  have running: "planHasRunningStage (wpl_Stages p) \<longleftrightarrow> \<not> list_all (\<lambda>s. \<not> running_stage s) (wpl_Stages p)"
    by (auto simp: planHasRunningStage_iff list_all_iff)
  have incomplete: "list_ex (\<lambda>s. \<not> completed_stage s) (wpl_Stages p) \<longleftrightarrow> \<not> list_all completed_stage (wpl_Stages p)"
    by (auto simp: list_ex_iff list_all_iff)
  show ?thesis
    unfolding plan_progress_error_def progress_ok_def Let_def quiet failed(1) running incomplete failed(2) [symmetric]
    by (cases "wpl_Status p = PlanStatusDraft"; cases "wpl_Status p = PlanStatusApproved";
        cases "wpl_Status p = PlanStatusExecuting"; cases "wpl_Status p = PlanStatusFailed"; simp)
qed

lemma plan_body_iff:
  "plan_body_ok p \<longleftrightarrow> list_all (stage_ok (wpl_Revision p)) (wpl_Stages p) \<and> distinct (plan_runs (wpl_Stages p))
     \<and> length (filter running_stage (wpl_Stages p)) \<le> 1 \<and> progress_ok (wpl_Status p) (wpl_Stages p)"
  using plan_progress_iff by (auto simp: plan_body_ok_def)

lemma plan_runs_split [simp]: "plan_runs (pre @ s # post) = plan_runs pre @ attempt_runs s @ plan_runs post"
  by (simp add: plan_runs_def)

lemma no_running: "list_all completed_stage ss \<Longrightarrow> filter running_stage ss = []"
  "pending_stages ss \<Longrightarrow> filter running_stage ss = []"
  by (auto simp: list_all_iff filter_empty_conv running_stage_def)

definition unreported :: "stage_state \<Rightarrow> bool" where
  "unreported s \<longleftrightarrow> (running_stage s \<longrightarrow> att_ReceiptDigest (last (stg_Attempts s)) = [])"

text \<open>
  A plan as the store's own operations leave it: its record passes the check, its stages are in
  order, a running attempt has no receipt yet, and it is executing only while a stage is left.
\<close>

definition plan_good :: "stored_plan \<Rightarrow> bool" where
  "plan_good p \<longleftrightarrow> plan_body_ok p \<and> in_order (wpl_Stages p) \<and> list_all unreported (wpl_Stages p)
     \<and> (wpl_Status p = PlanStatusExecuting \<longrightarrow> \<not> list_all completed_stage (wpl_Stages p))"

text \<open>The stage the work is at was replaced by one whose state the plan's new status allows.\<close>

lemma plan_good_replace:
  assumes good: "plan_good p" and stages: "wpl_Stages p = pre @ s # post"
    and pre: "list_all completed_stage pre" and s: "\<not> completed_stage s"
    and s': "stage_ok (wpl_Revision p) s'" "unreported s'" and runs: "distinct (plan_runs (pre @ s' # post))"
    and q: "wpl_Stages q = pre @ s' # post" "wpl_Revision q = wpl_Revision p"
    and status: "(wpl_Status q = PlanStatusExecuting \<and> running_stage s')
      \<or> (wpl_Status q = PlanStatusExecuting \<and> completed_stage s' \<and> post \<noteq> [])
      \<or> (wpl_Status q = PlanStatusCompleted \<and> completed_stage s' \<and> post = [])
      \<or> (wpl_Status q = PlanStatusFailed \<and> stg_Status s' = PlanStageStatusFailed)"
  shows "plan_good q"
proof -
  have post: "pending_stages post"
    using good pre s by (auto simp: plan_good_def stages intro: in_order_after)
  have ok: "list_all (stage_ok (wpl_Revision q)) (wpl_Stages q)"
    using good s' by (auto simp: plan_good_def plan_body_ok_def stages q)
  have pre_failed: "list_all (\<lambda>s. stg_Status s \<noteq> PlanStageStatusFailed) pre"
    and pre_running: "list_all (\<lambda>s. \<not> running_stage s) pre"
    using pre by (auto simp: list_all_iff running_stage_def)
  have post_failed: "list_all (\<lambda>s. stg_Status s \<noteq> PlanStageStatusFailed) post"
    and post_running: "list_all (\<lambda>s. \<not> running_stage s) post"
    using post by (auto simp: list_all_iff running_stage_def)
  have progress: "progress_ok (wpl_Status q) (wpl_Stages q)"
    using status
  proof (elim disjE conjE)
    assume "wpl_Status q = PlanStatusExecuting" "running_stage s'"
    with pre_failed post_failed show ?thesis by (simp add: progress_ok_def q running_stage_def)
  next
    assume "wpl_Status q = PlanStatusExecuting" "completed_stage s'"
    with pre_failed post_failed show ?thesis by (simp add: progress_ok_def q)
  next
    assume "wpl_Status q = PlanStatusCompleted" "completed_stage s'" "post = []"
    with pre show ?thesis by (simp add: progress_ok_def q)
  next
    assume "wpl_Status q = PlanStatusFailed" "stg_Status s' = PlanStageStatusFailed"
    with pre_running post_running show ?thesis by (simp add: progress_ok_def q running_stage_def)
  qed
  have left: "wpl_Status q = PlanStatusExecuting \<Longrightarrow> \<not> list_all completed_stage (wpl_Stages q)"
    using status post by (cases post) (auto simp: q running_stage_def)
  have "length (filter running_stage (wpl_Stages q)) \<le> 1"
    using no_running pre post by (simp add: q)
  moreover have "list_all unreported (wpl_Stages q)"
    using good s'(2) by (simp add: plan_good_def stages q)
  ultimately show ?thesis
    using ok progress runs left in_order_build [OF pre post] by (simp add: plan_good_def plan_body_iff q)
qed

section \<open>Every transition keeps it\<close>

definition begun_stage :: "gotime \<Rightarrow> string \<Rightarrow> uint64 \<Rightarrow> stage_state \<Rightarrow> stage_state" where
  "begun_stage now runID r s = s\<lparr>stg_Status := PlanStageStatusRunning,
     stg_Attempts := stg_Attempts s @ [started_attempt runID r now]\<rparr>"

lemma begin_change_Inr:
  assumes "begin_change now stageID runID p = Inr (ev, q)"
  obtains pre s post where "wpl_Stages p = pre @ s # post" "list_all completed_stage pre" "stg_ID s = stageID"
    "stg_Status s = PlanStageStatusPending \<or> stg_Status s = PlanStageStatusFailed" "length (stg_Attempts s) < 32"
    "runID \<notin> set (plan_runs (wpl_Stages p))" "wpl_ApprovedRevision p = wpl_Revision p"
    "wpl_Status p \<in> {PlanStatusApproved, PlanStatusExecuting, PlanStatusFailed}"
    "list_all (\<lambda>s. \<not> running_stage s) (wpl_Stages p)"
    "q = p\<lparr>wpl_Stages := pre @ begun_stage now runID (wpl_Revision p) s # post, wpl_Status := PlanStatusExecuting\<rparr>"
    "stageID \<notin> stg_ID ` set pre"
proof -
  obtain k where k: "planStageIndex (wpl_Stages p) stageID = Some k"
    using assms by (auto simp: begin_change_def split: if_splits option.splits)
  obtain pre s post where split: "wpl_Stages p = pre @ s # post" "length pre = k" "stg_ID s = stageID" "stageID \<notin> stg_ID ` set pre"
    using planStageIndex_Some [OF k] by blast
  have at: "wpl_Stages p ! k = s" "take k (wpl_Stages p) = pre"
    and upd: "(wpl_Stages p)[k := t] = pre @ t # post" for t
    using split by auto
  have fresh: "\<not> run_used (wpl_Stages p) runID \<longleftrightarrow> runID \<notin> set (plan_runs (wpl_Stages p))"
    by (auto simp: run_used_def plan_runs_def attempt_runs_def list_ex_iff)
  let ?facts = "(stg_Status s = PlanStageStatusPending \<or> stg_Status s = PlanStageStatusFailed)
    \<and> \<not> list_ex (\<lambda>q. stg_Status q \<noteq> PlanStageStatusCompleted) pre \<and> \<not> run_used (wpl_Stages p) runID
    \<and> length (stg_Attempts s) < 32 \<and> wpl_ApprovedRevision p = wpl_Revision p
    \<and> wpl_Status p \<in> {PlanStatusApproved, PlanStatusExecuting, PlanStatusFailed} \<and> \<not> planHasRunningStage (wpl_Stages p)"
  have facts: ?facts
    using assms by (simp add: begin_change_def k at Let_def split: if_splits)
  then have q: "q = p\<lparr>wpl_Stages := pre @ begun_stage now runID (wpl_Revision p) s # post, wpl_Status := PlanStatusExecuting\<rparr>"
    using assms by (simp add: begin_change_def k at upd Let_def begun_stage_def split: if_splits)
  have "list_all completed_stage pre" "list_all (\<lambda>s. \<not> running_stage s) (wpl_Stages p)"
    using facts by (auto simp: planHasRunningStage_iff list_all_iff list_ex_iff)
  with facts q split fresh show thesis
    by (intro that) simp_all
qed

lemma begun_stage_ok:
  assumes "stage_ok r s" and "stg_Status s = PlanStageStatusPending \<or> stg_Status s = PlanStageStatusFailed"
    and "length (stg_Attempts s) < 32" and "validPlanRunID runID" and "now \<noteq> zero_time"
  shows "stage_ok r (begun_stage now runID r s)"
proof -
  have "list_all (\<lambda>b. att_Status b = PlanStageAttemptFailed) (stg_Attempts s)"
  proof (cases "stg_Attempts s = []")
    case False
    with assms(1,2) have "att_Status (last (stg_Attempts s)) = PlanStageAttemptFailed"
      by (auto simp: stage_ok_def stage_mismatch_def)
    with stage_ok_last(1) [OF assms(1) False] False show ?thesis
      by (cases "stg_Attempts s" rule: rev_cases) simp_all
  qed simp
  moreover have "attempt_ok r (started_attempt runID r now)" "attempt_state True (started_attempt runID r now) = None"
    using assms(4,5) by (simp_all add: attempt_ok_def attempt_state_def started_attempt_def)
  ultimately show ?thesis
    using assms(1,3) by (simp add: stage_ok_def begun_stage_def attempts_ok_snoc known_status_def stage_mismatch_def
        started_attempt_def)
qed

lemma begin_keeps:
  assumes "plan_good p" and "begin_change now stageID runID p = Inr (ev, q)"
    and "validPlanRunID runID" and "now \<noteq> zero_time"
  shows "plan_good q"
  using assms(2)
proof (cases rule: begin_change_Inr)
  case (1 pre s post)
  have all_ok: "list_all (stage_ok (wpl_Revision p)) (wpl_Stages p)" "distinct (plan_runs (wpl_Stages p))"
    using assms(1) by (auto simp: plan_good_def plan_body_ok_def)
  have "stage_ok (wpl_Revision p) (begun_stage now runID (wpl_Revision p) s)"
    using all_ok 1 assms by (intro begun_stage_ok) auto
  moreover have "attempt_runs (begun_stage now runID (wpl_Revision p) s) = attempt_runs s @ [runID]"
    by (simp add: attempt_runs_def begun_stage_def started_attempt_def)
  then have "distinct (plan_runs (pre @ begun_stage now runID (wpl_Revision p) s # post))"
    using all_ok 1 by auto
  moreover have "running_stage (begun_stage now runID (wpl_Revision p) s)" "unreported (begun_stage now runID (wpl_Revision p) s)"
    by (simp_all add: begun_stage_def running_stage_def unreported_def started_attempt_def)
  ultimately show ?thesis
    using 1 by (intro plan_good_replace [OF assms(1) 1(1) 1(2)]) auto
qed

lemma active_attempt_Inr:
  assumes "active_attempt x y stageID runID p = Inr k"
  obtains pre s post where "wpl_Stages p = pre @ s # post" "length pre = k" "stg_ID s = stageID"
    "wpl_Status p = PlanStatusExecuting" "running_stage s" "stg_Attempts s \<noteq> []"
    "att_RunID (last (stg_Attempts s)) = runID" "att_PlanRevision (last (stg_Attempts s)) = wpl_Revision p"
    "att_Status (last (stg_Attempts s)) = PlanStageAttemptRunning" "wpl_Stages p ! k = s"
proof -
  obtain j where j: "planStageIndex (wpl_Stages p) stageID = Some j"
    using assms by (auto simp: active_attempt_def split: option.splits)
  obtain pre s post where split: "wpl_Stages p = pre @ s # post" "length pre = j" "stg_ID s = stageID"
    using planStageIndex_Some [OF j] by blast
  then have "wpl_Stages p ! j = s" by auto
  with j split assms show thesis
    by (intro that) (auto simp: active_attempt_def Let_def running_stage_def split: if_splits)
qed

text \<open>A running stage is the one the work is at, and closing it replaces its last attempt.\<close>

lemma closed_stage_ok:
  assumes s: "stage_ok r s" and ne: "stg_Attempts s \<noteq> []"
    and f: "\<And>a. att_RunID (f a) = att_RunID a" "\<And>a. att_PlanRevision (f a) = att_PlanRevision a"
      "\<And>a. att_StartedAt (f a) = att_StartedAt a"
    and state: "attempt_state True (f (last (stg_Attempts s))) = None"
    and match: "(status = PlanStageStatusCompleted \<and> att_Status (f (last (stg_Attempts s))) = PlanStageAttemptComplete)
      \<or> (status = PlanStageStatusFailed \<and> att_Status (f (last (stg_Attempts s))) = PlanStageAttemptFailed)"
  shows "stage_ok r (close_stage status f s)" and "attempt_runs (close_stage status f s) = attempt_runs s"
proof -
  have "attempt_ok r (f (last (stg_Attempts s)))"
    using stage_ok_last(3) [OF s ne] f by (simp add: attempt_ok_def)
  then show "stage_ok r (close_stage status f s)"
    using s state match stage_ok_last(1,2) [OF s ne]
    by (auto simp: stage_ok_def close_stage_def attempts_ok_snoc known_status_def stage_mismatch_def)
  show "attempt_runs (close_stage status f s) = attempt_runs s"
    using ne f(1) by (cases "stg_Attempts s" rule: rev_cases) (auto simp: attempt_runs_def close_stage_def)
qed

lemma close_keeps:
  assumes good: "plan_good p" and active: "active_attempt x y stageID runID p = Inr k"
    and f: "\<And>a. att_RunID (f a) = att_RunID a" "\<And>a. att_PlanRevision (f a) = att_PlanRevision a"
      "\<And>a. att_StartedAt (f a) = att_StartedAt a"
    and state: "attempt_state True (f (last (stg_Attempts (wpl_Stages p ! k)))) = None"
    and match: "(status = PlanStageStatusCompleted \<and> (\<forall>a. att_Status (f a) = PlanStageAttemptComplete)
        \<and> wpl_Status q = (if list_all completed_stage (wpl_Stages q) then PlanStatusCompleted else PlanStatusExecuting))
      \<or> (status = PlanStageStatusFailed \<and> (\<forall>a. att_Status (f a) = PlanStageAttemptFailed) \<and> wpl_Status q = PlanStatusFailed)"
    and q: "wpl_Stages q = (wpl_Stages p)[k := close_stage status f (wpl_Stages p ! k)]" "wpl_Revision q = wpl_Revision p"
  shows "plan_good q"
  using active
proof (cases rule: active_attempt_Inr)
  case (1 pre s post)
  have s: "\<not> completed_stage s" "stg_Status s \<noteq> PlanStageStatusPending"
    using 1 by (auto simp: running_stage_def)
  have order: "list_all completed_stage pre" "pending_stages post"
    using in_order_split [OF _ s] good 1 by (auto simp: plan_good_def)
  have ok: "list_all (stage_ok (wpl_Revision p)) (wpl_Stages p)" "distinct (plan_runs (wpl_Stages p))"
    using good by (auto simp: plan_good_def plan_body_ok_def)
  have s_ok: "stage_ok (wpl_Revision p) s" and state': "attempt_state True (f (last (stg_Attempts s))) = None"
    using ok 1 state by auto
  have match': "(status = PlanStageStatusCompleted \<and> att_Status (f (last (stg_Attempts s))) = PlanStageAttemptComplete)
      \<or> (status = PlanStageStatusFailed \<and> att_Status (f (last (stg_Attempts s))) = PlanStageAttemptFailed)"
    using match by auto
  note s' = closed_stage_ok [OF s_ok 1(6) f state' match']
  have stages: "wpl_Stages q = pre @ close_stage status f s # post"
    using q 1 by (auto simp: list_update_append)
  have runs: "distinct (plan_runs (pre @ close_stage status f s # post))"
    using ok 1 s' by simp
  have post_pending: "list_all completed_stage post \<longleftrightarrow> post = []"
    using order(2) by (cases post) auto
  have quiet: "unreported (close_stage status f s)"
    using match by (auto simp: unreported_def running_stage_def close_stage_def)
  show ?thesis
    using match order post_pending
    by (intro plan_good_replace [OF good 1(1) order(1) s(1) s'(1) quiet runs stages q(2)])
      (auto simp: close_stage_def stages)
qed

section \<open>The actions on a plan\<close>

text \<open>The changes the store makes to a plan it has read, with the clock reading they take.\<close>

datatype plan_action =
    ActApprove
  | ActBegin gotime string string
  | ActFinish gotime finish_request
  | ActReconcile gotime string string

fun action_change :: "plan_action \<Rightarrow> plan_change" where
  "action_change ActApprove = approve_change"
| "action_change (ActBegin now stageID runID) = begin_change now stageID runID"
| "action_change (ActFinish now req) = finish_change now req"
| "action_change (ActReconcile now stageID runID) = reconcile_change now stageID runID"

fun action_ok :: "plan_action \<Rightarrow> bool" where
  "action_ok ActApprove = True"
| "action_ok (ActBegin now stageID runID) \<longleftrightarrow> now \<noteq> zero_time \<and> validPlanRunID runID"
| "action_ok (ActFinish now req) \<longleftrightarrow> now \<noteq> zero_time"
| "action_ok (ActReconcile now stageID runID) \<longleftrightarrow> now \<noteq> zero_time"

lemma approve_keeps:
  assumes "plan_good p" and "approve_change p = Inr (ev, q)"
  shows "plan_good q"
  using assms by (auto simp: approve_change_def plan_good_def plan_body_iff progress_ok_def split: if_splits)

lemma accepted_state:
  assumes "fin_VerificationStatus req = ''passed''" "fin_CompletionStatus req = ''complete''"
    "validPlanDigest (fin_ReceiptDigest req)" "validPlanDigest (fin_CriteriaDigest req)"
    "fin_EvidenceSource req = ''agent-receipt'' \<or> fin_EvidenceSource req = ''team-receipt''" "now \<noteq> zero_time"
  shows "attempt_state True (accept_attempt now req a) = None"
  using assms by (auto simp: attempt_state_def accept_attempt_def validAcceptanceEvidence_def)

lemma failed_state:
  assumes "verification \<in> set [''passed'', ''failed'', ''not-run'']" "receipt = [] \<or> validPlanDigest receipt" "now \<noteq> zero_time"
  shows "attempt_state True (fail_attempt now verification receipt a) = None"
  using assms by (auto simp: attempt_state_def fail_attempt_def)

text \<open>What a result does to the plan, for each of its two outcomes.\<close>

lemma finish_change_completed:
  assumes "active_attempt ''stage has no active attempt'' ''result does not match active attempt''
      (fin_StageID req) (fin_RunID req) p = Inr k"
    and "fin_Status req = PlanStageStatusCompleted" and "finish_change now req p = Inr (ev, q)"
  shows "fin_VerificationStatus req = ''passed'' \<and> fin_CompletionStatus req = ''complete''
      \<and> validPlanDigest (fin_ReceiptDigest req) \<and> validPlanDigest (fin_CriteriaDigest req)
      \<and> (fin_EvidenceSource req = ''agent-receipt'' \<or> fin_EvidenceSource req = ''team-receipt'')"
    and "q = (let stages = (wpl_Stages p)[k := close_stage PlanStageStatusCompleted (accept_attempt now req) (wpl_Stages p ! k)]
       in p\<lparr>wpl_Stages := stages, wpl_Status := (if list_all completed_stage stages then PlanStatusCompleted else wpl_Status p)\<rparr>)"
  using assms(3) by (simp_all add: finish_change_def assms(1,2) Let_def split: if_splits)

definition reported_verification :: "finish_request \<Rightarrow> string" where
  "reported_verification req = (if fin_VerificationStatus req = [] then ''not-run'' else fin_VerificationStatus req)"

lemma finish_change_failed:
  assumes "active_attempt ''stage has no active attempt'' ''result does not match active attempt''
      (fin_StageID req) (fin_RunID req) p = Inr k"
    and "fin_Status req \<noteq> PlanStageStatusCompleted" and "finish_change now req p = Inr (ev, q)"
  shows "reported_verification req \<in> set [''passed'', ''failed'', ''not-run'']"
    and "fin_ReceiptDigest req = [] \<or> validPlanDigest (fin_ReceiptDigest req)"
    and "q = p\<lparr>wpl_Stages := (wpl_Stages p)[k := close_stage PlanStageStatusFailed
        (fail_attempt now (reported_verification req) (fin_ReceiptDigest req)) (wpl_Stages p ! k)], wpl_Status := PlanStatusFailed\<rparr>"
proof -
  let ?v = "reported_verification req"
  have eq: "finish_change now req p =
     (if ?v \<notin> set [''passed'', ''failed'', ''not-run''] then Inl (ErrPlanInvalid ''verification status'')
      else if fin_ReceiptDigest req \<noteq> [] \<and> \<not> validPlanDigest (fin_ReceiptDigest req) then Inl (ErrPlanEvidence ''receipt digest'')
      else Inr ((''plan_stage_failed'', ''Plan stage failed verification or execution'',
                 stage_data p (fin_StageID req) (fin_RunID req) @ [(''verification'', ?v)]),
             p\<lparr>wpl_Stages := (wpl_Stages p)[k := close_stage PlanStageStatusFailed
                   (fail_attempt now ?v (fin_ReceiptDigest req)) (wpl_Stages p ! k)], wpl_Status := PlanStatusFailed\<rparr>))"
    unfolding finish_change_def assms(1) reported_verification_def Let_def using assms(2) by simp
  show "?v \<in> set [''passed'', ''failed'', ''not-run'']"
    using assms(3) unfolding eq by (cases "?v \<in> set [''passed'', ''failed'', ''not-run'']") simp_all
  then show "fin_ReceiptDigest req = [] \<or> validPlanDigest (fin_ReceiptDigest req)"
    "q = p\<lparr>wpl_Stages := (wpl_Stages p)[k := close_stage PlanStageStatusFailed
        (fail_attempt now ?v (fin_ReceiptDigest req)) (wpl_Stages p ! k)], wpl_Status := PlanStatusFailed\<rparr>"
    using assms(3) unfolding eq by (simp_all del: list.set split: if_splits)
qed

lemma finish_keeps:
  assumes good: "plan_good p" and change: "finish_change now req p = Inr (ev, q)" and now: "now \<noteq> zero_time"
  shows "plan_good q"
proof -
  obtain k where k: "active_attempt ''stage has no active attempt'' ''result does not match active attempt''
      (fin_StageID req) (fin_RunID req) p = Inr k"
    using change by (auto simp: finish_change_def split: sum.splits)
  have executing: "wpl_Status p = PlanStatusExecuting"
    using k by (rule active_attempt_Inr)
  show ?thesis
  proof (cases "fin_Status req = PlanStageStatusCompleted")
    case True
    note accepted = finish_change_completed [OF k True change]
    show ?thesis
      using accepted(1) now executing
      by (intro close_keeps [OF good k, where f = "accept_attempt now req" and status = PlanStageStatusCompleted])
        (simp_all add: accepted_state accepted(2) Let_def, simp_all add: accept_attempt_def)
  next
    case False
    note failed = finish_change_failed [OF k False change]
    show ?thesis
      using failed_state [OF failed(1,2) now]
      by (intro close_keeps [OF good k, where f = "fail_attempt now (reported_verification req) (fin_ReceiptDigest req)"
            and status = PlanStageStatusFailed]) (simp_all add: failed(3), simp_all add: fail_attempt_def)
  qed
qed

lemma reconcile_keeps:
  assumes good: "plan_good p" and change: "reconcile_change now stageID runID p = Inr (ev, q)" and now: "now \<noteq> zero_time"
  shows "plan_good q"
proof -
  obtain k where k: "active_attempt ''stage has no interrupted attempt'' ''reconciliation does not match active attempt''
      stageID runID p = Inr k"
    using change by (auto simp: reconcile_change_def split: sum.splits)
  then have q: "q = p\<lparr>wpl_Stages := (wpl_Stages p)[k := close_stage PlanStageStatusFailed
      (\<lambda>a. fail_attempt now ''not-run'' (att_ReceiptDigest a) a) (wpl_Stages p ! k)], wpl_Status := PlanStatusFailed\<rparr>"
    using change by (simp add: reconcile_change_def)
  have "att_ReceiptDigest (last (stg_Attempts (wpl_Stages p ! k))) = []"
    using k
  proof (cases rule: active_attempt_Inr)
    case (1 pre s post)
    with good show ?thesis by (simp add: plan_good_def unreported_def)
  qed
  then show ?thesis
    using now
    by (intro close_keeps [OF good k, where f = "\<lambda>a. fail_attempt now ''not-run'' (att_ReceiptDigest a) a"
          and status = PlanStageStatusFailed]) (simp_all add: q failed_state, simp_all add: fail_attempt_def)
qed

text \<open>What no action touches.\<close>

definition same_plan :: "stored_plan \<Rightarrow> stored_plan \<Rightarrow> bool" where
  "same_plan p q \<longleftrightarrow> q = p\<lparr>wpl_Status := wpl_Status q, wpl_ApprovedRevision := wpl_ApprovedRevision q, wpl_Stages := wpl_Stages q\<rparr>
     \<and> map stg_ID (wpl_Stages q) = map stg_ID (wpl_Stages p)"

lemma same_planD:
  assumes "same_plan p q"
  shows "wpl_Version q = wpl_Version p" "wpl_ID q = wpl_ID p" "wpl_WorkstreamID q = wpl_WorkstreamID p"
    "wpl_Revision q = wpl_Revision p" "wpl_StateRevision q = wpl_StateRevision p" "wpl_Definition q = wpl_Definition p"
    "wpl_CreatedAt q = wpl_CreatedAt p" "wpl_UpdatedAt q = wpl_UpdatedAt p"
    "map stg_ID (wpl_Stages q) = map stg_ID (wpl_Stages p)"
proof -
  have eq: "q = p\<lparr>wpl_Status := wpl_Status q, wpl_ApprovedRevision := wpl_ApprovedRevision q, wpl_Stages := wpl_Stages q\<rparr>"
    using assms by (simp add: same_plan_def)
  show "wpl_Version q = wpl_Version p" by (subst eq) simp
  show "wpl_ID q = wpl_ID p" by (subst eq) simp
  show "wpl_WorkstreamID q = wpl_WorkstreamID p" by (subst eq) simp
  show "wpl_Revision q = wpl_Revision p" by (subst eq) simp
  show "wpl_StateRevision q = wpl_StateRevision p" by (subst eq) simp
  show "wpl_Definition q = wpl_Definition p" by (subst eq) simp
  show "wpl_CreatedAt q = wpl_CreatedAt p" by (subst eq) simp
  show "wpl_UpdatedAt q = wpl_UpdatedAt p" by (subst eq) simp
  show "map stg_ID (wpl_Stages q) = map stg_ID (wpl_Stages p)" using assms by (simp add: same_plan_def)
qed

lemma same_planI:
  assumes "q = p\<lparr>wpl_Stages := (wpl_Stages p)[k := s], wpl_Status := x\<rparr>" and "k < length (wpl_Stages p)"
    and "stg_ID s = stg_ID (wpl_Stages p ! k)"
  shows "same_plan p q"
  using assms by (simp add: same_plan_def map_update) (metis list_update_id nth_map)

lemma active_attempt_index: "active_attempt x y i j p = Inr k \<Longrightarrow> k < length (wpl_Stages p)"
  by (erule active_attempt_Inr) auto

lemma finish_active:
  assumes "finish_change now req p = Inr (ev, q)"
  obtains k where "active_attempt ''stage has no active attempt'' ''result does not match active attempt''
      (fin_StageID req) (fin_RunID req) p = Inr k"
  using assms by (auto simp: finish_change_def split: sum.splits)

lemma action_frame:
  assumes "action_change a p = Inr (ev, q)"
  shows "same_plan p q"
proof (cases a)
  case ActApprove
  with assms show ?thesis by (auto simp: approve_change_def same_plan_def split: if_splits)
next
  case (ActBegin now i j)
  with assms have "begin_change now i j p = Inr (ev, q)" by simp
  then show ?thesis
    by (cases rule: begin_change_Inr) (auto simp: same_plan_def begun_stage_def)
next
  case (ActFinish now req)
  with assms have change: "finish_change now req p = Inr (ev, q)" by simp
  then obtain k where k: "active_attempt ''stage has no active attempt'' ''result does not match active attempt''
      (fin_StageID req) (fin_RunID req) p = Inr k" by (rule finish_active)
  show ?thesis
    by (cases "fin_Status req = PlanStageStatusCompleted")
      (rule same_planI [OF finish_change_completed(2) [OF k _ change, unfolded Let_def] active_attempt_index [OF k]],
        simp, simp add: close_stage_def,
       rule same_planI [OF finish_change_failed(3) [OF k _ change] active_attempt_index [OF k]],
        simp, simp add: close_stage_def)
next
  case (ActReconcile now i j)
  with assms obtain k where k: "active_attempt ''stage has no interrupted attempt''
      ''reconciliation does not match active attempt'' i j p = Inr k"
    and q: "q = p\<lparr>wpl_Stages := (wpl_Stages p)[k := close_stage PlanStageStatusFailed
      (\<lambda>a. fail_attempt now ''not-run'' (att_ReceiptDigest a) a) (wpl_Stages p ! k)], wpl_Status := PlanStatusFailed\<rparr>"
    by (auto simp: reconcile_change_def split: sum.splits)
  show ?thesis
    by (rule same_planI [OF q active_attempt_index [OF k]]) (simp add: close_stage_def)
qed

text \<open>An action leaves the plan approved for its revision.\<close>

lemma action_approved:
  assumes "action_change a p = Inr (ev, q)" and "plan_head_ok p wsid planID"
  shows "wpl_Status q \<in> {PlanStatusApproved, PlanStatusExecuting, PlanStatusCompleted, PlanStatusFailed}"
    and "wpl_ApprovedRevision q = wpl_Revision q"
proof -
  have *: "wpl_Status q \<in> {PlanStatusApproved, PlanStatusExecuting, PlanStatusCompleted, PlanStatusFailed}
      \<and> wpl_ApprovedRevision q = wpl_Revision q"
  proof (cases a)
    case ActApprove
    with assms(1) show ?thesis by (auto simp: approve_change_def split: if_splits)
  next
    case (ActBegin now i j)
    with assms have "begin_change now i j p = Inr (ev, q)" by simp
    then show ?thesis by (cases rule: begin_change_Inr) auto
  next
    case (ActFinish now req)
    with assms have change: "finish_change now req p = Inr (ev, q)" by simp
    then obtain k where k: "active_attempt ''stage has no active attempt'' ''result does not match active attempt''
        (fin_StageID req) (fin_RunID req) p = Inr k" by (rule finish_active)
    have executing: "wpl_Status p = PlanStatusExecuting" using k by (rule active_attempt_Inr)
    with assms(2) have appr: "wpl_ApprovedRevision p = wpl_Revision p" by (simp add: plan_head_ok_def)
    show ?thesis
      using finish_change_completed(2) [OF k _ change] finish_change_failed(3) [OF k _ change] executing appr
      by (cases "fin_Status req = PlanStageStatusCompleted") (simp_all add: Let_def)
  next
    case (ActReconcile now i j)
    with assms(1) obtain k where k: "active_attempt ''stage has no interrupted attempt''
        ''reconciliation does not match active attempt'' i j p = Inr k"
      and q: "wpl_Status q = PlanStatusFailed" "wpl_ApprovedRevision q = wpl_ApprovedRevision p" "wpl_Revision q = wpl_Revision p"
      by (auto simp: reconcile_change_def split: sum.splits)
    from k have "wpl_Status p = PlanStatusExecuting" by (rule active_attempt_Inr)
    with assms(2) q show ?thesis by (simp add: plan_head_ok_def)
  qed
  show "wpl_Status q \<in> {PlanStatusApproved, PlanStatusExecuting, PlanStatusCompleted, PlanStatusFailed}"
    and "wpl_ApprovedRevision q = wpl_Revision q"
    using * by auto
qed

lemma action_keeps:
  assumes "plan_good p" and "action_change a p = Inr (ev, q)" and "action_ok a"
  shows "plan_good q"
  using assms by (cases a) (auto intro: approve_keeps begin_keeps finish_keeps reconcile_keeps)

definition plan_ok :: "plan_codec \<Rightarrow> string \<Rightarrow> string \<Rightarrow> stored_plan \<Rightarrow> bool" where
  "plan_ok cd wsid planID p \<longleftrightarrow> validatePlanRecord cd p wsid planID = None \<and> plan_good p"

text \<open>After an action the check of the record succeeds: no accepted change is lost to it.\<close>

lemma action_valid:
  assumes ok: "plan_ok cd wsid planID p" and change: "action_change a p = Inr (ev, q)" and a: "action_ok a"
    and now: "now \<noteq> zero_time" and room: "wpl_StateRevision p \<noteq> - 1"
  shows "plan_ok cd wsid planID (q\<lparr>wpl_StateRevision := wpl_StateRevision q + 1, wpl_UpdatedAt := now\<rparr>)"
proof -
  let ?q = "q\<lparr>wpl_StateRevision := wpl_StateRevision q + 1, wpl_UpdatedAt := now\<rparr>"
  have head: "plan_head_ok p wsid planID" and ids: "planDefinitionStageIDs cd (wpl_Definition p) = Inr (map stg_ID (wpl_Stages p))"
    and good: "plan_good p"
    using ok by (auto simp: plan_ok_def validatePlanRecord_None)
  note same = same_planD [OF action_frame [OF change]]
  have "wpl_StateRevision p + 1 \<noteq> 0" using room by (metis add_eq_0_iff2)
  then have "plan_head_ok ?q wsid planID"
    using head same action_approved [OF change head] now by (auto simp: plan_head_ok_def)
  moreover have gq: "plan_good q" using good change a by (rule action_keeps)
  then have "plan_good ?q"
    by (simp add: plan_good_def plan_body_iff)
  moreover from this have "plan_body_ok ?q" by (simp add: plan_good_def)
  ultimately show ?thesis
    using ids same by (simp add: plan_ok_def validatePlanRecord_None)
qed

lemma changed_plan_Inr:
  assumes "plan_ok cd wsid planID p" and "action_ok a" and "now \<noteq> zero_time"
  shows "changed_plan cd now wsid planID er es (action_change a) p = Inr (ev, q) \<longleftrightarrow>
     er = wpl_Revision p \<and> es = wpl_StateRevision p \<and> es \<noteq> - 1
     \<and> (\<exists>q0. action_change a p = Inr (ev, q0) \<and> q = q0\<lparr>wpl_StateRevision := es + 1, wpl_UpdatedAt := now\<rparr>)"
proof -
  have step: "(case validatePlanRecord cd (q0\<lparr>wpl_StateRevision := wpl_StateRevision q0 + 1, wpl_UpdatedAt := now\<rparr>) wsid planID of
        Some e \<Rightarrow> Inl e | None \<Rightarrow> Inr (ev0, q0\<lparr>wpl_StateRevision := wpl_StateRevision q0 + 1, wpl_UpdatedAt := now\<rparr>))
      = Inr (ev0, q0\<lparr>wpl_StateRevision := wpl_StateRevision p + 1, wpl_UpdatedAt := now\<rparr>)"
    if "action_change a p = Inr (ev0, q0)" "wpl_StateRevision p \<noteq> - 1" for ev0 q0
    using action_valid [OF assms(1) that(1) assms(2,3) that(2)] same_planD(5) [OF action_frame [OF that(1)]]
    by (simp add: plan_ok_def)
  show ?thesis
    by (cases "action_change a p") (auto simp: changed_plan_def Let_def step)
qed

end
