(* ===== verification/Plan_System.thy ===== *)
theory Plan_System
  imports Plan_Laws
begin

text \<open>
  The workstream store as a machine of calls: every call on its plans, its workstreams and its
  timeline, in any order, by any number of clients, each with the clock it reads and the fate of
  its writes. The lemmas lift the laws of a plan to the files of the store.
\<close>

datatype plan_request =
    ReqCreate string string string
  | ReqUpdate string string uint64 uint64 string
  | ReqApprove string string uint64 uint64
  | ReqBegin string string uint64 uint64 string string
  | ReqFinish string string uint64 uint64 finish_request
  | ReqReconcile string string uint64 uint64 string string bool

fun plan_call :: "store_env \<Rightarrow> op_clock \<Rightarrow> op_io \<Rightarrow> plan_request \<Rightarrow> plan_store \<Rightarrow> (plan_error + stored_plan) \<times> plan_store" where
  "plan_call en ck io (ReqCreate wsid i d) = CreatePlan en ck io wsid i d"
| "plan_call en ck io (ReqUpdate wsid i er es d) = UpdatePlan en ck io wsid i er es d"
| "plan_call en ck io (ReqApprove wsid i er es) = ApprovePlan en ck io wsid i er es"
| "plan_call en ck io (ReqBegin wsid i er es s r) = BeginPlanStage en ck io wsid i er es s r"
| "plan_call en ck io (ReqFinish wsid i er es req) = FinishPlanStage en ck io wsid i er es req"
| "plan_call en ck io (ReqReconcile wsid i er es s r b) = ReconcilePlanStage en ck io wsid i er es s r b"

datatype store_event =
    StoreCall op_clock op_io plan_request
  | StoreCreate op_clock op_io stream_create
  | StorePatch op_clock op_io string stream_patch
  | StoreNote op_clock op_io string timeline_event

fun store_step :: "store_env \<Rightarrow> plan_store \<Rightarrow> store_event \<Rightarrow> plan_store" where
  "store_step en st (StoreCall ck io req) = snd (plan_call en ck io req st)"
| "store_step en st (StoreCreate ck io req) = snd (Create_stream en ck io req st)"
| "store_step en st (StorePatch ck io i pt) = snd (Patch_stream en ck io i pt st)"
| "store_step en st (StoreNote ck io i ev) = snd (AppendEvent en ck io i ev st)"

text \<open>
  The laws of \<^verbatim>\<open>encoding/json\<close> the store relies on: a definition it indents stays the same JSON
  text, with the same stages; indenting again changes nothing; valid UTF-8 text is read back as
  it was written.
\<close>

definition json_laws :: "plan_codec \<Rightarrow> bool" where
  "json_laws cd \<longleftrightarrow>
     (\<forall>d. pcd_valid cd d \<longrightarrow> pcd_valid cd (pcd_indent cd d) \<and> pcd_stages cd (pcd_indent cd d) = pcd_stages cd d
        \<and> (d \<noteq> [] \<longrightarrow> pcd_indent cd d \<noteq> []))
     \<and> (\<forall>d. pcd_indent cd (pcd_indent cd d) = pcd_indent cd d)
     \<and> (\<forall>s. valid_utf8 s \<longrightarrow> pcd_text cd s = s)"

definition fits :: "plan_codec \<Rightarrow> string \<Rightarrow> bool" where
  "fits cd d \<longleftrightarrow> length (pcd_indent cd d) \<le> maxPlanDefinitionBytes"

definition clock_ok :: "op_clock \<Rightarrow> bool" where
  "clock_ok ck \<longleftrightarrow> clk_change ck \<noteq> zero_time \<and> clk_update ck \<noteq> zero_time"

fun request_ok :: "plan_codec \<Rightarrow> plan_request \<Rightarrow> bool" where
  "request_ok cd (ReqCreate wsid i d) = fits cd d"
| "request_ok cd (ReqUpdate wsid i er es d) = fits cd d"
| "request_ok cd (ReqBegin wsid i er es s r) = valid_utf8 r"
| "request_ok cd _ = True"

fun event_ok :: "plan_codec \<Rightarrow> store_event \<Rightarrow> bool" where
  "event_ok cd (StoreCall ck io req) \<longleftrightarrow> clock_ok ck \<and> request_ok cd req"
| "event_ok cd _ = True"

section \<open>What a good store holds\<close>

definition plain_plan :: "plan_codec \<Rightarrow> stored_plan \<Rightarrow> bool" where
  "plain_plan cd p \<longleftrightarrow> pcd_indent cd (wpl_Definition p) = wpl_Definition p \<and> list_all valid_utf8 (plan_runs (wpl_Stages p))"

definition file_ok :: "plan_codec \<Rightarrow> string \<times> string \<Rightarrow> stored_plan \<Rightarrow> bool" where
  "file_ok cd k p \<longleftrightarrow> plan_ok cd (fst k) (snd k) p \<and> plain_plan cd p"

definition store_good :: "store_env \<Rightarrow> plan_store \<Rightarrow> bool" where
  "store_good en st \<longleftrightarrow> (\<forall>k f. pst_plans st k = Some f \<longrightarrow> (\<exists>p. f = Some p \<and> file_ok (sen_codec en) k p))"

lemma plan_runs_valid: "list_all valid_utf8 (plan_runs ss) \<longleftrightarrow> (\<forall>s \<in> set ss. \<forall>a \<in> set (stg_Attempts s). valid_utf8 (att_RunID a))"
  by (auto simp: plan_runs_def attempt_runs_def list_all_iff)

lemma stored_stages_same:
  assumes "json_laws cd" and "list_all valid_utf8 (plan_runs ss)"
  shows "map (stored_stage cd) ss = ss"
proof -
  have "stored_attempt cd a = a" if "s \<in> set ss" "a \<in> set (stg_Attempts s)" for s a
    using assms that by (simp add: stored_attempt_def json_laws_def plan_runs_valid)
  then have "stored_stage cd s = s" if "s \<in> set ss" for s
    using that by (simp add: stored_stage_def map_idI)
  then show ?thesis by (simp add: map_idI)
qed

lemma planDefinitionStageIDs_indent:
  assumes "json_laws cd" and "fits cd d" and "planDefinitionStageIDs cd d = Inr ids"
  shows "planDefinitionStageIDs cd (pcd_indent cd d) = Inr ids"
  using assms by (auto simp: planDefinitionStageIDs_def json_laws_def fits_def split: if_splits)

text \<open>A checked plan is written and read back as a plan that passes the check.\<close>

lemma stored_form_ok:
  assumes laws: "json_laws cd" and ok: "plan_ok cd wsid planID p" and fit: "fits cd (wpl_Definition p)"
    and runs: "list_all valid_utf8 (plan_runs (wpl_Stages p))"
  shows "file_ok cd (wsid, planID) (stored_form cd p)" and "wpl_Stages (stored_form cd p) = wpl_Stages p"
proof -
  show stages: "wpl_Stages (stored_form cd p) = wpl_Stages p"
    using stored_stages_same [OF laws runs] by (simp add: stored_form_def)
  then have form: "stored_form cd p = p\<lparr>wpl_Definition := pcd_indent cd (wpl_Definition p)\<rparr>"
    by (simp add: stored_form_def)
  have "planDefinitionStageIDs cd (pcd_indent cd (wpl_Definition p)) = Inr (map stg_ID (wpl_Stages p))"
    using planDefinitionStageIDs_indent [OF laws fit] ok by (simp add: plan_ok_def validatePlanRecord_None)
  moreover have "pcd_indent cd (pcd_indent cd (wpl_Definition p)) = pcd_indent cd (wpl_Definition p)"
    using laws by (simp add: json_laws_def)
  ultimately show "file_ok cd (wsid, planID) (stored_form cd p)"
    using ok runs unfolding form file_ok_def plain_plan_def plan_ok_def validatePlanRecord_None
    by (simp add: plan_good_def plan_body_iff plan_head_ok_def)
qed

lemma plan_ok_fits: "plan_ok cd wsid planID p \<Longrightarrow> pcd_indent cd (wpl_Definition p) = wpl_Definition p \<Longrightarrow> fits cd (wpl_Definition p)"
  by (auto simp: plan_ok_def validatePlanRecord_None planDefinitionStageIDs_def fits_def split: if_splits)

lemma getLocked_id: "getLocked en st i = Inr ws \<Longrightarrow> sanitizeID i = i"
  by (auto simp: getLocked_def split: if_splits)

lemma validPlanID_sanitized: "validPlanID i \<Longrightarrow> sanitizeID i = i"
  by (simp add: validPlanID_def)

lemma append_plans [simp]: "pst_plans (snd (appendEventLocked en now ok i ev st)) = pst_plans st"
  by (simp add: appendEventLocked_def Let_def)

lemma record_plans [simp]: "pst_plans (recordPlanEvent en ck io wsid ty msg dat st) = pst_plans st"
  by (simp add: recordPlanEvent_def)

lemma snd_event_case: "snd (case r of (Some e, s) \<Rightarrow> (Inl e, s) | (None, s) \<Rightarrow> (Inr w, s)) = snd r"
  by (cases r; cases "fst r") auto

lemma put_stream_plans [simp]: "pst_plans (put_stream en i ws st) = pst_plans st"
  by (simp add: put_stream_def)

lemma Create_stream_plans: "pst_plans (snd (Create_stream en ck io req st)) = pst_plans st"
  unfolding Create_stream_def Let_def
  by (cases "normalizeDecisionList (scr_Decisions req)") (simp_all add: snd_event_case)

lemma Patch_stream_plans: "pst_plans (snd (Patch_stream en ck io i pt st)) = pst_plans st"
proof (cases "getLocked en st i")
  case (Inr ws)
  have "pst_plans (snd (case d of Inl e \<Rightarrow> (Inl e, st) | Inr decisions \<Rightarrow> 
      if c then (Inl e2, st) else
        let (ws1, changed) = patched n pt decisions ws; ws2 = f ws1; ty = g changed
        in if b then (Inl e3, st)
           else case appendEventLocked en n2 ok (wst_ID ws2) (new_event ty m changed) (put_stream en (wst_ID ws2) ws2 st) of
              (Some e, st') \<Rightarrow> (Inl e, st') | (None, st') \<Rightarrow> (Inr ws2, st'))) = pst_plans st" for d c e2 n f g b e3 n2 ok m
    by (cases d) (simp_all add: Let_def snd_event_case split: prod.splits)
  with Inr show ?thesis unfolding Patch_stream_def by simp
qed (simp add: Patch_stream_def)

lemma AppendEvent_plans: "pst_plans (snd (AppendEvent en ck io i ev st)) = pst_plans st"
  by (cases "getLocked en st i") (simp_all add: AppendEvent_def)

section \<open>What a call writes\<close>

text \<open>The three ways a plan file changes: a first plan, a new definition, an action.\<close>

inductive plan_write :: "plan_codec \<Rightarrow> string \<times> string \<Rightarrow> stored_plan option \<Rightarrow> stored_plan \<Rightarrow> bool" for cd k where
  write_first: "planDefinitionStageIDs cd d = Inr ids \<Longrightarrow> fits cd d \<Longrightarrow> now \<noteq> zero_time \<Longrightarrow> validPlanID (snd k)
     \<Longrightarrow> plan_write cd k None (stored_form cd (first_plan (fst k) (snd k) d ids now))"
| write_revise: "planDefinitionStageIDs cd d = Inr ids \<Longrightarrow> fits cd d \<Longrightarrow> now \<noteq> zero_time
     \<Longrightarrow> wpl_Status p = PlanStatusDraft \<or> wpl_Status p = PlanStatusApproved \<Longrightarrow> wpl_Revision p \<noteq> - 1
     \<Longrightarrow> wpl_StateRevision p \<noteq> - 1 \<Longrightarrow> plan_write cd k (Some p) (stored_form cd (revise d ids now p))"
| write_action: "action_change a p = Inr (ev, q) \<Longrightarrow> action_ok a \<Longrightarrow> now \<noteq> zero_time \<Longrightarrow> wpl_StateRevision p \<noteq> - 1
     \<Longrightarrow> (\<forall>t s r. a = ActBegin t s r \<longrightarrow> valid_utf8 r)
     \<Longrightarrow> plan_write cd k (Some p)
          (stored_form cd (q\<lparr>wpl_StateRevision := wpl_StateRevision q + 1, wpl_UpdatedAt := now\<rparr>))"

lemma mutatePlan_cases:
  assumes "mutatePlan en ck io wsid planID er es change st = (r, st')"
  obtains (refused) e where "r = Inl e" "st' = st"
  | (committed) p ev q where "getLocked en st (trim_space wsid) \<in> range Inr" "validPlanID planID" "er \<noteq> 0" "es \<noteq> 0" "pio_write io"
      "readPlanLocked en st (trim_space wsid) planID = Inr p"
      "changed_plan (sen_codec en) (clk_update ck) (trim_space wsid) planID er es change p = Inr (ev, q)" "r = Inr q"
      "pst_plans st' = pst_plans (put_plan (sen_codec en) (trim_space wsid) planID q st)"
proof (cases "getLocked en st (trim_space wsid)")
  case (Inl e)
  with assms refused [of e] show thesis by (auto simp: mutatePlan_def Let_def)
next
  case locked: (Inr ws)
  show thesis
  proof (cases "\<not> validPlanID planID \<or> er = 0 \<or> es = 0")
    case True
    with assms locked refused show thesis by (auto simp: mutatePlan_def Let_def split: if_splits)
  next
    case guard: False
    show thesis
    proof (cases "readPlanLocked en st (trim_space wsid) planID")
      case (Inl e)
      with assms locked guard refused [of e] show thesis by (auto simp: mutatePlan_def Let_def)
    next
      case read: (Inr p)
      show thesis
      proof (cases "changed_plan (sen_codec en) (clk_update ck) (trim_space wsid) planID er es change p")
        case (Inl e)
        with assms locked guard read refused [of e] show thesis by (auto simp: mutatePlan_def Let_def)
      next
        case changed: (Inr out)
        obtain ty msg dat q where out: "out = ((ty, msg, dat), q)" by (metis surj_pair)
        show thesis
        proof (cases "pio_write io")
          case True
          with assms locked guard read changed out show thesis
            by (intro committed) (auto simp: mutatePlan_def Let_def)
        next
          case False
          with assms locked guard read changed out show thesis
            by (intro refused [of "PlanStorageError ''write''"]) (auto simp: mutatePlan_def Let_def)
        qed
      qed
    qed
  qed
qed

lemma readPlanLocked_file:
  assumes "readPlanLocked en st w i = Inr p" and "sanitizeID w = w"
  shows "pst_plans st (w, i) = Some (Some p)" and "validPlanID i"
  using assms by (auto simp: readPlanLocked_def validPlanID_sanitized split: if_splits option.splits)

lemma readPlanLocked_good:
  assumes "store_good en st" and "pst_plans st (w, i) = Some f" and "sanitizeID w = w" and "validPlanID i"
  obtains p where "f = Some p" "file_ok (sen_codec en) (w, i) p" "readPlanLocked en st w i = Inr p"
proof -
  obtain p where p: "f = Some p" "file_ok (sen_codec en) (w, i) p"
    using assms(1,2) by (fastforce simp: store_good_def)
  then show thesis
    using assms(2-4) by (intro that) (auto simp: readPlanLocked_def validPlanID_sanitized file_ok_def plan_ok_def)
qed

lemma put_plan_at: "sanitizeID w = w \<Longrightarrow> validPlanID i \<Longrightarrow>
    pst_plans (put_plan cd w i q st) = (pst_plans st)((w, i) := Some (Some (stored_form cd q)))"
  by (simp add: put_plan_def validPlanID_sanitized)

lemma CreatePlan_cases:
  assumes "CreatePlan en ck io wsid reqID d st = (r, st')"
  obtains (refused) e where "r = Inl e" "st' = st"
  | (written) i ids where "sanitizeID (trim_space wsid) = trim_space wsid" "planDefinitionStageIDs (sen_codec en) d = Inr ids"
      "validPlanID i" "pst_plans st (trim_space wsid, i) = None"
      "pst_plans st' = pst_plans (put_plan (sen_codec en) (trim_space wsid) i (first_plan (trim_space wsid) i d ids (clk_update ck)) st)"
      "validatePlanRecord (sen_codec en) (first_plan (trim_space wsid) i d ids (clk_update ck)) (trim_space wsid) i = None"
proof (cases "getLocked en st (trim_space wsid)")
  case (Inl e)
  with assms refused [of e] show thesis by (auto simp: CreatePlan_def Let_def)
next
  case locked: (Inr ws)
  note same = getLocked_id [OF locked]
  show thesis
  proof (cases "planDefinitionStageIDs (sen_codec en) d")
    case (Inl e)
    with assms locked refused [of e] show thesis by (auto simp: CreatePlan_def Let_def)
  next
    case ids: (Inr ids)
    define i where "i = (if trim_space reqID = [] then newPlanID en (clk_change ck) d else trim_space reqID)"
    define q where "q = first_plan (trim_space wsid) i d ids (clk_update ck)"
    define ev where "ev = new_event ''plan_created'' ''Plan created'' [(''planId'', i), (''revision'', ''1'')]"
    have body: "CreatePlan en ck io wsid reqID d st =
       (if length d > maxPlanDefinitionBytes then (Inl (ErrPlanInvalid ''definition is too large''), st)
        else if \<not> validPlanID i then (Inl (ErrPlanInvalid ''plan id''), st)
        else if \<not> pio_inspect io then (Inl (PlanStorageError ''inspect plan''), st)
        else if pst_plans st (trim_space wsid, sanitizeID i) \<noteq> None
        then (Inl (ErrPlanConflict ''plan id already exists''), st)
        else (case validatePlanRecord (sen_codec en) q (trim_space wsid) i of
             Some e \<Rightarrow> (Inl e, st)
           | None \<Rightarrow>
               if \<not> pio_write io then (Inl (PlanStorageError ''write''), st)
               else case appendEventLocked en (clk_event ck) (pio_event io) (trim_space wsid) ev
                   (put_plan (sen_codec en) (trim_space wsid) i q st) of
                   (Some e, st') \<Rightarrow> (Inl e, st') | (None, st') \<Rightarrow> (Inr q, st')))"
      unfolding CreatePlan_def Let_def i_def [symmetric] q_def ev_def using locked ids same by simp
    consider (no) e where "CreatePlan en ck io wsid reqID d st = (Inl e, st)"
      | (yes) "validPlanID i" "pst_plans st (trim_space wsid, i) = None"
          "validatePlanRecord (sen_codec en) q (trim_space wsid) i = None"
          "snd (CreatePlan en ck io wsid reqID d st)
           = snd (appendEventLocked en (clk_event ck) (pio_event io) (trim_space wsid) ev
                   (put_plan (sen_codec en) (trim_space wsid) i q st))"
      using body by (cases "validatePlanRecord (sen_codec en) q (trim_space wsid) i")
        (auto simp: snd_event_case validPlanID_sanitized split: if_splits)
    then show thesis
    proof cases
      case no
      with assms refused [of e] show ?thesis by simp
    next
      case yes
      with assms have "st' = snd (appendEventLocked en (clk_event ck) (pio_event io) (trim_space wsid) ev
                   (put_plan (sen_codec en) (trim_space wsid) i q st))" by simp
      then show ?thesis using written [OF same ids yes(1,2)] yes(3) by (simp add: q_def)
    qed
  qed
qed

lemma UpdatePlan_cases:
  assumes "UpdatePlan en ck io wsid planID er es d st = (r, st')"
  obtains (refused) e where "r = Inl e" "st' = st"
  | (written) ids p where "sanitizeID (trim_space wsid) = trim_space wsid" "validPlanID planID"
      "planDefinitionStageIDs (sen_codec en) d = Inr ids" "readPlanLocked en st (trim_space wsid) planID = Inr p"
      "wpl_Revision p = er" "wpl_StateRevision p = es" "wpl_Status p = PlanStatusDraft \<or> wpl_Status p = PlanStatusApproved"
      "wpl_Revision p \<noteq> - 1" "wpl_StateRevision p \<noteq> - 1" "r = Inr (revise d ids (clk_update ck) p)"
      "pst_plans st' = pst_plans (put_plan (sen_codec en) (trim_space wsid) planID (revise d ids (clk_update ck) p) st)"
      "validatePlanRecord (sen_codec en) (revise d ids (clk_update ck) p) (trim_space wsid) planID = None"
proof (cases "getLocked en st (trim_space wsid)")
  case (Inl e)
  with assms refused [of e] show thesis by (auto simp: UpdatePlan_def Let_def)
next
  case locked: (Inr ws)
  note same = getLocked_id [OF locked]
  show thesis
  proof (cases "planDefinitionStageIDs (sen_codec en) d")
    case (Inl e)
    with assms locked refused show thesis by (auto simp: UpdatePlan_def Let_def split: if_splits)
  next
    case ids: (Inr ids)
    show thesis
    proof (cases "readPlanLocked en st (trim_space wsid) planID")
      case (Inl e)
      have "fst (UpdatePlan en ck io wsid planID er es d st) \<in> range Inl" "snd (UpdatePlan en ck io wsid planID er es d st) = st"
        by (simp_all add: UpdatePlan_def Let_def Inl locked ids)
      with assms have "st' = st \<and> (\<exists>e'. r = Inl e')" by auto
      with refused show thesis by blast
    next
      case read: (Inr p)
      define q where "q = revise d ids (clk_update ck) p"
      let ?upd = "UpdatePlan en ck io wsid planID er es d st"
      let ?go = "validPlanID planID \<and> length d \<le> maxPlanDefinitionBytes \<and> er \<noteq> 0 \<and> es \<noteq> 0 \<and> wpl_Revision p = er
        \<and> wpl_StateRevision p = es \<and> (wpl_Status p = PlanStatusDraft \<or> wpl_Status p = PlanStatusApproved)
        \<and> \<not> hasPlanStageAttempts (wpl_Stages p) \<and> er \<noteq> - 1 \<and> es \<noteq> - 1
        \<and> validatePlanRecord (sen_codec en) q (trim_space wsid) planID = None \<and> pio_write io"
      show thesis
      proof (cases ?go)
        case True
        then have out: "fst ?upd = Inr q" "pst_plans (snd ?upd) = pst_plans (put_plan (sen_codec en) (trim_space wsid) planID q st)"
          by (auto simp: UpdatePlan_def Let_def locked ids read q_def)
        then have "r = Inr q" "pst_plans st' = pst_plans (put_plan (sen_codec en) (trim_space wsid) planID q st)"
          using assms by simp_all
        with True written [OF same _ ids read] show thesis by (simp add: q_def)
      next
        case False
        then have "fst ?upd \<in> range Inl \<and> snd ?upd = st"
          by (cases "validatePlanRecord (sen_codec en) q (trim_space wsid) planID")
            (auto simp: UpdatePlan_def Let_def locked ids read q_def)
        with assms refused show thesis by auto
      qed
    qed
  qed
qed

text \<open>The key of a request's plan.\<close>

fun request_plan :: "plan_request \<Rightarrow> (string \<times> string) option" where
  "request_plan (ReqCreate wsid i d) = None"
| "request_plan (ReqUpdate wsid i er es d) = Some (trim_space wsid, i)"
| "request_plan (ReqApprove wsid i er es) = Some (trim_space wsid, i)"
| "request_plan (ReqBegin wsid i er es s r) = Some (trim_space wsid, i)"
| "request_plan (ReqFinish wsid i er es req) = Some (trim_space wsid, i)"
| "request_plan (ReqReconcile wsid i er es s r b) = Some (trim_space wsid, i)"

fun request_revisions :: "plan_request \<Rightarrow> uint64 \<times> uint64" where
  "request_revisions (ReqCreate wsid i d) = (0, 0)"
| "request_revisions (ReqUpdate wsid i er es d) = (er, es)"
| "request_revisions (ReqApprove wsid i er es) = (er, es)"
| "request_revisions (ReqBegin wsid i er es s r) = (er, es)"
| "request_revisions (ReqFinish wsid i er es req) = (er, es)"
| "request_revisions (ReqReconcile wsid i er es s r b) = (er, es)"

text \<open>
  A call leaves the plan files as they are, or writes one of them, in one of the three ways; a call
  that names a plan and reports success has written that plan, against the revisions it named.
\<close>

definition plan_effect :: "store_env \<Rightarrow> plan_request \<Rightarrow> plan_store \<Rightarrow> plan_error + stored_plan \<Rightarrow> plan_store \<Rightarrow> bool" where
  "plan_effect en req st r st' \<longleftrightarrow>
     (pst_plans st' = pst_plans st \<and> (\<exists>e. r = Inl e))
     \<or> (\<exists>k old q. pst_plans st k = map_option Some old \<and> plan_write (sen_codec en) k old q
          \<and> pst_plans st' = (pst_plans st)(k := Some (Some q)) \<and> file_ok (sen_codec en) k q
          \<and> (case request_plan req of None \<Rightarrow> old = None
              | Some k' \<Rightarrow> k' = k \<and> (\<exists>p. old = Some p \<and> wpl_Revision p = fst (request_revisions req)
                  \<and> wpl_StateRevision p = snd (request_revisions req))
                  \<and> (\<exists>q0. r = Inr q0 \<and> q = stored_form (sen_codec en) q0)))"

lemma close_runs:
  assumes "active_attempt x y i j p = Inr k" and "list_all valid_utf8 (plan_runs (wpl_Stages p))"
    and "\<And>a. att_RunID (f a) = att_RunID a"
    and "wpl_Stages q = (wpl_Stages p)[k := close_stage st f (wpl_Stages p ! k)]"
  shows "list_all valid_utf8 (plan_runs (wpl_Stages q))"
  using assms(1)
proof (cases rule: active_attempt_Inr)
  case (1 pre s post)
  have "attempt_runs (close_stage st f s) = attempt_runs s"
    using 1(6) assms(3) by (cases "stg_Attempts s" rule: rev_cases) (auto simp: attempt_runs_def close_stage_def)
  with 1 assms(2,4) show ?thesis by (auto simp: list_update_append)
qed

lemma action_runs:
  assumes "action_change a p = Inr (ev, q)" and "list_all valid_utf8 (plan_runs (wpl_Stages p))"
    and "\<forall>t s r. a = ActBegin t s r \<longrightarrow> valid_utf8 r" and "plan_good p"
  shows "list_all valid_utf8 (plan_runs (wpl_Stages q))"
proof (cases a)
  case ActApprove
  with assms show ?thesis by (auto simp: approve_change_def split: if_splits)
next
  case (ActBegin now i j)
  with assms have "begin_change now i j p = Inr (ev, q)" by simp
  then show ?thesis
    using assms ActBegin
    by (cases rule: begin_change_Inr) (auto simp: attempt_runs_def begun_stage_def started_attempt_def)
next
  case (ActFinish now req)
  with assms have change: "finish_change now req p = Inr (ev, q)" by simp
  then obtain k where k: "active_attempt ''stage has no active attempt'' ''result does not match active attempt''
      (fin_StageID req) (fin_RunID req) p = Inr k" by (rule finish_active)
  show ?thesis
  proof (cases "fin_Status req = PlanStageStatusCompleted")
    case True
    from k show ?thesis
      by (rule close_runs [where f = "accept_attempt now req" and st = PlanStageStatusCompleted])
        (simp_all add: assms(2) finish_change_completed(2) [OF k True change] Let_def, simp add: accept_attempt_def)
  next
    case False
    from k show ?thesis
      by (rule close_runs [where f = "fail_attempt now (reported_verification req) (fin_ReceiptDigest req)" and st = PlanStageStatusFailed])
        (simp_all add: assms(2) finish_change_failed(3) [OF k False change], simp add: fail_attempt_def)
  qed
next
  case (ActReconcile now i j)
  with assms(1) obtain k where k: "active_attempt ''stage has no interrupted attempt''
      ''reconciliation does not match active attempt'' i j p = Inr k"
    and q: "wpl_Stages q = (wpl_Stages p)[k := close_stage PlanStageStatusFailed
      (\<lambda>a. fail_attempt now ''not-run'' (att_ReceiptDigest a) a) (wpl_Stages p ! k)]"
    by (auto simp: reconcile_change_def split: sum.splits)
  from k show ?thesis
    by (rule close_runs) (simp_all add: q assms(2) fail_attempt_def)
qed

lemma mutate_effect:
  assumes laws: "json_laws (sen_codec en)" and good: "store_good en st" and clock: "clock_ok ck"
    and a: "action_ok a" "\<forall>t s r. a = ActBegin t s r \<longrightarrow> valid_utf8 r"
    and req: "request_plan req = Some (trim_space wsid, planID)" "request_revisions req = (er, es)"
    and call: "mutatePlan en ck io wsid planID er es (action_change a) st = (r, st')"
  shows "plan_effect en req st r st'"
  using call
proof (cases rule: mutatePlan_cases)
  case (refused e)
  then show ?thesis by (simp add: plan_effect_def)
next
  case (committed p ev q)
  let ?w = "trim_space wsid" and ?cd = "sen_codec en"
  have same: "sanitizeID ?w = ?w" using committed(1) by (auto dest: getLocked_id)
  note entry = readPlanLocked_file(1) [OF committed(6) same]
  have ok: "file_ok ?cd (?w, planID) p"
    using readPlanLocked_good [OF good entry same committed(2)] by auto
  then have pok: "plan_ok ?cd ?w planID p" and plain: "plain_plan ?cd p" by (auto simp: file_ok_def)
  have now: "clk_update ck \<noteq> zero_time" using clock by (simp add: clock_ok_def)
  obtain q0 where q0: "action_change a p = Inr (ev, q0)" "er = wpl_Revision p" "es = wpl_StateRevision p" "es \<noteq> - 1"
    and q: "q = q0\<lparr>wpl_StateRevision := es + 1, wpl_UpdatedAt := clk_update ck\<rparr>"
    using committed(7) changed_plan_Inr [OF pok a(1) now] by auto
  note frame = same_planD [OF action_frame [OF q0(1)]]
  have q': "q = q0\<lparr>wpl_StateRevision := wpl_StateRevision q0 + 1, wpl_UpdatedAt := clk_update ck\<rparr>"
    by (simp add: q q0 frame)
  have room: "wpl_StateRevision p \<noteq> - 1" using q0 by simp
  have qok: "plan_ok ?cd ?w planID q"
    unfolding q' by (rule action_valid [OF pok q0(1) a(1) now room])
  have "plan_good p" using pok by (simp add: plan_ok_def)
  with action_runs [OF q0(1) _ a(2)] plain have runs: "list_all valid_utf8 (plan_runs (wpl_Stages q))"
    by (simp add: plain_plan_def q)
  have "fits ?cd (wpl_Definition q)"
    using plan_ok_fits [OF pok] plain by (simp add: plain_plan_def q frame)
  from stored_form_ok(1) [OF laws qok this runs] have "file_ok ?cd (?w, planID) (stored_form ?cd q)" .
  moreover have "plan_write ?cd (?w, planID) (Some p) (stored_form ?cd q)"
    unfolding q' by (rule write_action [OF q0(1) a(1) now room a(2)])
  ultimately show ?thesis
    unfolding plan_effect_def
    using committed entry same q0 req put_plan_at [OF same committed(2)]
    by (intro disjI2 exI [of _ "(?w, planID)"] exI [of _ "Some p"] exI [of _ "stored_form ?cd q"]) auto
qed

lemma draft_good:
  assumes "plan_body_ok p" and "wpl_Status p = PlanStatusDraft"
  shows "plan_good p" and "plan_runs (wpl_Stages p) = []"
proof -
  have pending: "pending_stages (wpl_Stages p)" and ok: "list_all (stage_ok (wpl_Revision p)) (wpl_Stages p)"
    using assms by (auto simp: plan_body_iff progress_ok_def)
  then show "plan_good p"
    using assms by (auto simp: plan_good_def pending_in_order list_all_iff unreported_def running_stage_def)
  show "plan_runs (wpl_Stages p) = []"
    using pending ok stage_ok_pending by (auto simp: plan_runs_def attempt_runs_def list_all_iff)
qed

text \<open>A checked draft is written as a good file.\<close>

lemma draft_file:
  assumes "json_laws cd" and "validatePlanRecord cd q w i = None" and "wpl_Status q = PlanStatusDraft" and "fits cd (wpl_Definition q)"
  shows "file_ok cd (w, i) (stored_form cd q)"
proof -
  have "plan_body_ok q" using assms(2) by (simp add: validatePlanRecord_None)
  note draft = draft_good [OF this assms(3)]
  have "plan_ok cd w i q" using draft(1) assms(2) by (simp add: plan_ok_def)
  with stored_form_ok(1) [OF assms(1) this assms(4)] draft(2) show ?thesis by simp
qed

lemma plan_call_effect:
  assumes laws: "json_laws (sen_codec en)" and good: "store_good en st" and clock: "clock_ok ck"
    and req: "request_ok (sen_codec en) req" and call: "plan_call en ck io req st = (r, st')"
  shows "plan_effect en req st r st'"
proof (cases req)
  case (ReqCreate wsid i d)
  let ?w = "trim_space wsid" and ?cd = "sen_codec en"
  from call ReqCreate have "CreatePlan en ck io wsid i d st = (r, st')" by simp
  then show ?thesis
  proof (cases rule: CreatePlan_cases)
    case (refused e)
    then show ?thesis by (simp add: plan_effect_def)
  next
    case (written j ids)
    let ?q = "first_plan ?w j d ids (clk_update ck)"
    have fit: "fits ?cd d" and now: "clk_update ck \<noteq> zero_time" using req clock ReqCreate by (simp_all add: clock_ok_def)
    have "file_ok ?cd (?w, j) (stored_form ?cd ?q)"
      using fit by (intro draft_file [OF laws written(6)]) (simp_all add: first_plan_def)
    moreover have "plan_write ?cd (?w, j) None (stored_form ?cd ?q)"
      using write_first [of ?cd d ids "clk_update ck" "(?w, j)"] written fit now by simp
    ultimately show ?thesis
      unfolding plan_effect_def using written put_plan_at [OF written(1,3)] ReqCreate
      by (intro disjI2 exI [of _ "(?w, j)"] exI [of _ None] exI [of _ "stored_form ?cd ?q"]) simp
  qed
next
  case (ReqUpdate wsid i er es d)
  let ?w = "trim_space wsid" and ?cd = "sen_codec en"
  from call ReqUpdate have "UpdatePlan en ck io wsid i er es d st = (r, st')" by simp
  then show ?thesis
  proof (cases rule: UpdatePlan_cases)
    case (refused e)
    then show ?thesis by (simp add: plan_effect_def)
  next
    case (written ids p)
    let ?q = "revise d ids (clk_update ck) p"
    have fit: "fits ?cd d" and now: "clk_update ck \<noteq> zero_time" using req clock ReqUpdate by (simp_all add: clock_ok_def)
    note entry = readPlanLocked_file(1) [OF written(4,1)]
    have "file_ok ?cd (?w, i) (stored_form ?cd ?q)"
      using fit by (intro draft_file [OF laws written(12)]) (simp_all add: revise_def)
    moreover have "plan_write ?cd (?w, i) (Some p) (stored_form ?cd ?q)"
      using written fit now by (intro write_revise)
    ultimately show ?thesis
      unfolding plan_effect_def using written put_plan_at [OF written(1,2)] ReqUpdate entry
      by (intro disjI2 exI [of _ "(?w, i)"] exI [of _ "Some p"] exI [of _ "stored_form ?cd ?q"]) auto
  qed
next
  case (ReqApprove wsid i er es)
  with call mutate_effect [OF laws good clock, of ActApprove req wsid i er es io r st'] show ?thesis
    by (simp add: ApprovePlan_def)
next
  case (ReqBegin wsid i er es s j)
  with call req clock mutate_effect [OF laws good clock, of "ActBegin (clk_change ck) s j" req wsid i er es io r st'] show ?thesis
    by (auto simp: BeginPlanStage_def plan_effect_def clock_ok_def split: if_splits)
next
  case (ReqFinish wsid i er es f)
  with call clock mutate_effect [OF laws good clock, of "ActFinish (clk_change ck) f" req wsid i er es io r st'] show ?thesis
    by (auto simp: FinishPlanStage_def plan_effect_def clock_ok_def split: if_splits)
next
  case (ReqReconcile wsid i er es s j b)
  with call clock mutate_effect [OF laws good clock, of "ActReconcile (clk_change ck) s j" req wsid i er es io r st'] show ?thesis
    by (auto simp: ReconcilePlanStage_def plan_effect_def clock_ok_def split: if_splits)
qed

end
