(* ===== verification/Plan_Props.thy ===== *)
theory Plan_Props
  imports Plan_System
begin

text \<open>
  What the workstream store guarantees of its plans: every record stays readable and ordered, a
  plan moves through the phases of an abstract workflow, exactly the next stage can be begun, one
  state of a plan admits one change, and a revision number stands for one definition.
\<close>

section \<open>The machine keeps good stores good\<close>

definition guarded_step :: "store_env \<Rightarrow> plan_store \<Rightarrow> store_event \<Rightarrow> plan_store" where
  "guarded_step en st e = (if event_ok (sen_codec en) e then store_step en st e else st)"

lemma guarded_run: "list_all (event_ok (sen_codec en)) es \<Longrightarrow> foldl (guarded_step en) st es = foldl (store_step en) st es"
  by (induction es arbitrary: st) (simp_all add: guarded_step_def)

text \<open>What one event does to the plan files.\<close>

lemma store_event_effect:
  assumes "json_laws (sen_codec en)" and "store_good en st" and "event_ok (sen_codec en) e"
  obtains (same) "pst_plans (store_step en st e) = pst_plans st"
  | (wrote) k old q where "pst_plans st k = map_option Some old" "plan_write (sen_codec en) k old q"
      "pst_plans (store_step en st e) = (pst_plans st)(k := Some (Some q))" "file_ok (sen_codec en) k q"
proof (cases e)
  case (StoreCall ck io req)
  then have "plan_effect en req st (fst (plan_call en ck io req st)) (snd (plan_call en ck io req st))"
    using assms by (intro plan_call_effect) auto
  then show thesis
    using StoreCall same wrote unfolding plan_effect_def by fastforce
next
  case (StoreCreate ck io req)
  then show thesis by (intro same) (simp add: Create_stream_plans)
next
  case (StorePatch ck io i pt)
  then show thesis by (intro same) (simp add: Patch_stream_plans)
next
  case (StoreNote ck io i ev)
  then show thesis by (intro same) (simp add: AppendEvent_plans)
qed

lemma store_good_step:
  assumes "json_laws (sen_codec en)" and "store_good en st" and "event_ok (sen_codec en) e"
  shows "store_good en (store_step en st e)"
  using assms
proof (cases rule: store_event_effect)
  case same
  with assms(2) show ?thesis by (simp add: store_good_def)
next
  case (wrote k old q)
  with assms(2) show ?thesis by (auto simp: store_good_def)
qed

definition sound_store :: "store_env \<Rightarrow> plan_store \<Rightarrow> bool" where
  "sound_store en st \<longleftrightarrow> json_laws (sen_codec en) \<and> store_good en st"

interpretation plan_files: invariant_machine "guarded_step en" "sound_store en" for en
  by unfold_locales (simp add: sound_store_def guarded_step_def store_good_step)

lemma store_good_run:
  assumes "json_laws (sen_codec en)" and "store_good en st" and "list_all (event_ok (sen_codec en)) es"
  shows "store_good en (foldl (store_step en) st es)"
  using plan_files.inv_run [of en st es] assms by (simp add: sound_store_def guarded_run)

lemma empty_store_good: "pst_plans st = (\<lambda>_. None) \<Longrightarrow> store_good en st"
  by (simp add: store_good_def)

lemma store_good_file: "store_good en st \<Longrightarrow> pst_plans st k = Some (Some p) \<Longrightarrow> file_ok (sen_codec en) k p"
  unfolding store_good_def by (drule spec [of _ k]) auto

section \<open>Revisions only grow\<close>

definition plan_update :: "plan_codec \<Rightarrow> gotime \<Rightarrow> string \<Rightarrow> string \<Rightarrow> uint64 \<Rightarrow> plan_action \<Rightarrow> stored_plan \<Rightarrow> plan_error + stored_plan" where
  "plan_update cd now w i r a p = map_sum id snd (changed_plan cd now w i (wpl_Revision p) r (action_change a) p)"

lemma plan_update_commit:
  assumes "plan_update cd now w i r a p = Inr q"
  shows "wpl_StateRevision p = r \<and> wpl_StateRevision q = r + 1 \<and> r + 1 \<noteq> 0"
proof -
  obtain ev where "changed_plan cd now w i (wpl_Revision p) r (action_change a) p = Inr (ev, q)"
    using assms by (cases "changed_plan cd now w i (wpl_Revision p) r (action_change a) p") (auto simp: plan_update_def)
  then obtain q0 where q0: "action_change a p = Inr (ev, q0)" "wpl_StateRevision p = r" "r \<noteq> - 1"
    and q: "q = q0\<lparr>wpl_StateRevision := wpl_StateRevision q0 + 1, wpl_UpdatedAt := now\<rparr>"
    by (auto simp: changed_plan_def Let_def split: if_splits sum.splits option.splits)
  have "r + 1 \<noteq> 0" using q0(3) by (metis add_eq_0_iff2)
  then show ?thesis using q q0 same_planD(5) [OF action_frame [OF q0(1)]] by simp
qed

interpretation plan_states: revision_counter wpl_StateRevision "plan_update cd now w i" for cd now w i
  by unfold_locales (simp add: plan_update_commit)

lemma unat_Suc: "r \<noteq> - 1 \<Longrightarrow> unat (r + 1) = Suc (unat r)" for r :: uint64
  by (metis add.commute add_eq_0_iff2 unatSuc)

lemma plan_write_revisions:
  assumes "plan_write cd k (Some p) q"
  shows "unat (wpl_StateRevision q) = Suc (unat (wpl_StateRevision p))"
    and "(wpl_Revision q = wpl_Revision p \<and> wpl_Definition q = pcd_indent cd (wpl_Definition p)
            \<and> map stg_ID (wpl_Stages q) = map stg_ID (wpl_Stages p))
         \<or> unat (wpl_Revision q) = Suc (unat (wpl_Revision p))"
proof -
  have "unat (wpl_StateRevision q) = Suc (unat (wpl_StateRevision p))
      \<and> ((wpl_Revision q = wpl_Revision p \<and> wpl_Definition q = pcd_indent cd (wpl_Definition p)
            \<and> map stg_ID (wpl_Stages q) = map stg_ID (wpl_Stages p))
         \<or> unat (wpl_Revision q) = Suc (unat (wpl_Revision p)))"
    using assms
  proof cases
    case (write_revise d ids now)
    then show ?thesis by (simp add: stored_form_def revise_def unat_Suc)
  next
    case (write_action a ev q0 now)
    have "stg_ID \<circ> stored_stage cd = stg_ID"
      by (simp add: fun_eq_iff stored_stage_def)
    with write_action same_planD [OF action_frame [OF write_action(2)]] show ?thesis
      by (simp add: stored_form_def unat_Suc)
  qed
  then show "unat (wpl_StateRevision q) = Suc (unat (wpl_StateRevision p))"
    and "(wpl_Revision q = wpl_Revision p \<and> wpl_Definition q = pcd_indent cd (wpl_Definition p)
            \<and> map stg_ID (wpl_Stages q) = map stg_ID (wpl_Stages p))
         \<or> unat (wpl_Revision q) = Suc (unat (wpl_Revision p))" by auto
qed

text \<open>A plan at two moments of a run.\<close>

definition later_plan :: "stored_plan \<Rightarrow> stored_plan \<Rightarrow> bool" where
  "later_plan p q \<longleftrightarrow> unat (wpl_StateRevision p) \<le> unat (wpl_StateRevision q) \<and> unat (wpl_Revision p) \<le> unat (wpl_Revision q)
     \<and> (wpl_Revision q = wpl_Revision p \<longrightarrow> wpl_Definition q = wpl_Definition p
          \<and> map stg_ID (wpl_Stages q) = map stg_ID (wpl_Stages p))"

lemma later_plan_refl: "later_plan p p"
  by (simp add: later_plan_def)

lemma later_plan_trans:
  assumes "later_plan p q" and "later_plan q r"
  shows "later_plan p r"
proof -
  have "wpl_Revision q = wpl_Revision p" if "wpl_Revision r = wpl_Revision p"
    using assms that by (auto simp: later_plan_def intro: word_unat_eq_iff [THEN iffD2])
  with assms show ?thesis by (auto simp: later_plan_def)
qed

lemma later_step:
  assumes "json_laws (sen_codec en)" and "store_good en st" and "event_ok (sen_codec en) e"
    and "pst_plans st k = Some (Some p)"
  obtains q where "pst_plans (store_step en st e) k = Some (Some q)" "later_plan p q"
  using assms(1-3)
proof (cases rule: store_event_effect)
  case same
  with assms(4) show thesis by (intro that) (auto simp: later_plan_refl)
next
  case (wrote k' old q)
  show thesis
  proof (cases "k' = k")
    case True
    with wrote assms(4) have "plan_write (sen_codec en) k (Some p) q" by (cases old) auto
    moreover have "plain_plan (sen_codec en) p"
      using store_good_file [OF assms(2,4)] by (simp add: file_ok_def)
    ultimately have "later_plan p q"
      using plan_write_revisions [of "sen_codec en" k p q] by (auto simp: later_plan_def plain_plan_def)
    with wrote True show thesis by (intro that) auto
  next
    case False
    with wrote assms(4) show thesis by (intro that) (auto simp: later_plan_refl)
  qed
qed

lemma later_run:
  assumes "json_laws (sen_codec en)" and "store_good en st" and "list_all (event_ok (sen_codec en)) es"
    and "pst_plans st k = Some (Some p)"
  shows "\<exists>q. pst_plans (foldl (store_step en) st es) k = Some (Some q) \<and> later_plan p q"
  using assms(2-4)
proof (induction es arbitrary: st p)
  case Nil
  then show ?case by (auto simp: later_plan_refl)
next
  case (Cons e es)
  then have e: "event_ok (sen_codec en) e" by simp
  obtain q where q: "pst_plans (store_step en st e) k = Some (Some q)" "later_plan p q"
    by (rule later_step [OF assms(1) Cons.prems(1) e Cons.prems(3)])
  obtain q' where "pst_plans (foldl (store_step en) (store_step en st e) es) k = Some (Some q')" "later_plan q q'"
    using Cons.IH [OF store_good_step [OF assms(1) Cons.prems(1) e] _ q(1)] Cons.prems(2) by auto
  with q later_plan_trans show ?case by auto
qed

section \<open>The abstract workflow\<close>

text \<open>
  What a plan promises, without revisions, records and receipts: it is drafted, approved, and its
  stages are run one after another; a stage that failed is run again.
\<close>

datatype flow_phase = FlowDraft | FlowReady | FlowRunning string | FlowFailed | FlowDone

type_synonym flow = "flow_phase \<times> nat \<times> nat"

inductive flow_step :: "flow option \<Rightarrow> flow \<Rightarrow> bool" where
  flow_create: "flow_step None (FlowDraft, 0, n)"
| flow_redraft: "flow_step (Some (FlowDraft, 0, n)) (FlowDraft, 0, m)"
| flow_revoke: "flow_step (Some (FlowReady, 0, n)) (FlowDraft, 0, m)"
| flow_approve: "0 < n \<Longrightarrow> flow_step (Some (FlowDraft, 0, n)) (FlowReady, 0, n)"
| flow_begin: "ph = FlowReady \<or> ph = FlowFailed \<Longrightarrow> k < n \<Longrightarrow> flow_step (Some (ph, k, n)) (FlowRunning r, k, n)"
| flow_accept: "k < n \<Longrightarrow> flow_step (Some (FlowRunning r, k, n)) (if Suc k = n then FlowDone else FlowReady, Suc k, n)"
| flow_fail: "flow_step (Some (FlowRunning r, k, n)) (FlowFailed, k, n)"

inductive_simps flow_from_done: "flow_step (Some (FlowDone, k, n)) f"
inductive_simps flow_from_running: "flow_step (Some (FlowRunning r, k, n)) f"

definition plan_phase :: "stored_plan \<Rightarrow> flow_phase" where
  "plan_phase p =
     (if wpl_Status p = PlanStatusDraft then FlowDraft
      else if wpl_Status p = PlanStatusCompleted then FlowDone
      else if wpl_Status p = PlanStatusFailed then FlowFailed
      else case find running_stage (wpl_Stages p) of
          None \<Rightarrow> FlowReady | Some s \<Rightarrow> FlowRunning (att_RunID (last (stg_Attempts s))))"

definition plan_flow :: "stored_plan \<Rightarrow> flow" where
  "plan_flow p = (plan_phase p, stage_cursor (wpl_Stages p), length (wpl_Stages p))"

definition flow_at :: "plan_store \<Rightarrow> string \<times> string \<Rightarrow> flow option" where
  "flow_at st k = (case pst_plans st k of Some (Some p) \<Rightarrow> Some (plan_flow p) | _ \<Rightarrow> None)"

lemma find_none_running: "list_all completed_stage ss \<Longrightarrow> find running_stage (ss @ ts) = find running_stage ts"
  "pending_stages ss \<Longrightarrow> find running_stage ss = None"
  by (induction ss) (auto simp: running_stage_def)

lemma pending_cursor: "pending_stages ss \<Longrightarrow> stage_cursor ss = 0"
  by simp

lemma stored_stage_status [simp]:
  "stg_Status (stored_stage cd s) = stg_Status s" "stg_ID (stored_stage cd s) = stg_ID s"
  by (simp_all add: stored_stage_def)

text \<open>The flow is read off the stages and the status, which the file keeps as they were.\<close>

lemma plan_flow_cong:
  "wpl_Status p = wpl_Status q \<Longrightarrow> wpl_Stages p = wpl_Stages q \<Longrightarrow> plan_flow p = plan_flow q"
  by (simp add: plan_flow_def plan_phase_def)

lemma draft_flow: "wpl_Status p = PlanStatusDraft \<Longrightarrow> pending_stages (wpl_Stages p) \<Longrightarrow>
    plan_flow p = (FlowDraft, 0, length (wpl_Stages p))"
  by (simp add: plan_flow_def plan_phase_def)

lemma approved_flow: "wpl_Status p = PlanStatusApproved \<Longrightarrow> pending_stages (wpl_Stages p) \<Longrightarrow>
    plan_flow p = (FlowReady, 0, length (wpl_Stages p))"
  by (simp add: plan_flow_def plan_phase_def find_none_running)

lemma running_flow:
  assumes "plan_good p" and "wpl_Stages p = pre @ s # post" and "running_stage s" and "wpl_Status p = PlanStatusExecuting"
  shows "plan_flow p = (FlowRunning (att_RunID (last (stg_Attempts s))), length pre, Suc (length pre + length post))"
    and "list_all completed_stage pre" and "pending_stages post"
proof -
  have "\<not> completed_stage s" "stg_Status s \<noteq> PlanStageStatusPending" using assms(3) by (auto simp: running_stage_def)
  with in_order_split [of pre s post] assms(1,2) show pre: "list_all completed_stage pre" and "pending_stages post"
    by (simp_all add: plan_good_def)
  from pre \<open>\<not> completed_stage s\<close> assms show "plan_flow p
      = (FlowRunning (att_RunID (last (stg_Attempts s))), length pre, Suc (length pre + length post))"
    by (simp add: plan_flow_def plan_phase_def find_none_running)
qed

lemma begin_flow:
  assumes good: "plan_good p" and change: "begin_change now stageID runID p = Inr (ev, q)"
  shows "flow_step (Some (plan_flow p)) (plan_flow q)"
  using change
proof (cases rule: begin_change_Inr)
  case (1 pre s post)
  let ?n = "Suc (length pre + length post)"
  have s: "\<not> completed_stage s" using 1(4) by auto
  have "find running_stage (wpl_Stages p) = None"
    using 1(9) by (auto simp: find_None_iff list_all_iff)
  then have "plan_phase p = FlowReady \<or> plan_phase p = FlowFailed"
    using 1(8) by (auto simp: plan_phase_def)
  moreover have "plan_flow p = (plan_phase p, length pre, ?n)"
    using 1(1,2) s by (simp add: plan_flow_def)
  moreover have "plan_flow q = (FlowRunning runID, length pre, ?n)"
    using 1(2) unfolding 1(10)
    by (simp add: plan_flow_def plan_phase_def find_none_running begun_stage_def running_stage_def started_attempt_def)
  ultimately show ?thesis by (simp add: flow_begin)
qed

lemma close_flow:
  assumes good: "plan_good p" and active: "active_attempt x y i j p = Inr k"
    and q: "wpl_Stages q = (wpl_Stages p)[k := close_stage status f (wpl_Stages p ! k)]"
    and match: "(status = PlanStageStatusCompleted
        \<and> wpl_Status q = (if list_all completed_stage (wpl_Stages q) then PlanStatusCompleted else PlanStatusExecuting))
      \<or> (status = PlanStageStatusFailed \<and> wpl_Status q = PlanStatusFailed)"
  shows "flow_step (Some (plan_flow p)) (plan_flow q)"
  using active
proof (cases rule: active_attempt_Inr)
  case (1 pre s post)
  note flow = running_flow [OF good 1(1,5,4)]
  let ?s = "close_stage status f s" and ?n = "Suc (length pre + length post)"
  have stages: "wpl_Stages q = pre @ ?s # post" using q 1 by (auto simp: list_update_append)
  have status: "stg_Status (close_stage x f s) = x" for x by (simp add: close_stage_def)
  have post: "list_all completed_stage post \<longleftrightarrow> post = []" "stage_cursor post = 0"
    using flow(3) by (cases post; auto)+
  from match show ?thesis
  proof (elim disjE conjE)
    assume s: "status = PlanStageStatusCompleted"
      and st: "wpl_Status q = (if list_all completed_stage (wpl_Stages q) then PlanStatusCompleted else PlanStatusExecuting)"
    have "plan_phase q = (if Suc (length pre) = ?n then FlowDone else FlowReady)"
      using st flow(2,3) post(1) by (simp add: plan_phase_def stages status s find_none_running running_stage_def)
    moreover have "stage_cursor (wpl_Stages q) = Suc (length pre)"
      using flow(2) post(2) by (simp add: stages status s)
    ultimately show ?thesis
      using flow(1) flow_accept [of "length pre" ?n "att_RunID (last (stg_Attempts s))"] by (simp add: plan_flow_def stages)
  next
    assume "status = PlanStageStatusFailed" "wpl_Status q = PlanStatusFailed"
    then have "plan_flow q = (FlowFailed, length pre, ?n)"
      using flow(2) by (simp add: plan_flow_def plan_phase_def stages status)
    with flow(1) show ?thesis by (simp add: flow_fail)
  qed
qed

lemma action_flow:
  assumes good: "plan_good p" and change: "action_change a p = Inr (ev, q)"
  shows "flow_step (Some (plan_flow p)) (plan_flow q)"
proof (cases a)
  case ActApprove
  with change have p: "wpl_Status p = PlanStatusDraft" "wpl_Stages p \<noteq> []"
    and q: "wpl_Status q = PlanStatusApproved" "wpl_Stages q = wpl_Stages p"
    by (auto simp: approve_change_def split: if_splits)
  have "pending_stages (wpl_Stages p)" using good p by (simp add: plan_good_def plan_body_iff progress_ok_def)
  with p q show ?thesis by (simp add: draft_flow approved_flow flow_approve)
next
  case (ActBegin now i j)
  with good change show ?thesis by (auto intro: begin_flow)
next
  case (ActFinish now req)
  with change have fin: "finish_change now req p = Inr (ev, q)" by simp
  then obtain k where k: "active_attempt ''stage has no active attempt'' ''result does not match active attempt''
      (fin_StageID req) (fin_RunID req) p = Inr k" by (rule finish_active)
  have executing: "wpl_Status p = PlanStatusExecuting" using k by (rule active_attempt_Inr)
  show ?thesis
  proof (cases "fin_Status req = PlanStageStatusCompleted")
    case True
    show ?thesis
      by (rule close_flow [OF good k, where f = "accept_attempt now req" and status = PlanStageStatusCompleted])
        (simp_all add: finish_change_completed(2) [OF k True fin] Let_def executing)
  next
    case False
    show ?thesis
      by (rule close_flow [OF good k, where f = "fail_attempt now (reported_verification req) (fin_ReceiptDigest req)"
            and status = PlanStageStatusFailed]) (simp_all add: finish_change_failed(3) [OF k False fin])
  qed
next
  case (ActReconcile now i j)
  with change obtain k where k: "active_attempt ''stage has no interrupted attempt''
      ''reconciliation does not match active attempt'' i j p = Inr k"
    and q: "q = p\<lparr>wpl_Stages := (wpl_Stages p)[k := close_stage PlanStageStatusFailed
      (\<lambda>a. fail_attempt now ''not-run'' (att_ReceiptDigest a) a) (wpl_Stages p ! k)], wpl_Status := PlanStatusFailed\<rparr>"
    by (auto simp: reconcile_change_def split: sum.splits)
  show ?thesis
    by (rule close_flow [OF good k]) (simp_all add: q)
qed

lemma plan_write_flow:
  assumes laws: "json_laws cd" and wrote: "plan_write cd k old q" and q: "file_ok cd k q"
    and old: "\<And>p. old = Some p \<Longrightarrow> file_ok cd k p"
  shows "flow_step (map_option plan_flow old) (plan_flow q)"
  using wrote
proof cases
  case (write_first d ids now)
  have "plan_flow q = (FlowDraft, 0, length (wpl_Stages q))"
    unfolding write_first by (intro draft_flow) (auto simp: stored_form_def first_plan_def pending_stage_def list_all_iff)
  with write_first show ?thesis by (simp add: flow_create)
next
  case (write_revise d ids now p)
  have "plan_flow q = (FlowDraft, 0, length (wpl_Stages q))"
    unfolding write_revise by (intro draft_flow) (auto simp: stored_form_def revise_def pending_stage_def list_all_iff)
  moreover have "plan_good p" using old write_revise by (simp add: file_ok_def plan_ok_def)
  with write_revise have "plan_flow p \<in> {(FlowDraft, 0, length (wpl_Stages p)), (FlowReady, 0, length (wpl_Stages p))}"
    using draft_flow [of p] approved_flow [of p] by (auto simp: plan_good_def plan_body_iff progress_ok_def)
  ultimately show ?thesis using write_revise by (auto simp: flow_redraft flow_revoke)
next
  case (write_action a p ev q0 now)
  have "plan_good p" and runs: "list_all valid_utf8 (plan_runs (wpl_Stages p))"
    using old write_action by (simp_all add: file_ok_def plan_ok_def plain_plan_def)
  with action_runs [OF write_action(3)] write_action have "list_all valid_utf8 (plan_runs (wpl_Stages q0))" by blast
  from stored_stages_same [OF laws this] have "plan_flow q = plan_flow q0"
    using write_action by (intro plan_flow_cong) (simp_all add: stored_form_def)
  with action_flow [OF \<open>plan_good p\<close> write_action(3)] write_action show ?thesis by simp
qed

section \<open>The stage that can be begun\<close>

lemma check_stage_ids_distinct: "check_stage_ids seen ids = None \<Longrightarrow> distinct ids \<and> set ids \<inter> set seen = {}"
  by (induction seen ids rule: check_stage_ids.induct) (auto split: if_splits)

lemma plan_ok_ids: "plan_ok cd w i p \<Longrightarrow> distinct (map stg_ID (wpl_Stages p))"
  by (auto simp: plan_ok_def validatePlanRecord_None planDefinitionStageIDs_def
      dest!: check_stage_ids_distinct split: if_splits option.splits)

lemma takeWhile_cursor: "take (stage_cursor ss) ss = takeWhile completed_stage ss"
  by (simp add: stage_cursor_def takeWhile_eq_take [symmetric])

lemma cursor_split:
  assumes "stage_cursor ss < length ss"
  obtains pre s post where "ss = pre @ s # post" "length pre = stage_cursor ss" "list_all completed_stage pre" "\<not> completed_stage s"
proof (rule that)
  show "ss = take (stage_cursor ss) ss @ ss ! stage_cursor ss # drop (Suc (stage_cursor ss)) ss"
    using assms by (rule id_take_nth_drop)
  show "length (take (stage_cursor ss) ss) = stage_cursor ss" using assms by simp
  show "list_all completed_stage (take (stage_cursor ss) ss)"
    unfolding takeWhile_cursor by (auto simp: list_all_iff dest: set_takeWhileD)
  show "\<not> completed_stage (ss ! stage_cursor ss)"
    using assms unfolding stage_cursor_def by (rule nth_length_takeWhile)
qed

text \<open>The stage at the cursor, if the plan is ready for it.\<close>

definition next_stage :: "stored_plan \<Rightarrow> stage_state option" where
  "next_stage p =
     (if plan_phase p \<in> {FlowReady, FlowFailed} \<and> stage_cursor (wpl_Stages p) < length (wpl_Stages p)
      then Some (wpl_Stages p ! stage_cursor (wpl_Stages p)) else None)"

lemma trim_statuses: "trim_space PlanStatusApproved = PlanStatusApproved" "trim_space PlanStatusExecuting = PlanStatusExecuting"
  "trim_space PlanStatusFailed = PlanStatusFailed"
  by code_simp+

lemma begin_change_iff:
  assumes ok: "plan_ok cd w i p"
  shows "(\<exists>ev q. begin_change now stageID runID p = Inr (ev, q)) \<longleftrightarrow>
     (\<exists>s. next_stage p = Some s \<and> stg_ID s = stageID \<and> length (stg_Attempts s) < 32)
     \<and> runID \<notin> set (plan_runs (wpl_Stages p))"
proof
  assume "\<exists>ev q. begin_change now stageID runID p = Inr (ev, q)"
  then obtain ev q where change: "begin_change now stageID runID p = Inr (ev, q)" by blast
  from change show "(\<exists>s. next_stage p = Some s \<and> stg_ID s = stageID \<and> length (stg_Attempts s) < 32)
     \<and> runID \<notin> set (plan_runs (wpl_Stages p))"
  proof (cases rule: begin_change_Inr)
    case (1 pre s post)
    have s: "\<not> completed_stage s" using 1(4) by auto
    have "find running_stage (wpl_Stages p) = None" using 1(9) by (auto simp: find_None_iff list_all_iff)
    then have "plan_phase p \<in> {FlowReady, FlowFailed}" using 1(8) by (auto simp: plan_phase_def)
    then have "next_stage p = Some s" using 1(1,2) s by (simp add: next_stage_def)
    with 1 show ?thesis by blast
  qed
next
  assume rhs: "(\<exists>s. next_stage p = Some s \<and> stg_ID s = stageID \<and> length (stg_Attempts s) < 32)
     \<and> runID \<notin> set (plan_runs (wpl_Stages p))"
  then obtain s where s: "next_stage p = Some s" "stg_ID s = stageID" "length (stg_Attempts s) < 32"
    and fresh: "runID \<notin> set (plan_runs (wpl_Stages p))" by blast
  from s(1) have phase: "plan_phase p \<in> {FlowReady, FlowFailed}"
    and k: "stage_cursor (wpl_Stages p) < length (wpl_Stages p)" and at: "wpl_Stages p ! stage_cursor (wpl_Stages p) = s"
    by (auto simp: next_stage_def split: if_splits)
  obtain pre s0 post where split: "wpl_Stages p = pre @ s0 # post" "length pre = stage_cursor (wpl_Stages p)"
    "list_all completed_stage pre" "\<not> completed_stage s0" by (rule cursor_split [OF k])
  then have s0: "s0 = s" using at by (metis nth_append_length)
  have head: "plan_head_ok p w i" and body: "plan_body_ok p" and good: "plan_good p"
    using ok by (auto simp: plan_ok_def validatePlanRecord_None)
  have status: "wpl_Status p \<in> {PlanStatusApproved, PlanStatusExecuting, PlanStatusFailed}"
    "wpl_ApprovedRevision p = wpl_Revision p"
    using phase head by (auto simp: plan_phase_def plan_head_ok_def split: if_splits)
  have quiet: "list_all (\<lambda>s. \<not> running_stage s) (wpl_Stages p)"
  proof (cases "wpl_Status p = PlanStatusFailed")
    case True
    with body show ?thesis by (simp add: plan_body_iff progress_ok_def)
  next
    case False
    with phase have "find running_stage (wpl_Stages p) = None"
      by (auto simp: plan_phase_def split: if_splits option.splits)
    then show ?thesis by (auto simp: find_None_iff list_all_iff)
  qed
  have "stage_ok (wpl_Revision p) s" using body split s0 by (simp add: plan_body_ok_def)
  then have eligible: "stg_Status s = PlanStageStatusPending \<or> stg_Status s = PlanStageStatusFailed"
    using quiet split s0 by (auto simp: stage_ok_def known_status_def running_stage_def)
  have "stageID \<notin> stg_ID ` set pre"
    using plan_ok_ids [OF ok] split s(2) s0 by auto
  then have index: "planStageIndex (wpl_Stages p) stageID = Some (length pre)"
    using split s(2) s0 by (simp add: planStageIndex_here)
  have none_running: "\<not> planHasRunningStage (wpl_Stages p)" using quiet by (auto simp: planHasRunningStage_iff list_all_iff)
  have unused: "\<not> run_used (wpl_Stages p) runID"
    using fresh by (auto simp: run_used_def plan_runs_def attempt_runs_def list_ex_iff)
  have before: "\<not> list_ex (\<lambda>q. \<not> completed_stage q) pre" using split(3) by (auto simp: list_all_iff list_ex_iff)
  have not_done: "trim_space (wpl_Status p) \<noteq> PlanStatusCompleted"
    using status(1) trim_statuses by auto
  have here: "wpl_Stages p ! length pre = s" "take (length pre) (wpl_Stages p) = pre" using split s0 by auto
  show "\<exists>ev q. begin_change now stageID runID p = Inr (ev, q)"
    using status eligible none_running unused before not_done s(3)
    by (auto simp: begin_change_def index here Let_def)
qed

section \<open>A plan with two stages\<close>

text \<open>
  The input of the witnesses: a workstream, a plan of two stages, the first one run and accepted,
  the second one begun. The codec is the identity, and every definition has the stages a and b.
\<close>

definition demo_codec :: plan_codec where
  "demo_codec = \<lparr>pcd_valid = (\<lambda>d. d \<noteq> ''?''), pcd_stages = (\<lambda>d. Some [''a'', ''b'']), pcd_name = (\<lambda>d. ''demo''),
     pcd_indent = (\<lambda>d. d), pcd_text = (\<lambda>s. s)\<rparr>"

definition demo_env :: store_env where
  "demo_env = \<lparr>sen_codec = demo_codec, sen_canonical = (\<lambda>w. w), sen_format = (\<lambda>f t. show_nat (nat t)), sen_stream = (\<lambda>w. w)\<rparr>"

definition demo_clock :: op_clock where
  "demo_clock = \<lparr>clk_change = 5, clk_update = 6, clk_event = 7\<rparr>"

definition demo_io :: op_io where
  "demo_io = \<lparr>pio_inspect = True, pio_write = True, pio_event = True\<rparr>"

definition demo_stream :: workstream where
  "demo_stream = \<lparr>wst_Version = 1, wst_ID = ''w'', wst_Title = ''t'', wst_Workspace = [], wst_Status = ''active'',
     wst_Summary = [], wst_NextAction = [], wst_Decisions = [], wst_OpenQuestions = [], wst_Tags = [],
     wst_Goal = \<lparr>gol_Objective = [], gol_AcceptanceCriteria = [], gol_Constraints = [], gol_DefinitionOfDone = [],
       gol_VerificationPolicy = \<lparr>vpo_Commands = [], vpo_RequiredSignals = [], vpo_MaxRepairAttempts = 2\<rparr>\<rparr>,
     wst_LastVerification = zero_verification, wst_CreatedAt = 1, wst_UpdatedAt = 1\<rparr>"

definition empty_files :: plan_store where
  "empty_files = \<lparr>pst_workspace = [], pst_streams = (\<lambda>i. if i = ''w'' then Some (Some demo_stream) else None),
     pst_plans = (\<lambda>k. None), pst_timeline = (\<lambda>i. [])\<rparr>"

definition demo_calls :: "store_event list" where
  "demo_calls = map (StoreCall demo_clock demo_io)
     [ReqCreate ''w'' ''p'' ''{}'', ReqApprove ''w'' ''p'' 1 1, ReqBegin ''w'' ''p'' 1 2 ''a'' ''x'']"

text \<open>The same plan later: the first stage was run and accepted.\<close>

definition demo_digest :: string where
  "demo_digest = replicate 64 (CHR ''a'')"

definition demo_plan :: stored_plan where
  "demo_plan = \<lparr>wpl_Version = 1, wpl_ID = ''p'', wpl_WorkstreamID = ''w'', wpl_Revision = 1, wpl_StateRevision = 4,
     wpl_Status = ''executing'', wpl_ApprovedRevision = 1, wpl_Definition = ''{}'',
     wpl_Stages = [\<lparr>stg_ID = ''a'', stg_Status = ''completed'', stg_Attempts = [\<lparr>att_RunID = ''x'', att_PlanRevision = 1,
         att_Status = ''completed'', att_StartedAt = 5, att_FinishedAt = 5, att_VerificationStatus = ''passed'',
         att_ReceiptDigest = demo_digest, att_Evidence = Some \<lparr>evd_Source = ''team-receipt'', evd_ReceiptDigest = demo_digest,
           evd_CriteriaDigest = demo_digest, evd_VerificationStatus = ''passed'', evd_CompletionStatus = ''complete'',
           evd_RecordedAt = 5\<rparr>\<rparr>]\<rparr>,
       \<lparr>stg_ID = ''b'', stg_Status = ''pending'', stg_Attempts = []\<rparr>],
     wpl_CreatedAt = 1, wpl_UpdatedAt = 6\<rparr>"

definition demo_files :: plan_store where
  "demo_files = empty_files\<lparr>pst_plans := (\<lambda>k. if k = (''w'', ''p'') then Some (Some demo_plan) else None)\<rparr>"

abbreviation demo_begin :: "string \<Rightarrow> string \<Rightarrow> plan_request" where
  "demo_begin s r \<equiv> ReqBegin ''w'' ''p'' 1 4 s r"

lemma demo_laws: "json_laws (sen_codec demo_env)"
  by (simp add: json_laws_def demo_codec_def demo_env_def)

lemma demo_events: "list_all (event_ok (sen_codec demo_env)) demo_calls"
  by code_simp

lemma demo_plan_file: "file_ok demo_codec (''w'', ''p'') demo_plan"
  by code_simp

lemma demo_good: "store_good demo_env demo_files"
  using demo_plan_file by (simp add: store_good_def demo_files_def demo_env_def)

lemma demo_here: "pst_plans demo_files (''w'', ''p'') = Some (Some demo_plan)"
  by (simp add: demo_files_def)

lemma demo_flow: "plan_flow demo_plan = (FlowReady, 1, 2)"
  by code_simp

lemma demo_begun:
  "map_sum id plan_flow (fst (plan_call demo_env demo_clock demo_io (demo_begin ''b'' ''y'') demo_files)) = Inr (FlowRunning ''y'', 1, 2)"
  by code_simp

lemma demo_next: "plan_runs (wpl_Stages demo_plan) = [''x'']"
  "map_option (\<lambda>s. (stg_ID s, length (stg_Attempts s))) (next_stage demo_plan) = Some (''b'', 0)"
  by code_simp+

lemma demo_locked: "getLocked demo_env demo_files (trim_space ''w'') = Inr demo_stream"
  by code_simp

lemma demo_names: "trim_space ''w'' = ''w''" "sanitizeID ''w'' = ''w''" "validPlanRunID ''y''" "clock_ok demo_clock" "pio_write demo_io"
  "valid_utf8 ''y''" "valid_utf8 ''z''"
  by code_simp+

lemma demo_readable: "pst_plans (foldl (store_step demo_env) empty_files demo_calls) (''w'', ''p'') \<noteq> None"
proof -
  have "\<not> Option.is_none (pst_plans (foldl (store_step demo_env) empty_files demo_calls) (''w'', ''p''))"
    by code_simp
  then show ?thesis by (simp add: Option.is_none_def)
qed

section \<open>The properties\<close>

definition verified_stage :: "uint64 \<Rightarrow> stage_state \<Rightarrow> bool" where
  "verified_stage r s \<longleftrightarrow> stg_Attempts s \<noteq> [] \<and> att_PlanRevision (last (stg_Attempts s)) = r
     \<and> (case att_Evidence (last (stg_Attempts s)) of None \<Rightarrow> False | Some e \<Rightarrow> validAcceptanceEvidence e)"

lemma completed_verified: "stage_ok r s \<Longrightarrow> completed_stage s \<Longrightarrow> verified_stage r s"
  using stage_ok_last(3,4) [of r s]
  by (auto simp: verified_stage_def stage_ok_def stage_mismatch_def attempt_ok_def attempt_state_def
      split: if_splits option.splits)

text \<open>
  C9. Every plan stays well-formed and readable, as long as its definitions fit when they are
  stored. Take a workspace without plans and any calls on the store, in any order, with any failing
  writes, under these conditions: the definition of every creation and update is at most 8 MiB in
  its indented form (the code checks the limit before it indents, and a definition that grows
  beyond it is stored and never read again, see \<^verbatim>\<open>grown_definition_unreadable\<close>), the identifier of
  every run that is begun is valid UTF-8, and no clock reading is the zero time; \<^verbatim>\<open>encoding/json\<close> obeys
  the laws \<^verbatim>\<open>json_laws\<close>. Then a plan file that exists under a sanitised workstream name is read
  back without error; its stages are in order (completed ones, at most one that was begun, then pending
  ones), at most one of them runs, every completed one carries accepted evidence of a passed
  verification for the plan's revision, and a plan that left the draft state was approved for exactly
  that revision.
\<close>

theorem plans_stay_readable:
  assumes "json_laws (sen_codec en)" and "pst_plans st = (\<lambda>_. None)" and "list_all (event_ok (sen_codec en)) es"
    and "pst_plans (foldl (store_step en) st es) (w, i) = Some f" and "sanitizeID w = w"
  shows "\<exists>p. readPlanLocked en (foldl (store_step en) st es) w i = Inr p \<and> in_order (wpl_Stages p)
     \<and> length (filter running_stage (wpl_Stages p)) \<le> 1
     \<and> list_all (verified_stage (wpl_Revision p)) (filter completed_stage (wpl_Stages p))
     \<and> (wpl_Status p = PlanStatusDraft \<or> wpl_ApprovedRevision p = wpl_Revision p)"
proof -
  have good: "store_good en (foldl (store_step en) st es)"
    using assms by (intro store_good_run empty_store_good)
  then obtain p where p: "f = Some p" "file_ok (sen_codec en) (w, i) p"
    using assms(4) by (fastforce simp: store_good_def)
  then have head: "plan_head_ok p w i" and plan: "plan_good p"
    by (auto simp: file_ok_def plan_ok_def validatePlanRecord_None)
  then have "validPlanID i" by (simp add: plan_head_ok_def)
  from readPlanLocked_good [OF good assms(4,5) this] p
  have "readPlanLocked en (foldl (store_step en) st es) w i = Inr p" by auto
  moreover have "list_all (verified_stage (wpl_Revision p)) (filter completed_stage (wpl_Stages p))"
    using plan completed_verified by (auto simp: plan_good_def plan_body_ok_def list_all_iff)
  ultimately show ?thesis
    using head plan by (auto simp: plan_head_ok_def plan_good_def plan_body_ok_def)
qed

theorem plans_stay_readable_witness:
  "\<exists>p. readPlanLocked demo_env (foldl (store_step demo_env) empty_files demo_calls) ''w'' ''p'' = Inr p \<and> in_order (wpl_Stages p)
     \<and> length (filter running_stage (wpl_Stages p)) \<le> 1
     \<and> list_all (verified_stage (wpl_Revision p)) (filter completed_stage (wpl_Stages p))"
proof -
  obtain f where f: "pst_plans (foldl (store_step demo_env) empty_files demo_calls) (''w'', ''p'') = Some f"
    using demo_readable by auto
  have "pst_plans empty_files = (\<lambda>_. None)" by (simp add: empty_files_def)
  from plans_stay_readable [OF demo_laws this demo_events f demo_names(2)]
  show ?thesis by blast
qed

text \<open>
  C18. The store refines the workflow it promises. Every call on a good store leaves the flow of each
  plan (its phase, the stages done, the stages there are) as it was, or moves it by one step of the
  abstract workflow: draft, approve, begin the next stage, accept it, fail it, revise before the start.
\<close>

theorem plans_follow_workflow:
  assumes "json_laws (sen_codec en)" and "store_good en st" and "event_ok (sen_codec en) e"
  shows "flow_at (store_step en st e) k = flow_at st k
     \<or> (\<exists>f. flow_at (store_step en st e) k = Some f \<and> flow_step (flow_at st k) f)"
  using assms
proof (cases rule: store_event_effect)
  case same
  then show ?thesis by (simp add: flow_at_def)
next
  case (wrote k' old q)
  show ?thesis
  proof (cases "k' = k")
    case True
    have "old = Some p \<Longrightarrow> file_ok (sen_codec en) k p" for p
      using store_good_file [OF assms(2), of k p] wrote(1) True by simp
    from plan_write_flow [OF assms(1) wrote(2) wrote(4)] this True
    have "flow_step (map_option plan_flow old) (plan_flow q)" by blast
    then show ?thesis using wrote True by (cases old) (auto simp: flow_at_def)
  next
    case False
    with wrote show ?thesis by (simp add: flow_at_def)
  qed
qed

theorem plans_follow_workflow_witness:
  "flow_step (Some (FlowReady, 1, 2)) (FlowRunning ''y'', 1, 2)
     \<and> flow_at (store_step demo_env demo_files (StoreCall demo_clock demo_io (demo_begin ''b'' ''y''))) (''w'', ''p'')
        = Some (FlowRunning ''y'', 1, 2)"
proof -
  let ?e = "StoreCall demo_clock demo_io (demo_begin ''b'' ''y'')"
  have "event_ok (sen_codec demo_env) ?e" using demo_names by simp
  note flow = plans_follow_workflow [OF demo_laws demo_good this, of "(''w'', ''p'')"]
  have now: "flow_at (store_step demo_env demo_files ?e) (''w'', ''p'') = Some (FlowRunning ''y'', 1, 2)"
    by code_simp
  have "flow_at demo_files (''w'', ''p'') = Some (FlowReady, 1, 2)"
    by (simp add: flow_at_def demo_here demo_flow)
  with flow now show ?thesis by auto
qed

text \<open>
  C19. Exactly the next stage can be begun. On a good store a call to begin a stage succeeds if and only
  if it names the current revisions, the state revision is not exhausted, the run identifier is valid
  and new to the plan, and the stage it names is the one at the cursor of an approved plan with no
  running stage and fewer than 32 attempts.
\<close>

theorem begin_exactly_next:
  assumes "json_laws (sen_codec en)" and "store_good en st" and "clock_ok ck" and "pio_write io"
    and "getLocked en st (trim_space w) = Inr ws" and "pst_plans st (trim_space w, i) = Some (Some p)"
  shows "(\<exists>q. fst (BeginPlanStage en ck io w i er es stageID runID st) = Inr q) \<longleftrightarrow>
     er = wpl_Revision p \<and> es = wpl_StateRevision p \<and> es \<noteq> - 1
     \<and> validPlanRunID runID \<and> runID \<notin> set (plan_runs (wpl_Stages p))
     \<and> (\<exists>s. next_stage p = Some s \<and> stg_ID s = stageID \<and> length (stg_Attempts s) < 32)"
proof (cases "validPlanRunID runID")
  case run: True
  let ?w = "trim_space w" and ?cd = "sen_codec en"
  have ok: "plan_ok ?cd ?w i p" using store_good_file [OF assms(2,6)] by (simp add: file_ok_def)
  then have head: "plan_head_ok p ?w i" and body: "plan_body_ok p"
    by (auto simp: plan_ok_def validatePlanRecord_None)
  then have i: "validPlanID i" and nonzero: "wpl_Revision p \<noteq> 0" "wpl_StateRevision p \<noteq> 0" by (auto simp: plan_head_ok_def)
  have read: "readPlanLocked en st ?w i = Inr p"
    using readPlanLocked_good [OF assms(2,6) getLocked_id [OF assms(5)] i] by auto
  have now: "clk_update ck \<noteq> zero_time" "clk_change ck \<noteq> zero_time" using assms(3) by (simp_all add: clock_ok_def)
  let ?a = "ActBegin (clk_change ck) stageID runID"
  have act: "action_ok ?a" using run now by simp
  have stage: "next_stage p = Some s \<Longrightarrow> stg_ID s = stageID \<Longrightarrow> validPlanID stageID" for s
    using body by (auto simp: next_stage_def plan_body_ok_def list_all_length stage_ok_def split: if_splits)
  have change: "(\<exists>ev q. changed_plan ?cd (clk_update ck) ?w i er es (begin_change (clk_change ck) stageID runID) p = Inr (ev, q))
     \<longleftrightarrow> er = wpl_Revision p \<and> es = wpl_StateRevision p \<and> es \<noteq> - 1
      \<and> (\<exists>ev q. begin_change (clk_change ck) stageID runID p = Inr (ev, q))"
    using changed_plan_Inr [OF ok act now(1), of er es] by auto
  have call: "(\<exists>q. fst (BeginPlanStage en ck io w i er es stageID runID st) = Inr q) \<longleftrightarrow>
     validPlanID stageID \<and> er \<noteq> 0 \<and> es \<noteq> 0
     \<and> (\<exists>ev q. changed_plan ?cd (clk_update ck) ?w i er es (begin_change (clk_change ck) stageID runID) p = Inr (ev, q))"
    using assms(4,5) run i read
    by (auto simp: BeginPlanStage_def mutatePlan_def Let_def split: sum.splits)
  show ?thesis
    unfolding call change begin_change_iff [OF ok] using run nonzero stage by auto
qed (simp add: BeginPlanStage_def)

theorem begin_exactly_next_witness:
  "(\<exists>q. fst (BeginPlanStage demo_env demo_clock demo_io ''w'' ''p'' 1 4 ''b'' ''y'' demo_files) = Inr q)
     \<and> \<not> (\<exists>q. fst (BeginPlanStage demo_env demo_clock demo_io ''w'' ''p'' 1 4 ''a'' ''y'' demo_files) = Inr q)"
proof -
  have at: "pst_plans demo_files (trim_space ''w'', ''p'') = Some (Some demo_plan)" by (simp add: demo_here demo_names)
  note exact = begin_exactly_next [OF demo_laws demo_good demo_names(4,5) demo_locked at]
  obtain s where s: "next_stage demo_plan = Some s" "stg_ID s = ''b''" "stg_Attempts s = []" using demo_next(2) by auto
  have "wpl_Revision demo_plan = 1" "wpl_StateRevision demo_plan = 4" by (simp_all add: demo_plan_def)
  with s demo_next(1) demo_names(3) show ?thesis unfolding exact by simp
qed

text \<open>
  C35. One state of a plan admits one change. Once a call on a plan has succeeded, every other call that
  names the same state revision of that plan is refused and changes nothing, whatever calls were made
  in between; so of two runs that claim the same stage concurrently at most one gets it.
\<close>

theorem one_change_per_state:
  assumes "json_laws (sen_codec en)" and "store_good en st" and "clock_ok ck" and "clock_ok ck2"
    and "request_ok (sen_codec en) req" and "request_ok (sen_codec en) req2"
    and "request_plan req = Some k" and "request_plan req2 = Some k"
    and "snd (request_revisions req2) = snd (request_revisions req)"
    and "plan_call en ck io req st = (Inr p, st1)" and "list_all (event_ok (sen_codec en)) es"
  shows "\<exists>e. plan_call en ck2 io2 req2 (foldl (store_step en) st1 es) = (Inl e, foldl (store_step en) st1 es)"
proof -
  let ?cd = "sen_codec en" and ?st2 = "foldl (store_step en) st1 es"
  have "plan_effect en req st (Inr p) st1" by (rule plan_call_effect [OF assms(1,2,3,5,10)])
  then obtain q p0 where q: "pst_plans st1 = (pst_plans st)(k := Some (Some q))" "plan_write ?cd k (Some p0) q"
    "wpl_StateRevision p0 = snd (request_revisions req)"
    using assms(7) by (auto simp: plan_effect_def)
  have good1: "store_good en st1"
    using store_good_step [OF assms(1,2), of "StoreCall ck io req"] assms(3,5,10) by simp
  have good2: "store_good en ?st2" by (rule store_good_run [OF assms(1) good1 assms(11)])
  obtain q2 where q2: "pst_plans ?st2 k = Some (Some q2)" "later_plan q q2"
    using later_run [OF assms(1) good1 assms(11), of k q] q(1) by auto
  have later: "unat (wpl_StateRevision q2) > unat (snd (request_revisions req))"
    using q2(2) plan_write_revisions(1) [OF q(2)] q(3) by (simp add: later_plan_def)
  obtain r st3 where call: "plan_call en ck2 io2 req2 ?st2 = (r, st3)" by (cases "plan_call en ck2 io2 req2 ?st2")
  have "plan_effect en req2 ?st2 r st3" by (rule plan_call_effect [OF assms(1) good2 assms(4,6) call])
  then have "r \<in> range Inl"
    using assms(8,9) q2(1) later by (auto simp: plan_effect_def)
  moreover have "st3 = ?st2" if "r = Inl e" for e
    using call that assms(8)
    by (cases req2) (auto simp: ApprovePlan_def BeginPlanStage_def FinishPlanStage_def ReconcilePlanStage_def
        split: if_splits elim!: mutatePlan_cases UpdatePlan_cases)
  ultimately show ?thesis using call by auto
qed

theorem one_change_per_state_witness:
  "\<exists>e st. plan_call demo_env demo_clock demo_io (demo_begin ''b'' ''z'')
       (snd (plan_call demo_env demo_clock demo_io (demo_begin ''b'' ''y'') demo_files)) = (Inl e, st)"
proof -
  let ?st = "snd (plan_call demo_env demo_clock demo_io (demo_begin ''b'' ''y'') demo_files)"
  obtain p where "fst (plan_call demo_env demo_clock demo_io (demo_begin ''b'' ''y'') demo_files) = Inr p"
    using demo_begun by (cases "fst (plan_call demo_env demo_clock demo_io (demo_begin ''b'' ''y'') demo_files)") auto
  then have call: "plan_call demo_env demo_clock demo_io (demo_begin ''b'' ''y'') demo_files = (Inr p, ?st)"
    by (metis prod.collapse)
  have "\<exists>e. plan_call demo_env demo_clock demo_io (demo_begin ''b'' ''z'') ?st = (Inl e, ?st)"
    using one_change_per_state [OF demo_laws demo_good demo_names(4,4), of "demo_begin ''b'' ''y''" "demo_begin ''b'' ''z''"
        "(''w'', ''p'')" demo_io p ?st "[]" demo_io] call demo_names by simp
  then show ?thesis by blast
qed
lemma revision_pins_definition:
  assumes "json_laws (sen_codec en)" and "store_good en st" and "list_all (event_ok (sen_codec en)) es"
    and "pst_plans st k = Some (Some p)"
  shows "\<exists>q. pst_plans (foldl (store_step en) st es) k = Some (Some q)
     \<and> unat (wpl_Revision p) \<le> unat (wpl_Revision q) \<and> unat (wpl_StateRevision p) \<le> unat (wpl_StateRevision q)
     \<and> (wpl_Revision q = wpl_Revision p \<longrightarrow>
          wpl_Definition q = wpl_Definition p \<and> map stg_ID (wpl_Stages q) = map stg_ID (wpl_Stages p))"
  using later_run [OF assms] by (auto simp: later_plan_def)

section \<open>Two gaps of the store\<close>

text \<open>
  A definition within the limit that indentation takes beyond it is accepted, and the plan can
  never be read again.
\<close>

lemma grown_definition_unreadable:
  assumes "CreatePlan en ck io wsid reqID d st = (r, st')" and "\<not> fits (sen_codec en) d" and "st' \<noteq> st"
  shows "\<exists>i e. validPlanID i \<and> pst_plans st (trim_space wsid, i) = None \<and> pst_plans st' (trim_space wsid, i) \<noteq> None
     \<and> readPlanLocked en st' (trim_space wsid) i = Inl (ErrPlanCorrupt (Some e))"
  using assms(1)
proof (cases rule: CreatePlan_cases)
  case (written i ids)
  let ?w = "trim_space wsid" and ?q = "stored_form (sen_codec en) (first_plan (trim_space wsid) i d ids (clk_update ck))"
  have at: "pst_plans st' (?w, i) = Some (Some ?q)" using written put_plan_at by simp
  have "planDefinitionStageIDs (sen_codec en) (wpl_Definition ?q) \<noteq> Inr x" for x
    using assms(2) by (auto simp: planDefinitionStageIDs_def fits_def stored_form_def first_plan_def)
  then have "validatePlanRecord (sen_codec en) ?q ?w i \<noteq> None" by (simp add: validatePlanRecord_None)
  then obtain e where "validatePlanRecord (sen_codec en) ?q ?w i = Some e" by auto
  with at written show ?thesis by (auto simp: readPlanLocked_def validPlanID_sanitized)
qed (simp add: assms(3))

text \<open>A creation whose timeline entry is not written reports an error and has stored the plan.\<close>

lemma failed_creation_stored:
  assumes "CreatePlan en ck (io\<lparr>pio_event := True\<rparr>) wsid reqID d st = (Inr p, st')" and "\<not> pio_event io"
  shows "\<exists>e st2. CreatePlan en ck io wsid reqID d st = (Inl e, st2) \<and> pst_plans st2 = pst_plans st'"
  using assms
  by (auto simp: CreatePlan_def Let_def appendEventLocked_def split: sum.splits if_splits option.splits)

end
