(* ===== verification/Spec2Isabelle.thy ===== *)
theory Spec2Isabelle
  imports Approval_Props Completion_Props Team_Order Tool_Dispatch Plan_Props Plan_Context
begin

text \<open>
  Verification of the agent kernel of Corelay Code.

  \<^bold>\<open>The program.\<close> Corelay Code runs coding agents: a loop asks a model what to do, executes
  tools under a policy, and ends with a typed outcome. The parts verified here are the ones that
  decide: under which authority a run acts (\<^verbatim>\<open>internal/executionpolicy\<close>), whether a dangerous call
  was approved (\<^verbatim>\<open>internal/approval\<close>), whether a run repeats itself (\<^verbatim>\<open>run_guard.go\<close>), what the
  model is reminded of (\<^verbatim>\<open>plan_anchor.go\<close>), whether the work is done (\<^verbatim>\<open>completion_contract.go\<close> and
  \<^verbatim>\<open>evidence.go\<close>), how a run ends and what of it is kept (\<^verbatim>\<open>run_terminal.go\<close>,
  \<^verbatim>\<open>durable_run.go\<close>), how a team of workers is planned, scheduled and run (\<^verbatim>\<open>team_plan.go\<close>,
  \<^verbatim>\<open>team.go\<close>), and what a tool call may do: which paths it may name (\<^verbatim>\<open>path_safety.go\<close>), which commands
  run unattended (\<^verbatim>\<open>command_effect.go\<close>), who may decide about it (\<^verbatim>\<open>permission.go\<close>,
  \<^verbatim>\<open>internal/hooks/permissions.go\<close>), whether it writes a file the run has seen (\<^verbatim>\<open>read_ledger.go\<close>), how it
  edits (\<^verbatim>\<open>edit_policy.go\<close>, \<^verbatim>\<open>fuzzy.go\<close>) and commits (\<^verbatim>\<open>file_mutation.go\<close>, \<^verbatim>\<open>file_mutation_batch.go\<close>,
  \<^verbatim>\<open>tools_improved.go\<close>), and how the calls of a turn are authorised and run (\<^verbatim>\<open>tool_dispatch.go\<close>,
  \<^verbatim>\<open>plugin_approval.go\<close>), and how the plan of a workstream is revised, approved and run stage by
  stage across runs (\<^verbatim>\<open>internal/workstream\<close>); files without a directory are in \<^verbatim>\<open>internal/agent\<close>.

  \<^bold>\<open>How the parts interact.\<close> A run gets a policy snapshot; child runs and team workers derive
  theirs from it. In full mode the loop obtains a one-shot grant of the approval broker for each
  call. The completion contract is created from the plan anchor's Definition of Done and accepts
  a claim only with evidence from the ledger of the same run. The loop's finalizer sends the
  last event of the run; the durable observer and the team reducer read it, and the latter
  decides whether a task of the team is completed, which in turn decides which waves may start.
  The calls of a model turn go through the dispatcher: it asks the permission decision, which asks
  the path boundary, the command classifier and the rules; it obtains approvals of exactly the call;
  it lets the read ledger and the run guard refuse an execution; and it binds the ledger's decision
  to one execution by a precondition that the executor of Write or Edit checks before it commits.
  The mutations of a turn form a transaction. A stored plan is changed only by calls that name the
  revisions they read; a run that claims a stage is resumed with a text that names the plan exactly.

  \<^bold>\<open>Conventions.\<close> A Go string is a list of bytes (\<^typ>\<open>string\<close>), a struct a record whose fields
  carry a short prefix, an error a constructor of an error type in a sum, a pointer that may be
  nil an \<^typ>\<open>'a option\<close>, \<^verbatim>\<open>uint64\<close> a 64-bit word, \<^verbatim>\<open>int\<close> an integer with \<^verbatim>\<open>wrap_int\<close> where the code
  can overflow, a time stamp an integer. A method under a mutex is one function from state to
  state, and a method that leaves the lock in between is one function per locked section. What
  the kernel cannot see is an argument: clock, random identifiers, SHA-256, JSON text, redaction
  patterns, environment, providers, the order in which a map is ranged over.

  \<^bold>\<open>Theories.\<close>
  \<^item> \<^verbatim>\<open>Go_Prelude\<close>: strings, UTF-8, trimming, decimal notation, wrap-around, shared lemmas.
  \<^item> \<^verbatim>\<open>Interfaces\<close>: the contracts as locales. \<^verbatim>\<open>invariant_machine\<close>, and on it \<^verbatim>\<open>write_once\<close> (an
    approval's resolution, the run of a ledger, the outcome of a run), \<^verbatim>\<open>one_shot\<close> (a full-mode
    grant), \<^verbatim>\<open>evidence_store\<close> (the ledger as the contract uses it); \<^verbatim>\<open>revision_counter\<close> (optimistic
    concurrency of the contract and of stored plans). Each is interpreted on the model of its provider.
  \<^item> \<^verbatim>\<open>Exec_Policy\<close>: \<^verbatim>\<open>Resolve\<close>, \<^verbatim>\<open>ResolveChild\<close>, \<^verbatim>\<open>ValidateSnapshot\<close>,
    \<^verbatim>\<open>deriveChildExecutionPolicy\<close>. Authority never grows along a chain of children.
  \<^item> \<^verbatim>\<open>Approval_Broker\<close>, \<^verbatim>\<open>Approval_Machine\<close>, \<^verbatim>\<open>Approval_Props\<close>: every method and timer of the broker on
    a heap of requests; all interleavings keep the invariant, a grant needs the owner's timely
    decision, resolutions are final, grants are consumed at most once and only for the exact call.
  \<^item> \<^verbatim>\<open>Run_Guard\<close>: the repeat budget, exactly. \<^verbatim>\<open>Plan_Anchor\<close>: progress and rendering of the plan
    reminder, which plan text cannot forge.
  \<^item> \<^verbatim>\<open>Completion_Contract\<close>, \<^verbatim>\<open>Completion_Laws\<close>, \<^verbatim>\<open>Evidence_Ledger\<close>, \<^verbatim>\<open>Evidence_Laws\<close>,
    \<^verbatim>\<open>Completion_Run\<close>, \<^verbatim>\<open>Completion_Props\<close>: contract, ledger and their interleaved run, with the
    three phases of \<^verbatim>\<open>ApplyClaims\<close> as separate steps. A complete contract has recorded successful
    evidence for every criterion that requires it, its criteria are the plan's, and over a whole run
    the evidence gate holds back exactly the unverified deep changes within its budget.
  \<^item> \<^verbatim>\<open>Run_Events\<close>: events, their JSON view and its decoding into structs, UTF-8 repair.
    \<^verbatim>\<open>Run_Terminal\<close>: the finalizer with a trace of its effects; a run ends once, in order, with the
    first outcome asked for.
  \<^item> \<^verbatim>\<open>Durable_Run\<close>, \<^verbatim>\<open>Durable_Laws\<close>: the durable observer and its refinement of a log that counts
    open tool calls.
  \<^item> \<^verbatim>\<open>Team_Plan\<close>, \<^verbatim>\<open>Team_Laws\<close>: plans, validation with the depth-first cycle search, capacities and
    the scheduler. \<^verbatim>\<open>Team_Waves\<close>: Kahn's algorithm, batches, ownership. \<^verbatim>\<open>Team_Batches\<close>: what batches
    and ownership guarantee. \<^verbatim>\<open>Team_Exec\<close>, \<^verbatim>\<open>Team_Run\<close>, \<^verbatim>\<open>Team_Order\<close>: the execution of a worker's
    events, of batches and of waves; a failed run never completes a task, and tasks start only
    after their dependencies completed.
  \<^item> \<^verbatim>\<open>Path_Syntax\<close>: \<^verbatim>\<open>filepath.Clean\<close>, \<^verbatim>\<open>Join\<close>, \<^verbatim>\<open>Dir\<close>, \<^verbatim>\<open>Rel\<close> on Unix; the textual containment test is
    containment by components, and cleaning is idempotent. \<^verbatim>\<open>Path_Safety\<close>, \<^verbatim>\<open>Path_Laws\<close>: the path-bearing
    fields of every built-in tool; accepted paths stay in the workspace after their links were
    resolved, are their own canonical paths, and remain accepted if external paths are allowed.
  \<^item> \<^verbatim>\<open>Command_Effect\<close>, \<^verbatim>\<open>Permission\<close>: the classification of commands, the rules and the permission
    decision as a table over the snapshot's modes and rules; what the shell runs unasked, if only
    one key of the input names the command, is one plain command of the catalogue.
  \<^item> \<^verbatim>\<open>Read_Ledger\<close>: the ledger refines a memory of the contents a run has seen.
  \<^item> \<^verbatim>\<open>Edit_Policy\<close>, \<^verbatim>\<open>Edit_Laws\<close>: string and fuzzy replacement and unified patches; an applied patch can
    be taken back. \<^verbatim>\<open>File_Mutation\<close>: preconditions, staging, and the executors of Write and Edit.
  \<^item> \<^verbatim>\<open>Tool_Execution\<close>: one authorised Write or Edit call, which composes ledger, guard,
    preconditions and executors. \<^verbatim>\<open>Mutation_Batch\<close>: the turn as a transaction, proved once in the locale
    \<^verbatim>\<open>file_mutator\<close> (what an execution promises) and interpreted on the modelled execution.
    \<^verbatim>\<open>Tool_Dispatch\<close>: the authorization of every call; executors and hooks run only for cleared calls.
  \<^item> \<^verbatim>\<open>Plan_Record\<close>, \<^verbatim>\<open>Plan_Store\<close>: the stored plan with its check, and every operation of the
    workstream store on the files of a workspace (\<^verbatim>\<open>plans.go\<close>, \<^verbatim>\<open>store.go\<close>). \<^verbatim>\<open>Plan_Laws\<close>: the check
    stage by stage, and what each transition keeps. \<^verbatim>\<open>Plan_System\<close>: the store as a machine of calls and
    the three ways a plan file is written. \<^verbatim>\<open>Plan_Props\<close>: plans stay readable, follow an abstract
    workflow, exactly the next stage can be begun, and one state admits one change.
    \<^verbatim>\<open>Plan_Context\<close>: the bounded context of a resumed run (\<^verbatim>\<open>context.go\<close>), which keeps the plan's identity.

  \<^bold>\<open>Fuel.\<close> The cycle search has as much fuel as there are tasks plus two, because every nested
  call marks a new task as being visited; the wave planner one round more than there are tasks,
  because every round removes one; the batch loop of a wave one round more than pending tasks, for
  the same reason; UTF-8 repair one step per byte. The theorems show that this is enough: the
  functions return a result, never the \<^const>\<open>None\<close> of exhausted fuel.

  The functions on paths and patches recurse on a measure (the height of a path, the lines left),
  so they need no fuel.

  \<^bold>\<open>Granularity.\<close> Where the model takes one step and the code takes several: the read ledger hashes a
  file and then stores the hash under its lock, here one step; an execution of Write or Edit is one
  function on the file map, so that what others do to a file happens before or after it (the checks
  that would notice it in between are modelled, and cannot fail for that reason), but the look at
  the target after its directory was made may find another file system; a file is its content and
  permission bits, without owner or setuid bits; the dispatcher's clock, rules and broker give the
  same answers during one authorization; the workstream store's check of its workstream and the
  change of the plan are one step. The second identity check and the consumption of the full-mode
  grant before an execution are modelled for Write and Edit, whose executors are modelled; the other
  executors are an argument. A receipt is filled from two separate looks at the evidence ledger.

  \<^bold>\<open>Not modelled.\<close> The agent loop itself, providers, the tools other than Write and Edit, hook and
  plugin processes, MCP, the sandbox runners, the HTTP server, the terminal user interface and the
  protocol adapters are input and output around these decisions. Of the shell: the quote-aware
  parser, the allow list and the patterns of \<^verbatim>\<open>bash_security.go\<close>, which run inside the executor after the
  decision. Of the modelled files: the Windows branches of the path checks, the JSON text of
  snapshots and plans on disk (the values are modelled, not their text), the schema validator and
  the registration of tool catalogs (arguments of the dispatcher), redaction (a family of regular
  expressions), directories and temporary files of a staged commit, the pausing budget of a wave,
  verification commands, worktrees, mailbox files and log lines of a team. Sessions, checkpoints and
  the recovery of tool calls from text are stores and heuristics outside this development. Of the
  workstream store: the listings, which only read and sort, the handoff document, and the choice of
  its directory among legacy names, which is fixed while the store is in use.

  \<^bold>\<open>Observations.\<close> Proved facts about the code that its comments or names do not suggest:
  \<^verbatim>\<open>Team_Batches.slot_sum_wraps\<close>, \<^verbatim>\<open>pattern_matches_sibling\<close>, \<^verbatim>\<open>overlap_missed\<close>,
  \<^verbatim>\<open>readonly_owner_blocks_writer\<close>; \<^verbatim>\<open>Team_Laws.task_id_never_required\<close>; \<^verbatim>\<open>Path_Laws.empty_entry_unblocks\<close>;
  \<^verbatim>\<open>Permission.effects_read_as_queries\<close>, \<^verbatim>\<open>destructive_forms_missed\<close>,
  \<^verbatim>\<open>judged_and_run_commands_differ\<close>, \<^verbatim>\<open>project_mode_beats_policy_deny\<close>;
  \<^verbatim>\<open>Edit_Laws.contextless_hunks_refused\<close>, \<^verbatim>\<open>patch_rewrites_line_ends\<close>,
  \<^verbatim>\<open>blank_lines_match_anything_blank\<close>; \<^verbatim>\<open>Mutation_Batch.lost_result_keeps_change\<close>;
  \<^verbatim>\<open>Plan_Props.grown_definition_unreadable\<close>, \<^verbatim>\<open>failed_creation_stored\<close>.
\<close>

end
